theory Spec2Isabelle
  imports Complex_Main "HOL-Library.Multiset"
begin

section \<open>Vectors, rotations and rigid transforms\<close>

text \<open>
  The engine's \<^verbatim>\<open>FReal\<close> is a 32-bit float. In the constraint solvers it is modelled by
  \<^typ>\<open>real\<close>: rounding, infinities and NaN are outside the model there, and the theorems
  about the solvers speak about the control flow and the exact arithmetic of the solver code.
  The step driver is modelled on 32-bit floats with their rounding, because there the
  rounding decides whether the loop ends.
\<close>

datatype FVec3 = FVec3 real real real

fun vadd :: "FVec3 \<Rightarrow> FVec3 \<Rightarrow> FVec3" where
  "vadd (FVec3 a b c) (FVec3 x y z) = FVec3 (a + x) (b + y) (c + z)"

fun vsub :: "FVec3 \<Rightarrow> FVec3 \<Rightarrow> FVec3" where
  "vsub (FVec3 a b c) (FVec3 x y z) = FVec3 (a - x) (b - y) (c - z)"

fun smul :: "real \<Rightarrow> FVec3 \<Rightarrow> FVec3" where
  "smul k (FVec3 x y z) = FVec3 (k * x) (k * y) (k * z)"

fun CrossProduct :: "FVec3 \<Rightarrow> FVec3 \<Rightarrow> FVec3" where
  "CrossProduct (FVec3 a b c) (FVec3 x y z) = FVec3 (b * z - c * y) (c * x - a * z) (a * y - b * x)"

fun Size :: "FVec3 \<Rightarrow> real" where
  "Size (FVec3 x y z) = sqrt (x * x + y * y + z * z)"

definition ZeroVector :: FVec3 where
  "ZeroVector = FVec3 0 0 0"

text \<open>
  Modelled from the spec: the quaternion type \<^verbatim>\<open>TRotation\<close> (components X, Y, Z, W) with its
  product, \<^verbatim>\<open>Inverse\<close> and \<^verbatim>\<open>RotateVector\<close> is declared in the engine's math library, which
  is not part of the sources at hand. The spec calls orientations unit quaternions; the
  definitions are the usual quaternion algebra: the Hamilton product, the conjugate as the
  inverse of a unit quaternion, and the rotation of a vector by \<open>q v q\<^sup>-\<^sup>1\<close>.
\<close>

datatype FRotation3 = FQuat real real real real

fun qmul :: "FRotation3 \<Rightarrow> FRotation3 \<Rightarrow> FRotation3" where
  "qmul (FQuat ax ay az aw) (FQuat bx by bz bw) =
     FQuat (aw * bx + ax * bw + ay * bz - az * by)
           (aw * by - ax * bz + ay * bw + az * bx)
           (aw * bz + ax * by - ay * bx + az * bw)
           (aw * bw - ax * bx - ay * by - az * bz)"

fun Inverse :: "FRotation3 \<Rightarrow> FRotation3" where
  "Inverse (FQuat x y z w) = FQuat (- x) (- y) (- z) w"

fun RotateVector :: "FRotation3 \<Rightarrow> FVec3 \<Rightarrow> FVec3" where
  "RotateVector (FQuat x y z w) v =
     (let t = smul 2 (CrossProduct (FVec3 x y z) v)
      in vadd (vadd v (smul w t)) (CrossProduct (FVec3 x y z) t))"

definition FromIdentity :: FRotation3 where
  "FromIdentity = FQuat 0 0 0 1"

record FRigidTransform3 =
  Translation :: FVec3
  Rotation :: FRotation3

definition TransformIdentity :: FRigidTransform3 where
  "TransformIdentity = \<lparr>Translation = ZeroVector, Rotation = FromIdentity\<rparr>"

section \<open>Errors\<close>

text \<open>
  The engine signals caller errors by \<^verbatim>\<open>check(...)\<close> and by the range check of
  \<^verbatim>\<open>TArray::operator[]\<close>; both stop the program. They are values here.
\<close>

datatype error = CheckFailed | RangeCheckFailed | InvalidHandle | NonFinite

section \<open>Arrays\<close>

text \<open>
  Modelled from the spec: \<^verbatim>\<open>TArray::RemoveAtSwap\<close> and \<^verbatim>\<open>TArray::Sort\<close> belong to the engine's
  container library, which is not part of the sources at hand. The spec describes the first as
  swap-with-last removal. \<^verbatim>\<open>Sort\<close> takes the predicate "L comes before R"; it is
  modelled by an insertion sort. The engine's sort is not stable, so nothing below depends on
  the relative order of elements the predicate does not separate.
\<close>

definition RemoveAtSwap :: "nat \<Rightarrow> 'a list \<Rightarrow> 'a list" where
  "RemoveAtSwap i xs = butlast (xs[i := last xs])"

fun insert_by :: "('a \<Rightarrow> 'a \<Rightarrow> bool) \<Rightarrow> 'a \<Rightarrow> 'a list \<Rightarrow> 'a list" where
  "insert_by before x [] = [x]"
| "insert_by before x (y # ys) =
     (if before x y then x # y # ys else y # insert_by before x ys)"

fun Sort :: "('a \<Rightarrow> 'a \<Rightarrow> bool) \<Rightarrow> 'a list \<Rightarrow> 'a list" where
  "Sort before [] = []"
| "Sort before (x # xs) = insert_by before x (Sort before xs)"

section \<open>Joint constraint container (PBDJointConstraints.cpp)\<close>

datatype EJointProjectionPhase = PhaseNone | PhaseApply | PhaseApplyPushOut

record FPBDJointSolverSettings =
  ApplyPairIterations :: int
  ApplyPushOutPairIterations :: int
  bEnableVelocitySolve :: bool
  ProjectionPhase :: EJointProjectionPhase
  SolverLinearProjection :: real
  SolverAngularProjection :: real

record FPBDJointMotionSettings =
  Stiffness :: real
  LinearProjection :: real
  AngularProjection :: real

record FPBDJointSettings =
  ConstraintFrames :: "FRigidTransform3 \<times> FRigidTransform3"
  Motion :: FPBDJointMotionSettings

text \<open>\<^verbatim>\<open>INDEX_NONE\<close> is \<open>-1\<close>.\<close>

record FPBDJointState =
  Level :: int
  ParticleLevels :: "int \<times> int"

definition DefaultMotionSettings :: FPBDJointMotionSettings where
  "DefaultMotionSettings = \<lparr>Stiffness = 1, LinearProjection = 0, AngularProjection = 0\<rparr>"

definition DefaultJointSettings :: FPBDJointSettings where
  "DefaultJointSettings =
     \<lparr>ConstraintFrames = (TransformIdentity, TransformIdentity), Motion = DefaultMotionSettings\<rparr>"

definition DefaultJointState :: FPBDJointState where
  "DefaultJointState = \<lparr>Level = - 1, ParticleLevels = (- 1, - 1)\<rparr>"

text \<open>
  Particle handles are pointers; they are modelled by natural numbers. A constraint handle
  carries the index of its constraint, and is modelled by that index (an \<^verbatim>\<open>int32\<close>; the
  iteration counts and indices below stay far from the bounds of \<^verbatim>\<open>int32\<close>, so they are
  integers). The two callbacks are modelled by whether they are set.
\<close>

type_synonym particle_handle = nat

record FPBDJointConstraints =
  Settings :: FPBDJointSolverSettings
  Handles :: "int list"
  ConstraintParticles :: "(particle_handle \<times> particle_handle) list"
  ConstraintSettings :: "FPBDJointSettings list"
  ConstraintStates :: "FPBDJointState list"
  PreApplyCallback :: bool
  PostApplyCallback :: bool

definition NumConstraints :: "FPBDJointConstraints \<Rightarrow> int" where
  "NumConstraints c = int (length (ConstraintParticles c))"

subsection \<open>AddConstraint\<close>

text \<open>
  \<open>AddConstraintFrames\<close> is the overload that takes the two local frames,
  \<open>AddConstraintWorld\<close> the one that takes a world-space frame. The position \<^verbatim>\<open>X()\<close> and
  the rotation \<^verbatim>\<open>R()\<close> of the two particles are read through their handles.
\<close>

definition AddConstraintFrames ::
  "FPBDJointConstraints \<Rightarrow> particle_handle \<times> particle_handle
     \<Rightarrow> FRigidTransform3 \<times> FRigidTransform3 \<Rightarrow> error + (int \<times> FPBDJointConstraints)" where
  "AddConstraintFrames c InConstrainedParticles Frames =
     (let ConstraintIndex = length (Handles c);
          Added = ConstraintSettings c @ [DefaultJointSettings]
      in if ConstraintIndex < length Added
         then Inr (int ConstraintIndex,
                c\<lparr>Handles := Handles c @ [int ConstraintIndex],
                  ConstraintParticles := ConstraintParticles c @ [InConstrainedParticles],
                  ConstraintSettings :=
                    Added[ConstraintIndex := (Added ! ConstraintIndex)\<lparr>ConstraintFrames := Frames\<rparr>],
                  ConstraintStates := ConstraintStates c @ [DefaultJointState]\<rparr>)
         else Inl RangeCheckFailed)"

definition AddConstraintWorld ::
  "(particle_handle \<Rightarrow> FVec3) \<Rightarrow> (particle_handle \<Rightarrow> FRotation3) \<Rightarrow> FPBDJointConstraints
     \<Rightarrow> particle_handle \<times> particle_handle \<Rightarrow> FRigidTransform3
     \<Rightarrow> error + (int \<times> FPBDJointConstraints)" where
  "AddConstraintWorld X R c InConstrainedParticles WorldConstraintFrame =
     (let Frame0 = \<lparr>Translation = vsub (Translation WorldConstraintFrame) (X (fst InConstrainedParticles)),
                    Rotation = qmul (Rotation WorldConstraintFrame) (Inverse (R (fst InConstrainedParticles)))\<rparr>;
          Frame1 = \<lparr>Translation = vsub (Translation WorldConstraintFrame) (X (snd InConstrainedParticles)),
                    Rotation = qmul (Rotation WorldConstraintFrame) (Inverse (R (snd InConstrainedParticles)))\<rparr>
      in AddConstraintFrames c InConstrainedParticles (Frame0, Frame1))"

definition GetConstraintSettings :: "FPBDJointConstraints \<Rightarrow> nat \<Rightarrow> FPBDJointSettings" where
  "GetConstraintSettings c ConstraintIndex = ConstraintSettings c ! ConstraintIndex"

text \<open>
  The claim's words, for comparison with the code: a world-space frame expressed in the local
  coordinates of a body at position \<open>X\<close> with rotation \<open>R\<close>. The translation is the world
  translation minus the body position, rotated into the body's space; the rotation is the
  world rotation seen from the body.
\<close>

definition WorldToLocal :: "FVec3 \<Rightarrow> FRotation3 \<Rightarrow> FRigidTransform3 \<Rightarrow> FRigidTransform3" where
  "WorldToLocal X R W =
     \<lparr>Translation = RotateVector (Inverse R) (vsub (Translation W) X),
      Rotation = qmul (Inverse R) (Rotation W)\<rparr>"

definition DefaultSolverSettings :: FPBDJointSolverSettings where
  "DefaultSolverSettings =
     \<lparr>ApplyPairIterations = 1, ApplyPushOutPairIterations = 1, bEnableVelocitySolve = False,
      ProjectionPhase = PhaseNone, SolverLinearProjection = 0, SolverAngularProjection = 0\<rparr>"

text \<open>The container as its constructor leaves it.\<close>

definition NewJointConstraints :: "FPBDJointSolverSettings \<Rightarrow> FPBDJointConstraints" where
  "NewJointConstraints InSettings =
     \<lparr>Settings = InSettings, Handles = [], ConstraintParticles = [], ConstraintSettings = [],
      ConstraintStates = [], PreApplyCallback = False, PostApplyCallback = False\<rparr>"

definition SetParticleLevels :: "FPBDJointConstraints \<Rightarrow> nat \<Rightarrow> int \<times> int \<Rightarrow> error + FPBDJointConstraints" where
  "SetParticleLevels c ConstraintIndex Levels =
     (if ConstraintIndex < length (ConstraintStates c)
      then Inr (c\<lparr>ConstraintStates := (ConstraintStates c)
                   [ConstraintIndex := \<lparr>Level = min (fst Levels) (snd Levels), ParticleLevels = Levels\<rparr>]\<rparr>)
      else Inl RangeCheckFailed)"

subsection \<open>RemoveConstraints\<close>

text \<open>The body of \<^verbatim>\<open>RemoveConstraints\<close> is empty: the container is returned as it is.\<close>

definition RemoveConstraints :: "FPBDJointConstraints \<Rightarrow> particle_handle set \<Rightarrow> FPBDJointConstraints" where
  "RemoveConstraints c RemovedParticles = c"

definition references :: "particle_handle \<times> particle_handle \<Rightarrow> particle_handle set \<Rightarrow> bool" where
  "references pair S = (fst pair \<in> S \<or> snd pair \<in> S)"

subsection \<open>Apply, ApplyPushOut and ApplyProjection\<close>

text \<open>
  The three passes hand each constraint to \<^verbatim>\<open>SolveVelocity\<close>, \<^verbatim>\<open>SolvePosition\<close> or
  \<^verbatim>\<open>ProjectPosition\<close>, whose numerical work is done by utilities outside the sources at hand.
  A pass is modelled by the sequence of these calls, in the order it makes them, with
  their arguments. A handle whose index is outside the container fails the range check of
  the first array access that uses it.
\<close>

datatype call =
    PreApply real "int list"
  | PostApply real "int list"
  | SolveVelocity real int int int int
  | SolvePosition real int int int int
  | ProjectPosition real int int int

definition GetConstraintLevel :: "FPBDJointConstraints \<Rightarrow> int \<Rightarrow> int" where
  "GetConstraintLevel c ConstraintIndex = Level (ConstraintStates c ! nat ConstraintIndex)"

definition valid_handles :: "FPBDJointConstraints \<Rightarrow> int list \<Rightarrow> bool" where
  "valid_handles c hs =
     list_all (\<lambda>h. 0 \<le> h \<and> h < NumConstraints c \<and> nat h < length (ConstraintSettings c)
                  \<and> nat h < length (ConstraintStates c)) hs"

definition SortLeafToRoot :: "FPBDJointConstraints \<Rightarrow> int list \<Rightarrow> int list" where
  "SortLeafToRoot c hs = Sort (\<lambda>L R. GetConstraintLevel c L > GetConstraintLevel c R) hs"

definition SortRootToLeaf :: "FPBDJointConstraints \<Rightarrow> int list \<Rightarrow> int list" where
  "SortRootToLeaf c hs = Sort (\<lambda>L R. GetConstraintLevel c L < GetConstraintLevel c R) hs"

definition ApplyProjection :: "FPBDJointConstraints \<Rightarrow> real \<Rightarrow> int list \<Rightarrow> error + call list" where
  "ApplyProjection c Dt InConstraintHandles =
     (if valid_handles c InConstraintHandles
      then Inr (map (\<lambda>h. ProjectPosition Dt h 0 1) (SortRootToLeaf c InConstraintHandles))
      else Inl RangeCheckFailed)"

definition Apply :: "FPBDJointConstraints \<Rightarrow> real \<Rightarrow> int list \<Rightarrow> int \<Rightarrow> int \<Rightarrow> error + call list" where
  "Apply c Dt InConstraintHandles It NumIts =
     (if \<not> valid_handles c InConstraintHandles then Inl RangeCheckFailed
      else
        let SortedConstraintHandles = SortLeafToRoot c InConstraintHandles;
            pre = (if PreApplyCallback c then [PreApply Dt SortedConstraintHandles] else []);
            solve = map (\<lambda>h. if bEnableVelocitySolve (Settings c)
                              then SolveVelocity Dt h (ApplyPairIterations (Settings c)) It NumIts
                              else SolvePosition Dt h (ApplyPairIterations (Settings c)) It NumIts)
                        SortedConstraintHandles;
            post = (if PostApplyCallback c then [PostApply Dt SortedConstraintHandles] else [])
        in if ProjectionPhase (Settings c) = PhaseApply \<and> It = NumIts - 1
           then (case ApplyProjection c Dt InConstraintHandles of
                   Inl e \<Rightarrow> Inl e
                 | Inr proj \<Rightarrow> Inr (pre @ solve @ proj @ post))
           else Inr (pre @ solve @ post))"

text \<open>\<^verbatim>\<open>ApplyPushOut\<close> also returns \<^verbatim>\<open>bNeedsAnotherIteration\<close>, which is always true.\<close>

definition ApplyPushOut ::
  "FPBDJointConstraints \<Rightarrow> real \<Rightarrow> int list \<Rightarrow> int \<Rightarrow> int \<Rightarrow> error + (bool \<times> call list)" where
  "ApplyPushOut c Dt InConstraintHandles It NumIts =
     (let solve =
            (if ApplyPushOutPairIterations (Settings c) > 0
             then (if valid_handles c InConstraintHandles
                   then Inr (map (\<lambda>h. SolvePosition Dt h (ApplyPushOutPairIterations (Settings c)) It NumIts)
                              (SortRootToLeaf c InConstraintHandles))
                   else Inl RangeCheckFailed)
             else Inr [])
      in case solve of
           Inl e \<Rightarrow> Inl e
         | Inr solved \<Rightarrow>
             if ProjectionPhase (Settings c) = PhaseApplyPushOut
                \<and> It = (if ApplyPushOutPairIterations (Settings c) > 0 then NumIts - 1 else 0)
             then (case ApplyProjection c Dt InConstraintHandles of
                     Inl e \<Rightarrow> Inl e
                   | Inr proj \<Rightarrow> Inr (True, solved @ proj))
             else Inr (True, solved))"

text \<open>The constraints a pass solves, and the constraints it projects, in order.\<close>

fun solved_of :: "call \<Rightarrow> int list" where
  "solved_of (SolveVelocity Dt h n It NumIts) = [h]"
| "solved_of (SolvePosition Dt h n It NumIts) = [h]"
| "solved_of _ = []"

fun projected_of :: "call \<Rightarrow> int list" where
  "projected_of (ProjectPosition Dt h It NumIts) = [h]"
| "projected_of _ = []"

definition solved :: "call list \<Rightarrow> int list" where
  "solved tr = concat (map solved_of tr)"

definition projected :: "call list \<Rightarrow> int list" where
  "projected tr = concat (map projected_of tr)"

subsection \<open>Concrete containers\<close>

text \<open>
  A chain of four bodies 0 - 1 - 2 - 3 hanging from the kinematic body 0, with the levels the
  constraint graph gives its three joints, and the handles in an order that is neither
  ascending nor descending.
\<close>

definition ChainJoints :: FPBDJointConstraints where
  "ChainJoints =
     \<lparr>Settings = DefaultSolverSettings, Handles = [0, 1, 2],
      ConstraintParticles = [(0, 1), (1, 2), (2, 3)],
      ConstraintSettings = [DefaultJointSettings, DefaultJointSettings, DefaultJointSettings],
      ConstraintStates =
        [\<lparr>Level = 0, ParticleLevels = (0, 1)\<rparr>, \<lparr>Level = 1, ParticleLevels = (1, 2)\<rparr>,
         \<lparr>Level = 2, ParticleLevels = (2, 3)\<rparr>],
      PreApplyCallback = False, PostApplyCallback = False\<rparr>"

definition ChainHandles :: "int list" where
  "ChainHandles = [1, 2, 0]"

text \<open>The same chain with projection configured for the apply phase.\<close>

definition ProjectingChain :: FPBDJointConstraints where
  "ProjectingChain = ChainJoints\<lparr>Settings := DefaultSolverSettings\<lparr>ProjectionPhase := PhaseApply\<rparr>\<rparr>"

text \<open>One joint between the particles 0 and 1.\<close>

definition OneJoint :: FPBDJointConstraints where
  "OneJoint =
     \<lparr>Settings = DefaultSolverSettings, Handles = [0], ConstraintParticles = [(0, 1)],
      ConstraintSettings = [DefaultJointSettings], ConstraintStates = [DefaultJointState],
      PreApplyCallback = False, PostApplyCallback = False\<rparr>"

text \<open>
  Two bodies at the origin, both turned by half a turn about the Z axis, and a world-space
  frame one unit along the X axis.
\<close>

definition TurnedX :: "particle_handle \<Rightarrow> FVec3" where
  "TurnedX h = FVec3 0 0 0"

definition TurnedR :: "particle_handle \<Rightarrow> FRotation3" where
  "TurnedR h = FQuat 0 0 1 0"

definition FrameAlongX :: FRigidTransform3 where
  "FrameAlongX = \<lparr>Translation = FVec3 1 0 0, Rotation = FromIdentity\<rparr>"

definition StoredFrames :: "error + (int \<times> FPBDJointConstraints) \<Rightarrow> (FRigidTransform3 \<times> FRigidTransform3) option" where
  "StoredFrames r =
     (case r of Inl e \<Rightarrow> None
      | Inr (h, c) \<Rightarrow> Some (ConstraintFrames (GetConstraintSettings c (nat h))))"

section \<open>Single-precision arithmetic\<close>

text \<open>
  The C++ type \<^verbatim>\<open>float\<close> is taken to be IEEE 754 binary32 with the default rounding, to
  nearest with ties to even. A value is a finite number, an infinity or not a number.
  Negative zero is identified with zero: subtraction, addition and the comparisons are the
  only operations used, and the comparisons do not tell the two zeros apart.

  A finite binary32 number is an integer multiple of its quantum \<open>2 ^ (e - 23)\<close>, where \<open>e\<close>
  is its binary exponent, between \<open>-126\<close> and \<open>127\<close>; numbers below \<open>2 ^ -126\<close> in absolute
  value have the quantum \<open>2 ^ -149\<close>. \<open>binade n x\<close> looks for the exponent of \<open>x \<ge> 0\<close> from
  \<open>n - 127\<close> downwards. \<open>round32\<close> rounds a real number to the nearest multiple of the
  quantum of its binade, to the even multiple on a tie, and to an infinity when the result
  is beyond the largest finite number.
\<close>

datatype float32 = Finite real | PlusInfinity | MinusInfinity | NaN

primrec binade :: "nat \<Rightarrow> real \<Rightarrow> int" where
  "binade 0 x = - 126"
| "binade (Suc n) x = (if 2 powi (int n - 126) \<le> x then int n - 126 else binade n x)"

definition quantum :: "real \<Rightarrow> real" where
  "quantum x = 2 powi (binade 254 \<bar>x\<bar> - 23)"

definition round_to_even :: "real \<Rightarrow> int" where
  "round_to_even r =
     (if r - of_int \<lfloor>r\<rfloor> < 1 / 2 then \<lfloor>r\<rfloor>
      else if 1 / 2 < r - of_int \<lfloor>r\<rfloor> then \<lfloor>r\<rfloor> + 1
      else if even \<lfloor>r\<rfloor> then \<lfloor>r\<rfloor> else \<lfloor>r\<rfloor> + 1)"

definition round32 :: "real \<Rightarrow> float32" where
  "round32 x =
     (let r = of_int (round_to_even (x / quantum x)) * quantum x
      in if 2 ^ 128 \<le> r then PlusInfinity
         else if r \<le> - (2 ^ 128) then MinusInfinity
         else Finite r)"

text \<open>A real number is a binary32 number when rounding leaves it as it is.\<close>

definition representable :: "real \<Rightarrow> bool" where
  "representable x = (round32 x = Finite x)"

text \<open>The operators \<^verbatim>\<open>-\<close>, \<^verbatim>\<open>+\<close>, \<^verbatim>\<open>>\<close> and \<^verbatim>\<open>== 0\<close> on floats.\<close>

fun fsub :: "float32 \<Rightarrow> float32 \<Rightarrow> float32" where
  "fsub (Finite a) (Finite b) = round32 (a - b)"
| "fsub NaN y = NaN"
| "fsub x NaN = NaN"
| "fsub PlusInfinity PlusInfinity = NaN"
| "fsub MinusInfinity MinusInfinity = NaN"
| "fsub PlusInfinity y = PlusInfinity"
| "fsub MinusInfinity y = MinusInfinity"
| "fsub (Finite a) PlusInfinity = MinusInfinity"
| "fsub (Finite a) MinusInfinity = PlusInfinity"

fun fadd :: "float32 \<Rightarrow> float32 \<Rightarrow> float32" where
  "fadd (Finite a) (Finite b) = round32 (a + b)"
| "fadd NaN y = NaN"
| "fadd x NaN = NaN"
| "fadd PlusInfinity MinusInfinity = NaN"
| "fadd MinusInfinity PlusInfinity = NaN"
| "fadd PlusInfinity y = PlusInfinity"
| "fadd MinusInfinity y = MinusInfinity"
| "fadd (Finite a) PlusInfinity = PlusInfinity"
| "fadd (Finite a) MinusInfinity = MinusInfinity"

fun fgreater :: "float32 \<Rightarrow> float32 \<Rightarrow> bool" where
  "fgreater (Finite a) (Finite b) = (b < a)"
| "fgreater NaN y = False"
| "fgreater x NaN = False"
| "fgreater PlusInfinity PlusInfinity = False"
| "fgreater PlusInfinity y = True"
| "fgreater MinusInfinity y = False"
| "fgreater (Finite a) PlusInfinity = False"
| "fgreater (Finite a) MinusInfinity = True"

fun fzero :: "float32 \<Rightarrow> bool" where
  "fzero (Finite a) = (a = 0)"
| "fzero x = False"

section \<open>Step driver (ClothingSimulation::Simulate)\<close>

text \<open>
  The part of \<^verbatim>\<open>Simulate\<close> that advances the evolution. \<open>AdvanceSubSteps\<close> is its
  \<^verbatim>\<open>while\<close> loop: it carries the time left of the frame (\<^verbatim>\<open>Context->DeltaTime\<close>) and the
  arguments of the calls of \<^verbatim>\<open>AdvanceOneTimeStep\<close> made so far. The loop need not end, so
  the function is partial: \<open>None\<close> is a loop that never returns.
\<close>

record ClothingSimulation =
  MaxDeltaTime :: float32
  ClampDeltaTime :: float32
  DeltaTime :: float32
  Time :: float32

text \<open>\<^verbatim>\<open>FillContext\<close> hands the frame delta it receives to \<^verbatim>\<open>Simulate\<close> as
  \<^verbatim>\<open>Context->DeltaTime\<close>, clamped when \<^verbatim>\<open>ClampDeltaTime\<close> is positive; \<^verbatim>\<open>std::min(a, b)\<close> is
  \<^verbatim>\<open>b\<close> when \<^verbatim>\<open>b < a\<close> and \<^verbatim>\<open>a\<close> otherwise. The other fields of the context are left out.\<close>

definition FillContext :: "ClothingSimulation \<Rightarrow> float32 \<Rightarrow> float32" where
  "FillContext sim InDeltaTime =
     (if fgreater (ClampDeltaTime sim) (Finite 0)
      then (if fgreater InDeltaTime (ClampDeltaTime sim) then ClampDeltaTime sim else InDeltaTime)
      else InDeltaTime)"

partial_function (option) AdvanceSubSteps ::
  "float32 \<Rightarrow> float32 \<Rightarrow> float32 list \<Rightarrow> (float32 \<times> float32 list) option" where
  "AdvanceSubSteps MaxDt ContextDeltaTime steps =
     (if fgreater ContextDeltaTime MaxDt
      then AdvanceSubSteps MaxDt (fsub ContextDeltaTime MaxDt) (steps @ [MaxDt])
      else Some (ContextDeltaTime, steps))"

text \<open>
  \<open>Simulate\<close> returns at once when the frame delta is zero. Otherwise it returns the
  simulation and the sub-steps in the order taken: those of the loop and the final call
  with what is left of the frame. The skinning of the animation positions and the update of
  the collision transforms, which stand between the test and the loop, are taken to
  complete; they do not touch the fields of the model and are left out.
\<close>

definition Simulate :: "ClothingSimulation \<Rightarrow> float32 \<Rightarrow> (ClothingSimulation \<times> float32 list) option" where
  "Simulate sim ContextDeltaTime =
     (if fzero ContextDeltaTime then Some (sim, [])
      else
        (case AdvanceSubSteps (MaxDeltaTime sim) ContextDeltaTime [] of
           None \<Rightarrow> None
         | Some (Remaining, steps) \<Rightarrow>
             Some (sim\<lparr>DeltaTime := ContextDeltaTime, Time := fadd (Time sim) ContextDeltaTime\<rparr>,
                   steps @ [Remaining])))"

text \<open>The simulation as its constructor leaves it: the maximum sub-step is \<^verbatim>\<open>1.0f\<close>, the only
  value the code ever gives it, and the frame delta is not clamped. The constructor does not
  assign \<^verbatim>\<open>DeltaTime\<close>; zero stands for its content.\<close>

definition NewClothingSimulation :: ClothingSimulation where
  "NewClothingSimulation =
     \<lparr>MaxDeltaTime = Finite 1, ClampDeltaTime = Finite 0, DeltaTime = Finite 0, Time = Finite 0\<rparr>"

section \<open>Particles as seen through their handles\<close>

text \<open>
  Modelled from the spec: the particle handle classes are declared in
  \<^verbatim>\<open>Chaos/ParticleHandle.h\<close>, which is not part of the sources at hand. The record holds the
  attributes the spec lists for a particle and the code below reads or writes: the type tag
  that decides the casts \<^verbatim>\<open>AsKinematic\<close>, \<^verbatim>\<open>AsDynamic\<close> and \<^verbatim>\<open>AsClustered\<close>, position
  \<open>X\<close> and rotation \<open>R\<close>, the velocities \<open>V\<close> and \<open>W\<close>, the predicted position \<open>P\<close> and
  rotation \<open>Q\<close> of a rigid particle, its inverse mass, its disabled flag, its object state,
  the index of its handle in the array of handles, and its geometry. The selectors carry
  the prefix \<open>p\<close> where the engine's accessor is a single letter.
\<close>

datatype EParticleType = Static | Kinematic | Dynamic | Clustered

datatype EObjectStateType =
  StateUninitialized | StateSleeping | StateKinematic | StateStatic | StateDynamic

record TBox =
  BoxMin :: FVec3
  BoxMax :: FVec3

record FImplicitObject =
  HasBoundingBox :: bool
  BoundingBox :: TBox
  PhiWithNormal :: "FVec3 \<Rightarrow> real \<times> FVec3"

record TGeometryParticleHandle =
  ParticleType :: EParticleType
  pX :: FVec3
  pR :: FRotation3
  pV :: FVec3
  pW :: FVec3
  pP :: FVec3
  pQ :: FRotation3
  InvM :: real
  Disabled :: bool
  ObjectState :: EObjectStateType
  HandleIdx :: nat
  Geometry :: "FImplicitObject option"

definition AsKinematic :: "TGeometryParticleHandle \<Rightarrow> bool" where
  "AsKinematic p = (ParticleType p \<noteq> Static)"

definition AsDynamic :: "TGeometryParticleHandle \<Rightarrow> bool" where
  "AsDynamic p = (ParticleType p = Dynamic \<or> ParticleType p = Clustered)"

definition AsClustered :: "TGeometryParticleHandle \<Rightarrow> bool" where
  "AsClustered p = (ParticleType p = Clustered)"

definition Sleeping :: "TGeometryParticleHandle \<Rightarrow> bool" where
  "Sleeping p = (ObjectState p = StateSleeping)"

section \<open>Dynamic spring constraints (PBDRigidDynamicSpringConstraints.cpp)\<close>

text \<open>
  The geometry queries the spring code calls (bounding boxes, rigid transforms) belong to the
  engine's geometry library, which is not part of the sources at hand: they are parameters of
  the model, collected in one record. The particles are read through their handles.
\<close>

record FGeometryLibrary =
  TransformedBox :: "TBox \<Rightarrow> FRigidTransform3 \<Rightarrow> TBox"
  Thicken :: "TBox \<Rightarrow> real \<Rightarrow> TBox"
  Intersects :: "TBox \<Rightarrow> TBox \<Rightarrow> bool"
  TransformMul :: "FRigidTransform3 \<Rightarrow> FRigidTransform3 \<Rightarrow> FRigidTransform3"
  TransformInverse :: "FRigidTransform3 \<Rightarrow> FRigidTransform3"
  InverseTransformPosition :: "FRigidTransform3 \<Rightarrow> FVec3 \<Rightarrow> FVec3"
  TransformVector :: "FRigidTransform3 \<Rightarrow> FVec3 \<Rightarrow> FVec3"

text \<open>
  Constraint and spring indices are \<^verbatim>\<open>int32\<close> in the engine; a negative index fails the
  range check like one that is too large, so they are natural numbers here.
\<close>

record TPBDRigidDynamicSpringConstraints =
  Constraints :: "(particle_handle \<times> particle_handle) list"
  Distances :: "(FVec3 \<times> FVec3) list list"
  SpringDistances :: "real list list"
  CreationThreshold :: real
  MaxSprings :: int
  SpringStiffness :: real

text \<open>The rotation and position the spring code uses for a body: \<open>Q\<close>, \<open>P\<close> of a rigid
  particle, \<open>R\<close>, \<open>X\<close> otherwise.\<close>

definition BodyQ :: "TGeometryParticleHandle \<Rightarrow> FRotation3" where
  "BodyQ p = (if AsDynamic p then pQ p else pR p)"

definition BodyP :: "TGeometryParticleHandle \<Rightarrow> FVec3" where
  "BodyP p = (if AsDynamic p then pP p else pX p)"

text \<open>The world-space separation of the two end points of a spring, as the deletion loop
  computes it.\<close>

definition SpringSeparation ::
  "TGeometryParticleHandle \<Rightarrow> TGeometryParticleHandle \<Rightarrow> FVec3 \<times> FVec3 \<Rightarrow> real" where
  "SpringSeparation Static0 Static1 Spring =
     (let WorldSpaceX1 = vadd (RotateVector (BodyQ Static0) (fst Spring)) (BodyP Static0);
          WorldSpaceX2 = vadd (RotateVector (BodyQ Static1) (snd Spring)) (BodyP Static1);
          Difference = vsub WorldSpaceX2 WorldSpaceX1
      in Size Difference)"

text \<open>The deletion loop: the first argument counts down from the number of springs, and the
  spring visited is the one at the index below it.\<close>

fun DeleteSprings ::
  "(FVec3 \<times> FVec3 \<Rightarrow> real) \<Rightarrow> real \<Rightarrow> nat \<Rightarrow> (FVec3 \<times> FVec3) list \<times> real list
     \<Rightarrow> error + ((FVec3 \<times> FVec3) list \<times> real list)" where
  "DeleteSprings separation Threshold 0 springs = Inr springs"
| "DeleteSprings separation Threshold (Suc SpringIndex) (ds, sds) =
     (if SpringIndex < length ds
      then if separation (ds ! SpringIndex) > Threshold * 2
           then (if SpringIndex < length sds
                 then DeleteSprings separation Threshold SpringIndex
                        (RemoveAtSwap SpringIndex ds, RemoveAtSwap SpringIndex sds)
                 else Inl RangeCheckFailed)
           else DeleteSprings separation Threshold SpringIndex (ds, sds)
      else Inl RangeCheckFailed)"

text \<open>The test on the inflated bounding boxes, and the signed distances sampled at the
  midpoint of the two body origins.\<close>

definition BoxesApart ::
  "FGeometryLibrary \<Rightarrow> real \<Rightarrow> TGeometryParticleHandle \<Rightarrow> TGeometryParticleHandle
     \<Rightarrow> FImplicitObject \<Rightarrow> FImplicitObject \<Rightarrow> bool" where
  "BoxesApart lib Threshold Static0 Static1 Geometry0 Geometry1 =
     (let Transform1 = \<lparr>Translation = BodyP Static0, Rotation = BodyQ Static0\<rparr>;
          Transform2 = \<lparr>Translation = BodyP Static1, Rotation = BodyQ Static1\<rparr>
      in HasBoundingBox Geometry0 \<and> HasBoundingBox Geometry1 \<and>
         (let Box1 = Thicken lib
                       (TransformedBox lib (BoundingBox Geometry0)
                          (TransformMul lib Transform1 (TransformInverse lib Transform2)))
                       Threshold;
              Box2 = Thicken lib (BoundingBox Geometry1) Threshold
          in \<not> Intersects lib Box1 Box2))"

definition Midpoint :: "TGeometryParticleHandle \<Rightarrow> TGeometryParticleHandle \<Rightarrow> FVec3" where
  "Midpoint Static0 Static1 = smul (1 / 2) (vadd (BodyP Static0) (BodyP Static1))"

definition Phi1 ::
  "FGeometryLibrary \<Rightarrow> TGeometryParticleHandle \<Rightarrow> TGeometryParticleHandle \<Rightarrow> FImplicitObject
     \<Rightarrow> real \<times> FVec3" where
  "Phi1 lib Static0 Static1 Geometry0 =
     PhiWithNormal Geometry0
       (InverseTransformPosition lib \<lparr>Translation = BodyP Static0, Rotation = BodyQ Static0\<rparr>
          (Midpoint Static0 Static1))"

definition Phi2 ::
  "FGeometryLibrary \<Rightarrow> TGeometryParticleHandle \<Rightarrow> TGeometryParticleHandle \<Rightarrow> FImplicitObject
     \<Rightarrow> real \<times> FVec3" where
  "Phi2 lib Static0 Static1 Geometry1 =
     PhiWithNormal Geometry1
       (InverseTransformPosition lib \<lparr>Translation = BodyP Static1, Rotation = BodyQ Static1\<rparr>
          (Midpoint Static0 Static1))"

text \<open>The spring the creation step adds: its two end points in local coordinates and its
  rest length.\<close>

definition NewSpring ::
  "FGeometryLibrary \<Rightarrow> TGeometryParticleHandle \<Rightarrow> TGeometryParticleHandle
     \<Rightarrow> FImplicitObject \<Rightarrow> FImplicitObject \<Rightarrow> (FVec3 \<times> FVec3) \<times> real" where
  "NewSpring lib Static0 Static1 Geometry0 Geometry1 =
     (let Transform2 = \<lparr>Translation = BodyP Static1, Rotation = BodyQ Static1\<rparr>;
          Normal1 = TransformVector lib Transform2 (snd (Phi1 lib Static0 Static1 Geometry0));
          Normal2 = TransformVector lib Transform2 (snd (Phi2 lib Static0 Static1 Geometry1));
          Location0 = vsub (Midpoint Static0 Static1) (smul (fst (Phi1 lib Static0 Static1 Geometry0)) Normal1);
          Location1 = vsub (Midpoint Static0 Static1) (smul (fst (Phi2 lib Static0 Static1 Geometry1)) Normal2)
      in ((RotateVector (Inverse (BodyQ Static0)) (vsub Location0 (BodyP Static0)),
           RotateVector (Inverse (BodyQ Static0)) (vsub Location1 (BodyP Static1))),
          Size (vsub Location0 Location1)))"

text \<open>
  The body of the loop over the constraints, for the springs \<open>(ds, sds)\<close> of one constraint
  (\<^verbatim>\<open>Distances[ConstraintIndex]\<close> and \<^verbatim>\<open>SpringDistances[ConstraintIndex]\<close>).
\<close>

definition UpdateSprings ::
  "FGeometryLibrary \<Rightarrow> real \<Rightarrow> int \<Rightarrow> TGeometryParticleHandle \<Rightarrow> TGeometryParticleHandle
     \<Rightarrow> (FVec3 \<times> FVec3) list \<times> real list \<Rightarrow> error + ((FVec3 \<times> FVec3) list \<times> real list)" where
  "UpdateSprings lib Threshold MaxSpr Static0 Static1 springs =
     (case (Geometry Static0, Geometry Static1) of
        (Some Geometry0, Some Geometry1) \<Rightarrow>
          (case DeleteSprings (SpringSeparation Static0 Static1) Threshold (length (snd springs)) springs of
             Inl e \<Rightarrow> Inl e
           | Inr (ds, sds) \<Rightarrow>
               if int (length sds) = MaxSpr then Inr (ds, sds)
               else if BoxesApart lib Threshold Static0 Static1 Geometry0 Geometry1 then Inr (ds, sds)
               else if fst (Phi1 lib Static0 Static1 Geometry0) + fst (Phi2 lib Static0 Static1 Geometry1) > Threshold
                    then Inr (ds, sds)
               else Inr (ds @ [fst (NewSpring lib Static0 Static1 Geometry0 Geometry1)],
                         sds @ [snd (NewSpring lib Static0 Static1 Geometry0 Geometry1)]))
      | _ \<Rightarrow> Inr springs)"

definition UpdateConstraint ::
  "FGeometryLibrary \<Rightarrow> (particle_handle \<Rightarrow> TGeometryParticleHandle) \<Rightarrow> nat
     \<Rightarrow> TPBDRigidDynamicSpringConstraints \<Rightarrow> error + TPBDRigidDynamicSpringConstraints" where
  "UpdateConstraint lib particles ConstraintIndex c =
     (if ConstraintIndex < length (Constraints c)
      then
        let Static0 = particles (fst (Constraints c ! ConstraintIndex));
            Static1 = particles (snd (Constraints c ! ConstraintIndex))
        in if Geometry Static0 = None \<or> Geometry Static1 = None then Inr c
           else if ConstraintIndex < length (Distances c) \<and> ConstraintIndex < length (SpringDistances c)
           then (case UpdateSprings lib (CreationThreshold c) (MaxSprings c) Static0 Static1
                        (Distances c ! ConstraintIndex, SpringDistances c ! ConstraintIndex) of
                   Inl e \<Rightarrow> Inl e
                 | Inr (ds, sds) \<Rightarrow>
                     Inr (c\<lparr>Distances := (Distances c)[ConstraintIndex := ds],
                            SpringDistances := (SpringDistances c)[ConstraintIndex := sds]\<rparr>))
           else Inl RangeCheckFailed
      else Inl RangeCheckFailed)"

fun UpdateConstraints ::
  "FGeometryLibrary \<Rightarrow> (particle_handle \<Rightarrow> TGeometryParticleHandle) \<Rightarrow> nat list
     \<Rightarrow> TPBDRigidDynamicSpringConstraints \<Rightarrow> error + TPBDRigidDynamicSpringConstraints" where
  "UpdateConstraints lib particles [] c = Inr c"
| "UpdateConstraints lib particles (ConstraintIndex # rest) c =
     (case UpdateConstraint lib particles ConstraintIndex c of
        Inl e \<Rightarrow> Inl e
      | Inr c' \<Rightarrow> UpdateConstraints lib particles rest c')"

definition UpdatePositionBasedState ::
  "FGeometryLibrary \<Rightarrow> (particle_handle \<Rightarrow> TGeometryParticleHandle)
     \<Rightarrow> TPBDRigidDynamicSpringConstraints \<Rightarrow> error + TPBDRigidDynamicSpringConstraints" where
  "UpdatePositionBasedState lib particles c =
     UpdateConstraints lib particles [0..<length (Constraints c)] c"

subsection \<open>GetDelta\<close>

text \<open>
  \<^verbatim>\<open>check(Distance > 1e-7)\<close> stops the program when it fails. A division by an inverse-mass
  sum of zero gives an infinite or NaN float; it is the outcome \<open>NonFinite\<close>.
\<close>

definition GetDelta ::
  "(particle_handle \<Rightarrow> TGeometryParticleHandle) \<Rightarrow> TPBDRigidDynamicSpringConstraints
     \<Rightarrow> FVec3 \<Rightarrow> FVec3 \<Rightarrow> nat \<Rightarrow> nat \<Rightarrow> error + FVec3" where
  "GetDelta particles c WorldSpaceX1 WorldSpaceX2 ConstraintIndex SpringIndex =
     (if ConstraintIndex < length (Constraints c)
      then
        let PBDRigid0 = particles (fst (Constraints c ! ConstraintIndex));
            PBDRigid1 = particles (snd (Constraints c ! ConstraintIndex))
        in if \<not> AsDynamic PBDRigid0 \<and> \<not> AsDynamic PBDRigid1 then Inr ZeroVector
           else
             let Difference = vsub WorldSpaceX2 WorldSpaceX1;
                 Distance = Size Difference
             in if \<not> Distance > 1 / 10 ^ 7 then Inl CheckFailed
                else
                  let InvM0 = (if AsDynamic PBDRigid0 then InvM PBDRigid0 else 0);
                      InvM1 = (if AsDynamic PBDRigid1 then InvM PBDRigid1 else 0);
                      Direction = smul (1 / Distance) Difference
                  in if ConstraintIndex < length (SpringDistances c)
                        \<and> SpringIndex < length (SpringDistances c ! ConstraintIndex)
                     then
                       let Delta = smul (Distance - SpringDistances c ! ConstraintIndex ! SpringIndex) Direction
                       in if InvM0 + InvM1 = 0 then Inl NonFinite
                          else Inr (smul (1 / (InvM0 + InvM1)) (smul (SpringStiffness c) Delta))
                     else Inl RangeCheckFailed
      else Inl RangeCheckFailed)"

text \<open>Two bodies, the first rigid with unit inverse mass and the second static, joined by one
  spring constraint.\<close>

definition DefaultParticle :: TGeometryParticleHandle where
  "DefaultParticle =
     \<lparr>ParticleType = Static, pX = ZeroVector, pR = FromIdentity, pV = ZeroVector, pW = ZeroVector,
      pP = ZeroVector, pQ = FromIdentity, InvM = 0, Disabled = False,
      ObjectState = StateUninitialized, HandleIdx = 0, Geometry = None\<rparr>"

definition RigidAndStatic :: "particle_handle \<Rightarrow> TGeometryParticleHandle" where
  "RigidAndStatic h =
     (if h = 0 then DefaultParticle\<lparr>ParticleType := Dynamic, InvM := 1, ObjectState := StateDynamic\<rparr>
      else DefaultParticle)"

definition OneSpringConstraint :: TPBDRigidDynamicSpringConstraints where
  "OneSpringConstraint =
     \<lparr>Constraints = [(0, 1)], Distances = [[(ZeroVector, ZeroVector)]], SpringDistances = [[1]],
      CreationThreshold = 1, MaxSprings = 1, SpringStiffness = 1\<rparr>"

subsection \<open>Well-formed spring containers, and the springs of one constraint after a step\<close>

text \<open>
  The container keeps one list of springs and one list of rest lengths per constraint, of
  the same lengths. \<open>SpringsAfter\<close> is what one pass of the loop over the constraints
  leaves for constraint \<open>i\<close>.
\<close>

definition SampleLibrary :: FGeometryLibrary where
  "SampleLibrary =
     \<lparr>TransformedBox = (\<lambda>b t. b), Thicken = (\<lambda>b k. b), Intersects = (\<lambda>a b. True),
      TransformMul = (\<lambda>a b. a), TransformInverse = (\<lambda>t. t),
      InverseTransformPosition = (\<lambda>t v. vsub v (Translation t)), TransformVector = (\<lambda>t v. v)\<rparr>"

definition FlatGeometry :: FImplicitObject where
  "FlatGeometry =
     \<lparr>HasBoundingBox = False, BoundingBox = \<lparr>BoxMin = ZeroVector, BoxMax = ZeroVector\<rparr>,
      PhiWithNormal = (\<lambda>x. (0, FVec3 0 0 1))\<rparr>"

definition TouchingBodies :: "particle_handle \<Rightarrow> TGeometryParticleHandle" where
  "TouchingBodies h = (RigidAndStatic h)\<lparr>Geometry := Some FlatGeometry\<rparr>"

definition StretchedSpring :: TPBDRigidDynamicSpringConstraints where
  "StretchedSpring =
     \<lparr>Constraints = [(0, 1)], Distances = [[(ZeroVector, FVec3 3 0 0)]], SpringDistances = [[1]],
      CreationThreshold = 1, MaxSprings = 1, SpringStiffness = 1\<rparr>"

definition SpringsWellFormed :: "TPBDRigidDynamicSpringConstraints \<Rightarrow> bool" where
  "SpringsWellFormed c =
     (length (Distances c) = length (Constraints c)
      \<and> list_all2 (\<lambda>ds sds. length ds = length sds) (Distances c) (SpringDistances c))"

definition SpringsAfter ::
  "FGeometryLibrary \<Rightarrow> (particle_handle \<Rightarrow> TGeometryParticleHandle)
     \<Rightarrow> TPBDRigidDynamicSpringConstraints \<Rightarrow> nat \<Rightarrow> error + ((FVec3 \<times> FVec3) list \<times> real list)" where
  "SpringsAfter lib particles c i =
     (let Static0 = particles (fst (Constraints c ! i));
          Static1 = particles (snd (Constraints c ! i))
      in if Geometry Static0 = None \<or> Geometry Static1 = None
         then Inr (Distances c ! i, SpringDistances c ! i)
         else UpdateSprings lib (CreationThreshold c) (MaxSprings c) Static0 Static1
                (Distances c ! i, SpringDistances c ! i))"

section \<open>Particle store (PBDRigidsSOAs.h)\<close>

text \<open>
  The store owns eight particle pools (structure-of-arrays), the array of handles, three
  index maps with their arrays, and five views. A pool is modelled by the list of the
  handles of its particles, in the order of their slots. The handle objects live on the
  heap: \<open>Memory\<close> maps the address of a live handle to the handle, and \<open>NextHandle\<close> is the
  first address the allocator has not given out yet.
\<close>

datatype SOA =
    StaticParticles | StaticDisabledParticles | KinematicParticles | KinematicDisabledParticles
  | DynamicParticles | DynamicKinematicParticles | DynamicDisabledParticles | ClusteredParticles

record TPBDRigidsSOAs =
  Particles :: "SOA \<Rightarrow> particle_handle list"
  ActiveParticlesToIndex :: "particle_handle \<rightharpoonup> nat"
  ActiveParticlesArray :: "particle_handle list"
  ActiveClusteredToIndex :: "particle_handle \<rightharpoonup> nat"
  ActiveClusteredArray :: "particle_handle list"
  NonDisabledClusteredToIndex :: "particle_handle \<rightharpoonup> nat"
  NonDisabledClusteredArray :: "particle_handle list"
  NonDisabledView :: "particle_handle list"
  NonDisabledDynamicView :: "particle_handle list"
  ActiveParticlesView :: "particle_handle list"
  AllParticlesView :: "particle_handle list"
  ActiveKinematicParticlesView :: "particle_handle list"
  ParticleHandles :: "particle_handle list"
  Memory :: "particle_handle \<rightharpoonup> TGeometryParticleHandle"
  NextHandle :: nat

record FParticleParameters =
  bDisabled :: bool
  bStartSleeping :: bool

definition DefaultParameters :: FParticleParameters where
  "DefaultParameters = \<lparr>bDisabled = False, bStartSleeping = False\<rparr>"

subsection \<open>Views\<close>

definition UpdateViews :: "TPBDRigidsSOAs \<Rightarrow> TPBDRigidsSOAs" where
  "UpdateViews s =
     s\<lparr>NonDisabledView :=
         Particles s StaticParticles @ Particles s KinematicParticles @ Particles s DynamicParticles
         @ Particles s DynamicKinematicParticles @ NonDisabledClusteredArray s,
       NonDisabledDynamicView := Particles s DynamicParticles @ NonDisabledClusteredArray s,
       ActiveParticlesView := ActiveParticlesArray s,
       AllParticlesView :=
         Particles s StaticParticles @ Particles s StaticDisabledParticles
         @ Particles s KinematicParticles @ Particles s KinematicDisabledParticles
         @ Particles s DynamicParticles @ Particles s DynamicDisabledParticles
         @ Particles s DynamicKinematicParticles @ Particles s ClusteredParticles,
       ActiveKinematicParticlesView :=
         Particles s KinematicParticles @ Particles s DynamicKinematicParticles\<rparr>"

definition GetNonDisabledView :: "TPBDRigidsSOAs \<Rightarrow> particle_handle list" where
  "GetNonDisabledView s = NonDisabledView s"

definition GetNonDisabledDynamicView :: "TPBDRigidsSOAs \<Rightarrow> particle_handle list" where
  "GetNonDisabledDynamicView s = NonDisabledDynamicView s"

definition GetActiveParticlesView :: "TPBDRigidsSOAs \<Rightarrow> particle_handle list" where
  "GetActiveParticlesView s = ActiveParticlesView s"

definition GetAllParticlesView :: "TPBDRigidsSOAs \<Rightarrow> particle_handle list" where
  "GetAllParticlesView s = AllParticlesView s"

definition GetActiveKinematicParticlesView :: "TPBDRigidsSOAs \<Rightarrow> particle_handle list" where
  "GetActiveKinematicParticlesView s = ActiveKinematicParticlesView s"

text \<open>The store as its constructor leaves it.\<close>

definition NewStore :: TPBDRigidsSOAs where
  "NewStore =
     UpdateViews
       \<lparr>Particles = (\<lambda>k. []), ActiveParticlesToIndex = Map.empty, ActiveParticlesArray = [],
        ActiveClusteredToIndex = Map.empty, ActiveClusteredArray = [],
        NonDisabledClusteredToIndex = Map.empty, NonDisabledClusteredArray = [],
        NonDisabledView = [], NonDisabledDynamicView = [], ActiveParticlesView = [],
        AllParticlesView = [], ActiveKinematicParticlesView = [], ParticleHandles = [],
        Memory = Map.empty, NextHandle = 0\<rparr>"

subsection \<open>The index maps\<close>

fun AddAll :: "(particle_handle \<rightharpoonup> nat) \<Rightarrow> nat \<Rightarrow> particle_handle list \<Rightarrow> (particle_handle \<rightharpoonup> nat)" where
  "AddAll ParticleToIndex NextIdx [] = ParticleToIndex"
| "AddAll ParticleToIndex NextIdx (Particle # rest) =
     AddAll (ParticleToIndex(Particle \<mapsto> NextIdx)) (Suc NextIdx) rest"

text \<open>\<open>InsertManyToMapAndArray\<close> is the overload of \<^verbatim>\<open>InsertToMapAndArray\<close> that takes an
  array of particles, \<open>InsertToMapAndArray\<close> the one that takes a single particle.\<close>

definition InsertManyToMapAndArray ::
  "particle_handle list \<Rightarrow> (particle_handle \<rightharpoonup> nat) \<times> particle_handle list
     \<Rightarrow> (particle_handle \<rightharpoonup> nat) \<times> particle_handle list" where
  "InsertManyToMapAndArray ParticlesToInsert ma =
     (AddAll (fst ma) (length (snd ma)) ParticlesToInsert, snd ma @ ParticlesToInsert)"

definition InsertToMapAndArray ::
  "particle_handle \<Rightarrow> (particle_handle \<rightharpoonup> nat) \<times> particle_handle list
     \<Rightarrow> (particle_handle \<rightharpoonup> nat) \<times> particle_handle list" where
  "InsertToMapAndArray Particle ma =
     (if fst ma Particle = None
      then ((fst ma)(Particle \<mapsto> length (snd ma)), snd ma @ [Particle])
      else ma)"

definition RemoveFromMapAndArray ::
  "particle_handle \<Rightarrow> (particle_handle \<rightharpoonup> nat) \<times> particle_handle list
     \<Rightarrow> error + ((particle_handle \<rightharpoonup> nat) \<times> particle_handle list)" where
  "RemoveFromMapAndArray Particle ma =
     (case fst ma Particle of
        None \<Rightarrow> Inr ma
      | Some Idx \<Rightarrow>
          if Idx < length (snd ma)
          then let ParticleArray = RemoveAtSwap Idx (snd ma);
                   ParticleToIndex =
                     (if Idx < length ParticleArray then (fst ma)(ParticleArray ! Idx \<mapsto> Idx) else fst ma)
               in Inr (ParticleToIndex(Particle := None), ParticleArray)
          else Inl RangeCheckFailed)"

subsection \<open>Handles and pools\<close>

text \<open>
  Modelled from the spec: \<^verbatim>\<open>CreateParticleHandle\<close>, \<^verbatim>\<open>MoveToSOA\<close> and \<^verbatim>\<open>DestroyHandleSwap\<close>
  are declared in \<^verbatim>\<open>Chaos/ParticleHandle.h\<close>, which is not part of the sources at hand.
  \<^verbatim>\<open>CreateParticlesHelper\<close> calls \<^verbatim>\<open>CreateParticleHandle\<close> with the pool, the slot and the index
  of the handle, and not with the creation parameters. By the spec a new particle has
  default-initialized state: it is not disabled, it is at rest, and a rigid particle is in
  the object state \<open>Dynamic\<close>. Moving a particle to a pool relocates its slot and keeps its
  handle; destroying a handle removes its slot from its pool and removes the handle from the
  array of handles by swap-with-last, the handle swapped into the gap recording its new
  index. The clustered pool keeps the order of its particles on removal
  (\<^verbatim>\<open>ERemoveParticleBehavior::Remove\<close>), the other pools swap with the last slot.
\<close>

definition CreateParticleHandle :: "EParticleType \<Rightarrow> nat \<Rightarrow> TGeometryParticleHandle" where
  "CreateParticleHandle ParticleKind HandleIndex =
     DefaultParticle
       \<lparr>ParticleType := ParticleKind,
        ObjectState :=
          (if ParticleKind = Dynamic \<or> ParticleKind = Clustered then StateDynamic
           else StateUninitialized),
        HandleIdx := HandleIndex\<rparr>"

fun IndexOf :: "particle_handle \<Rightarrow> particle_handle list \<Rightarrow> nat" where
  "IndexOf h [] = 0"
| "IndexOf h (x # xs) = (if x = h then 0 else Suc (IndexOf h xs))"

definition RemoveFromPool :: "SOA \<Rightarrow> particle_handle \<Rightarrow> particle_handle list \<Rightarrow> particle_handle list" where
  "RemoveFromPool k h pool =
     (if h \<in> set pool
      then (if k = ClusteredParticles then remove1 h pool else RemoveAtSwap (IndexOf h pool) pool)
      else pool)"

definition MoveToSOA :: "SOA \<Rightarrow> particle_handle \<Rightarrow> TPBDRigidsSOAs \<Rightarrow> TPBDRigidsSOAs" where
  "MoveToSOA ToSOA h s =
     (if h \<in> set (Particles s ToSOA) then s
      else s\<lparr>Particles :=
               (\<lambda>k. if k = ToSOA then Particles s k @ [h] else RemoveFromPool k h (Particles s k))\<rparr>)"

definition DestroyHandleSwap :: "particle_handle \<Rightarrow> TPBDRigidsSOAs \<Rightarrow> error + TPBDRigidsSOAs" where
  "DestroyHandleSwap h s =
     (case Memory s h of
        None \<Rightarrow> Inl InvalidHandle
      | Some Particle \<Rightarrow>
          if HandleIdx Particle < length (ParticleHandles s)
          then let Handles = RemoveAtSwap (HandleIdx Particle) (ParticleHandles s);
                   Freed = (Memory s)(h := None);
                   Rewired =
                     (if HandleIdx Particle < length Handles
                      then (case Freed (Handles ! HandleIdx Particle) of
                              None \<Rightarrow> Freed
                            | Some Moved \<Rightarrow>
                                Freed(Handles ! HandleIdx Particle \<mapsto> Moved\<lparr>HandleIdx := HandleIdx Particle\<rparr>))
                      else Freed)
               in Inr (s\<lparr>ParticleHandles := Handles, Memory := Rewired,
                         Particles := (\<lambda>k. RemoveFromPool k h (Particles s k))\<rparr>)
          else Inl RangeCheckFailed)"

text \<open>\<^verbatim>\<open>CreateParticlesHelper\<close>: the new particles take the next slots of the pool, the new
  handles the next slots of the array of handles; the handles returned are fresh addresses.
  The function takes the creation parameters and does not use them.\<close>

definition CreateParticlesHelper ::
  "EParticleType \<Rightarrow> nat \<Rightarrow> SOA \<Rightarrow> FParticleParameters \<Rightarrow> TPBDRigidsSOAs
     \<Rightarrow> particle_handle list \<times> TPBDRigidsSOAs" where
  "CreateParticlesHelper ParticleKind NumParticles Pool Params s =
     (let HandlesStartIdx = length (ParticleHandles s);
          ReturnHandles = [NextHandle s ..< NextHandle s + NumParticles]
      in (ReturnHandles,
          s\<lparr>Particles := (Particles s)(Pool := Particles s Pool @ ReturnHandles),
            ParticleHandles := ParticleHandles s @ ReturnHandles,
            Memory :=
              (\<lambda>h. if NextHandle s \<le> h \<and> h < NextHandle s + NumParticles
                    then Some (CreateParticleHandle ParticleKind (h - NextHandle s + HandlesStartIdx))
                    else Memory s h),
            NextHandle := NextHandle s + NumParticles\<rparr>))"

subsection \<open>The three index maps of the store\<close>

definition then_do :: "error + 'a \<Rightarrow> ('a \<Rightarrow> error + 'b) \<Rightarrow> error + 'b" where
  "then_do r f = (case r of Inl e \<Rightarrow> Inl e | Inr x \<Rightarrow> f x)"

definition InsertActive :: "particle_handle \<Rightarrow> TPBDRigidsSOAs \<Rightarrow> TPBDRigidsSOAs" where
  "InsertActive h s =
     (let ma = InsertToMapAndArray h (ActiveParticlesToIndex s, ActiveParticlesArray s)
      in s\<lparr>ActiveParticlesToIndex := fst ma, ActiveParticlesArray := snd ma\<rparr>)"

definition InsertActiveClustered :: "particle_handle \<Rightarrow> TPBDRigidsSOAs \<Rightarrow> TPBDRigidsSOAs" where
  "InsertActiveClustered h s =
     (let ma = InsertToMapAndArray h (ActiveClusteredToIndex s, ActiveClusteredArray s)
      in s\<lparr>ActiveClusteredToIndex := fst ma, ActiveClusteredArray := snd ma\<rparr>)"

definition InsertNonDisabledClustered :: "particle_handle \<Rightarrow> TPBDRigidsSOAs \<Rightarrow> TPBDRigidsSOAs" where
  "InsertNonDisabledClustered h s =
     (let ma = InsertToMapAndArray h (NonDisabledClusteredToIndex s, NonDisabledClusteredArray s)
      in s\<lparr>NonDisabledClusteredToIndex := fst ma, NonDisabledClusteredArray := snd ma\<rparr>)"

definition InsertManyActive :: "particle_handle list \<Rightarrow> TPBDRigidsSOAs \<Rightarrow> TPBDRigidsSOAs" where
  "InsertManyActive hs s =
     (let ma = InsertManyToMapAndArray hs (ActiveParticlesToIndex s, ActiveParticlesArray s)
      in s\<lparr>ActiveParticlesToIndex := fst ma, ActiveParticlesArray := snd ma\<rparr>)"

definition InsertManyActiveClustered :: "particle_handle list \<Rightarrow> TPBDRigidsSOAs \<Rightarrow> TPBDRigidsSOAs" where
  "InsertManyActiveClustered hs s =
     (let ma = InsertManyToMapAndArray hs (ActiveClusteredToIndex s, ActiveClusteredArray s)
      in s\<lparr>ActiveClusteredToIndex := fst ma, ActiveClusteredArray := snd ma\<rparr>)"

definition InsertManyNonDisabledClustered :: "particle_handle list \<Rightarrow> TPBDRigidsSOAs \<Rightarrow> TPBDRigidsSOAs" where
  "InsertManyNonDisabledClustered hs s =
     (let ma = InsertManyToMapAndArray hs (NonDisabledClusteredToIndex s, NonDisabledClusteredArray s)
      in s\<lparr>NonDisabledClusteredToIndex := fst ma, NonDisabledClusteredArray := snd ma\<rparr>)"

definition RemoveActive :: "particle_handle \<Rightarrow> TPBDRigidsSOAs \<Rightarrow> error + TPBDRigidsSOAs" where
  "RemoveActive h s =
     then_do (RemoveFromMapAndArray h (ActiveParticlesToIndex s, ActiveParticlesArray s))
       (\<lambda>ma. Inr (s\<lparr>ActiveParticlesToIndex := fst ma, ActiveParticlesArray := snd ma\<rparr>))"

definition RemoveActiveClustered :: "particle_handle \<Rightarrow> TPBDRigidsSOAs \<Rightarrow> error + TPBDRigidsSOAs" where
  "RemoveActiveClustered h s =
     then_do (RemoveFromMapAndArray h (ActiveClusteredToIndex s, ActiveClusteredArray s))
       (\<lambda>ma. Inr (s\<lparr>ActiveClusteredToIndex := fst ma, ActiveClusteredArray := snd ma\<rparr>))"

definition RemoveNonDisabledClustered :: "particle_handle \<Rightarrow> TPBDRigidsSOAs \<Rightarrow> error + TPBDRigidsSOAs" where
  "RemoveNonDisabledClustered h s =
     then_do (RemoveFromMapAndArray h (NonDisabledClusteredToIndex s, NonDisabledClusteredArray s))
       (\<lambda>ma. Inr (s\<lparr>NonDisabledClusteredToIndex := fst ma, NonDisabledClusteredArray := snd ma\<rparr>))"

subsection \<open>Creating and destroying particles\<close>

definition CreateStaticParticles ::
  "nat \<Rightarrow> FParticleParameters \<Rightarrow> TPBDRigidsSOAs \<Rightarrow> particle_handle list \<times> TPBDRigidsSOAs" where
  "CreateStaticParticles NumParticles Params s =
     (let Created = CreateParticlesHelper Static NumParticles
                      (if bDisabled Params then StaticDisabledParticles else StaticParticles) Params s
      in (fst Created, UpdateViews (snd Created)))"

definition CreateKinematicParticles ::
  "nat \<Rightarrow> FParticleParameters \<Rightarrow> TPBDRigidsSOAs \<Rightarrow> particle_handle list \<times> TPBDRigidsSOAs" where
  "CreateKinematicParticles NumParticles Params s =
     (let Created = CreateParticlesHelper Kinematic NumParticles
                      (if bDisabled Params then KinematicDisabledParticles else KinematicParticles) Params s
      in (fst Created, UpdateViews (snd Created)))"

definition CreateDynamicParticles ::
  "nat \<Rightarrow> FParticleParameters \<Rightarrow> TPBDRigidsSOAs \<Rightarrow> particle_handle list \<times> TPBDRigidsSOAs" where
  "CreateDynamicParticles NumParticles Params s =
     (let Created = CreateParticlesHelper Dynamic NumParticles
                      (if bDisabled Params then DynamicDisabledParticles else DynamicParticles) Params s;
          Results = fst Created;
          s1 = (if \<not> bStartSleeping Params then InsertManyActive Results (snd Created) else snd Created)
      in (Results, UpdateViews s1))"

definition CreateClusteredParticles ::
  "nat \<Rightarrow> FParticleParameters \<Rightarrow> TPBDRigidsSOAs \<Rightarrow> particle_handle list \<times> TPBDRigidsSOAs" where
  "CreateClusteredParticles NumParticles Params s =
     (let Created = CreateParticlesHelper Clustered NumParticles ClusteredParticles Params s;
          NewClustered = fst Created;
          s1 = (if \<not> bDisabled Params then InsertManyNonDisabledClustered NewClustered (snd Created)
                else snd Created);
          s2 = (if \<not> bStartSleeping Params
                then InsertManyActiveClustered NewClustered (InsertManyActive NewClustered s1)
                else s1)
      in (NewClustered, UpdateViews s2))"

text \<open>An operation on a handle that is not live dereferences a dangling pointer; it is the
  error \<open>InvalidHandle\<close>.\<close>

definition DestroyParticle :: "particle_handle \<Rightarrow> TPBDRigidsSOAs \<Rightarrow> error + TPBDRigidsSOAs" where
  "DestroyParticle h s =
     (case Memory s h of
        None \<Rightarrow> Inl InvalidHandle
      | Some Particle \<Rightarrow>
          if AsClustered Particle then Inl CheckFailed
          else
            then_do (if AsDynamic Particle then RemoveActive h s else Inr s)
              (\<lambda>s1. then_do (DestroyHandleSwap h s1) (\<lambda>s2. Inr (UpdateViews s2))))"

subsection \<open>Enabling, disabling, waking and putting to sleep\<close>

definition SetDynamicParticleSOA :: "particle_handle \<Rightarrow> TPBDRigidsSOAs \<Rightarrow> error + TPBDRigidsSOAs" where
  "SetDynamicParticleSOA h s =
     (case Memory s h of
        None \<Rightarrow> Inl InvalidHandle
      | Some Particle \<Rightarrow>
          if \<not> AsDynamic Particle then Inl InvalidHandle
          else Inr (UpdateViews
                 (case ObjectState Particle of
                    StateKinematic \<Rightarrow> MoveToSOA DynamicKinematicParticles h s
                  | StateDynamic \<Rightarrow> MoveToSOA DynamicParticles h s
                  | _ \<Rightarrow> MoveToSOA DynamicParticles h s)))"

text \<open>A write through the handle \<open>h\<close>.\<close>

definition WriteParticle :: "particle_handle \<Rightarrow> TGeometryParticleHandle \<Rightarrow> TPBDRigidsSOAs \<Rightarrow> TPBDRigidsSOAs" where
  "WriteParticle h Particle s = s\<lparr>Memory := (Memory s)(h \<mapsto> Particle)\<rparr>"

definition DisableParticle :: "particle_handle \<Rightarrow> TPBDRigidsSOAs \<Rightarrow> error + TPBDRigidsSOAs" where
  "DisableParticle h s =
     (case Memory s h of
        None \<Rightarrow> Inl InvalidHandle
      | Some Particle \<Rightarrow>
          if AsDynamic Particle
          then
            then_do
              (if AsClustered Particle
               then then_do
                      (RemoveNonDisabledClustered h
                         (WriteParticle h (Particle\<lparr>Disabled := True, pV := ZeroVector, pW := ZeroVector\<rparr>) s))
                      (RemoveActiveClustered h)
               else Inr (MoveToSOA DynamicDisabledParticles h
                           (WriteParticle h (Particle\<lparr>Disabled := True, pV := ZeroVector, pW := ZeroVector\<rparr>) s)))
              (\<lambda>s2. then_do (RemoveActive h s2) (\<lambda>s3. Inr (UpdateViews s3)))
          else if AsKinematic Particle
          then Inr (UpdateViews (MoveToSOA KinematicDisabledParticles h s))
          else Inr (UpdateViews (MoveToSOA StaticDisabledParticles h s)))"

definition EnableParticle :: "particle_handle \<Rightarrow> TPBDRigidsSOAs \<Rightarrow> error + TPBDRigidsSOAs" where
  "EnableParticle h s =
     (case Memory s h of
        None \<Rightarrow> Inl InvalidHandle
      | Some Particle \<Rightarrow>
          if AsDynamic Particle
          then
            then_do
              (if AsClustered Particle
               then Inr (if \<not> Sleeping Particle
                         then InsertActiveClustered h (InsertNonDisabledClustered h s)
                         else InsertNonDisabledClustered h s)
               else SetDynamicParticleSOA h s)
              (\<lambda>s2. Inr (UpdateViews
                           (WriteParticle h (Particle\<lparr>Disabled := False\<rparr>)
                              (if \<not> Sleeping Particle then InsertActive h s2 else s2))))
          else if AsKinematic Particle
          then Inr (UpdateViews (MoveToSOA KinematicParticles h s))
          else Inr (UpdateViews (MoveToSOA StaticParticles h s)))"

definition ActivateParticle :: "particle_handle \<Rightarrow> TPBDRigidsSOAs \<Rightarrow> error + TPBDRigidsSOAs" where
  "ActivateParticle h s =
     (case Memory s h of
        None \<Rightarrow> Inl InvalidHandle
      | Some Particle \<Rightarrow>
          if AsDynamic Particle
          then (if Disabled Particle then Inl CheckFailed
                else Inr (UpdateViews
                            (InsertActive h (if AsClustered Particle then InsertActiveClustered h s else s))))
          else Inr (UpdateViews s))"

definition DeactivateParticle :: "particle_handle \<Rightarrow> TPBDRigidsSOAs \<Rightarrow> error + TPBDRigidsSOAs" where
  "DeactivateParticle h s =
     (case Memory s h of
        None \<Rightarrow> Inl InvalidHandle
      | Some Particle \<Rightarrow>
          if AsDynamic Particle
          then (if Disabled Particle then Inl CheckFailed
                else then_do (if AsClustered Particle then RemoveActiveClustered h s else Inr s)
                       (\<lambda>s1. then_do (RemoveActive h s1) (\<lambda>s2. Inr (UpdateViews s2))))
          else Inr (UpdateViews s))"

fun DeactivateParticles :: "particle_handle list \<Rightarrow> TPBDRigidsSOAs \<Rightarrow> error + TPBDRigidsSOAs" where
  "DeactivateParticles [] s = Inr s"
| "DeactivateParticles (h # rest) s = then_do (DeactivateParticle h s) (DeactivateParticles rest)"

text \<open>The body of \<^verbatim>\<open>Reset\<close> is \<^verbatim>\<open>check(0)\<close>.\<close>

definition Reset :: "TPBDRigidsSOAs \<Rightarrow> error + TPBDRigidsSOAs" where
  "Reset s = Inl CheckFailed"

subsection \<open>Sequences of store operations\<close>

datatype store_op =
    OpCreateStatic nat FParticleParameters
  | OpCreateKinematic nat FParticleParameters
  | OpCreateDynamic nat FParticleParameters
  | OpCreateClustered nat FParticleParameters
  | OpDestroy particle_handle
  | OpDisable particle_handle
  | OpEnable particle_handle
  | OpActivate particle_handle
  | OpDeactivate particle_handle
  | OpDeactivateMany "particle_handle list"
  | OpSetDynamicSOA particle_handle
  | OpReset

fun ApplyOp :: "store_op \<Rightarrow> TPBDRigidsSOAs \<Rightarrow> error + TPBDRigidsSOAs" where
  "ApplyOp (OpCreateStatic n Params) s = Inr (snd (CreateStaticParticles n Params s))"
| "ApplyOp (OpCreateKinematic n Params) s = Inr (snd (CreateKinematicParticles n Params s))"
| "ApplyOp (OpCreateDynamic n Params) s = Inr (snd (CreateDynamicParticles n Params s))"
| "ApplyOp (OpCreateClustered n Params) s = Inr (snd (CreateClusteredParticles n Params s))"
| "ApplyOp (OpDestroy h) s = DestroyParticle h s"
| "ApplyOp (OpDisable h) s = DisableParticle h s"
| "ApplyOp (OpEnable h) s = EnableParticle h s"
| "ApplyOp (OpActivate h) s = ActivateParticle h s"
| "ApplyOp (OpDeactivate h) s = DeactivateParticle h s"
| "ApplyOp (OpDeactivateMany hs) s = DeactivateParticles hs s"
| "ApplyOp (OpSetDynamicSOA h) s = SetDynamicParticleSOA h s"
| "ApplyOp OpReset s = Reset s"

fun RunOps :: "store_op list \<Rightarrow> TPBDRigidsSOAs \<Rightarrow> error + TPBDRigidsSOAs" where
  "RunOps [] s = Inr s"
| "RunOps (op # ops) s = then_do (ApplyOp op s) (RunOps ops)"

subsection \<open>Invariants of the store\<close>

text \<open>Every disabled rigid particle is at rest.\<close>

definition DisabledAtRest :: "TPBDRigidsSOAs \<Rightarrow> bool" where
  "DisabledAtRest s =
     (\<forall>h p. Memory s h = Some p \<and> AsDynamic p \<and> Disabled p \<longrightarrow> pV p = ZeroVector \<and> pW p = ZeroVector)"

text \<open>An index map and its array agree: the array has no duplicates, and the map sends
  exactly the particles of the array to their positions.\<close>

definition MapArrayOk :: "(particle_handle \<rightharpoonup> nat) \<Rightarrow> particle_handle list \<Rightarrow> bool" where
  "MapArrayOk ParticleToIndex ParticleArray =
     (distinct ParticleArray
      \<and> (\<forall>h i. ParticleToIndex h = Some i \<longleftrightarrow> i < length ParticleArray \<and> ParticleArray ! i = h))"

definition IndexMapsOk :: "TPBDRigidsSOAs \<Rightarrow> bool" where
  "IndexMapsOk s =
     (MapArrayOk (ActiveParticlesToIndex s) (ActiveParticlesArray s)
      \<and> MapArrayOk (ActiveClusteredToIndex s) (ActiveClusteredArray s)
      \<and> MapArrayOk (NonDisabledClusteredToIndex s) (NonDisabledClusteredArray s))"

text \<open>The array of handles holds every live handle once, at the index the handle records.\<close>

definition HandlesOk :: "TPBDRigidsSOAs \<Rightarrow> bool" where
  "HandlesOk s =
     (distinct (ParticleHandles s)
      \<and> (\<forall>h p. Memory s h = Some p \<longrightarrow>
             HandleIdx p < length (ParticleHandles s) \<and> ParticleHandles s ! HandleIdx p = h)
      \<and> (\<forall>h \<in> set (ParticleHandles s). Memory s h \<noteq> None))"

text \<open>
  The invariant of the stores that are reached from a new store. A handle is live and rigid,
  or live and clustered, by what \<open>Memory\<close> holds for it. The pools have no duplicates and
  hold live handles only; the active-particle array holds rigid particles only and the two
  clustered arrays clustered particles only; and every live handle is an address the
  allocator has given out. \<open>StoreOk\<close> adds the consistency of the index maps and of the
  array of handles.
\<close>

definition LiveDynamic :: "TPBDRigidsSOAs \<Rightarrow> particle_handle \<Rightarrow> bool" where
  "LiveDynamic s h = (case Memory s h of None \<Rightarrow> False | Some p \<Rightarrow> AsDynamic p)"

definition LiveClustered :: "TPBDRigidsSOAs \<Rightarrow> particle_handle \<Rightarrow> bool" where
  "LiveClustered s h = (case Memory s h of None \<Rightarrow> False | Some p \<Rightarrow> AsClustered p)"

definition PoolsOk :: "TPBDRigidsSOAs \<Rightarrow> bool" where
  "PoolsOk s = (\<forall>k. distinct (Particles s k) \<and> (\<forall>h \<in> set (Particles s k). Memory s h \<noteq> None))"

definition ArraysTyped :: "TPBDRigidsSOAs \<Rightarrow> bool" where
  "ArraysTyped s =
     ((\<forall>h \<in> set (ActiveParticlesArray s). LiveDynamic s h)
      \<and> (\<forall>h \<in> set (ActiveClusteredArray s). LiveClustered s h)
      \<and> (\<forall>h \<in> set (NonDisabledClusteredArray s). LiveClustered s h))"

definition HandlesFresh :: "TPBDRigidsSOAs \<Rightarrow> bool" where
  "HandlesFresh s = (\<forall>h. Memory s h \<noteq> None \<longrightarrow> h < NextHandle s)"

definition StoreOk :: "TPBDRigidsSOAs \<Rightarrow> bool" where
  "StoreOk s = (IndexMapsOk s \<and> HandlesOk s \<and> PoolsOk s \<and> ArraysTyped s \<and> HandlesFresh s)"

text \<open>
  The five views are current when they are the lists that \<^verbatim>\<open>UpdateViews\<close> builds from the
  pools and arrays of the store; a particle is in some view when one of the five contains it.
\<close>

definition ViewsCurrent :: "TPBDRigidsSOAs \<Rightarrow> bool" where
  "ViewsCurrent s =
     (GetNonDisabledView s =
        Particles s StaticParticles @ Particles s KinematicParticles @ Particles s DynamicParticles
        @ Particles s DynamicKinematicParticles @ NonDisabledClusteredArray s
      \<and> GetNonDisabledDynamicView s = Particles s DynamicParticles @ NonDisabledClusteredArray s
      \<and> GetActiveParticlesView s = ActiveParticlesArray s
      \<and> GetAllParticlesView s =
          Particles s StaticParticles @ Particles s StaticDisabledParticles
          @ Particles s KinematicParticles @ Particles s KinematicDisabledParticles
          @ Particles s DynamicParticles @ Particles s DynamicDisabledParticles
          @ Particles s DynamicKinematicParticles @ Particles s ClusteredParticles
      \<and> GetActiveKinematicParticlesView s =
          Particles s KinematicParticles @ Particles s DynamicKinematicParticles)"

definition InSomeView :: "particle_handle \<Rightarrow> TPBDRigidsSOAs \<Rightarrow> bool" where
  "InSomeView h s =
     (h \<in> set (GetNonDisabledView s) \<or> h \<in> set (GetNonDisabledDynamicView s)
      \<or> h \<in> set (GetActiveParticlesView s) \<or> h \<in> set (GetAllParticlesView s)
      \<or> h \<in> set (GetActiveKinematicParticlesView s))"

subsection \<open>Concrete stores\<close>

text \<open>The condition of the rest invariant on one particle; a store with two dynamic
  particles; the creation parameters "disabled, not sleeping"; a store with one clustered
  particle.\<close>

definition rest_ok :: "TGeometryParticleHandle \<Rightarrow> bool" where
  "rest_ok p = (AsDynamic p \<and> Disabled p \<longrightarrow> pV p = ZeroVector \<and> pW p = ZeroVector)"

definition TwoDynamic :: TPBDRigidsSOAs where
  "TwoDynamic = snd (CreateDynamicParticles 2 DefaultParameters NewStore)"

definition DisabledAwake :: FParticleParameters where
  "DisabledAwake = \<lparr>bDisabled = True, bStartSleeping = False\<rparr>"

definition OneClustered :: TPBDRigidsSOAs where
  "OneClustered = snd (CreateClusteredParticles 1 DefaultParameters NewStore)"

text \<open>
  A store with one dynamic particle; the store that \<^verbatim>\<open>CreateDynamicParticles\<close> leaves when it
  is asked for one disabled particle that does not start asleep; a dynamic particle that
  moves, and the store with two dynamic particles after the caller has set the first in
  motion through its handle.
\<close>

definition OneDynamic :: TPBDRigidsSOAs where
  "OneDynamic = snd (CreateDynamicParticles 1 DefaultParameters NewStore)"

definition DisabledAtCreation :: TPBDRigidsSOAs where
  "DisabledAtCreation = snd (CreateDynamicParticles 1 DisabledAwake NewStore)"

definition MovingParticle :: TGeometryParticleHandle where
  "MovingParticle = (CreateParticleHandle Dynamic 0)\<lparr>pV := FVec3 1 2 3, pW := FVec3 0 0 1\<rparr>"

definition MovingPair :: TPBDRigidsSOAs where
  "MovingPair = WriteParticle 0 MovingParticle TwoDynamic"

section \<open>Properties of the joint constraint container\<close>

lemma mset_insert_by: "mset (insert_by before x xs) = add_mset x (mset xs)"
  by (induction xs) auto

lemma mset_Sort: "mset (Sort before xs) = mset xs"
  by (induction xs) (auto simp: mset_insert_by)

lemma set_insert_by: "set (insert_by before x xs) = insert x (set xs)"
  by (induction xs) auto

lemma set_Sort: "set (Sort before xs) = set xs"
  by (induction xs) (auto simp: set_insert_by)

lemma insert_by_desc:
  "sorted_wrt (\<lambda>a b. key a \<ge> key b) xs \<Longrightarrow>
   sorted_wrt (\<lambda>a b. (key a :: int) \<ge> key b) (insert_by (\<lambda>L R. key L > key R) x xs)"
  by (induction xs) (auto simp: set_insert_by)

lemma Sort_desc: "sorted_wrt (\<lambda>a b. (key a :: int) \<ge> key b) (Sort (\<lambda>L R. key L > key R) xs)"
  by (induction xs) (auto simp: insert_by_desc)

lemma insert_by_asc:
  "sorted_wrt (\<lambda>a b. key a \<le> key b) xs \<Longrightarrow>
   sorted_wrt (\<lambda>a b. (key a :: int) \<le> key b) (insert_by (\<lambda>L R. key L < key R) x xs)"
  by (induction xs) (auto simp: set_insert_by)

lemma Sort_asc: "sorted_wrt (\<lambda>a b. (key a :: int) \<le> key b) (Sort (\<lambda>L R. key L < key R) xs)"
  by (induction xs) (auto simp: insert_by_asc)

lemma length_Sort: "length (Sort before xs) = length xs"
  by (metis mset_Sort size_mset)

lemma solved_SolvePosition: "solved (map (\<lambda>h. SolvePosition Dt h n It NumIts) hs) = hs"
  by (induction hs) (auto simp: solved_def)

lemma solved_Solve:
  "solved (map (\<lambda>h. if b then SolveVelocity Dt h n It NumIts else SolvePosition Dt h n It NumIts) hs) = hs"
  by (induction hs) (auto simp: solved_def)

lemma solved_ProjectPosition: "solved (map (\<lambda>h. ProjectPosition Dt h a b) hs) = []"
  by (induction hs) (auto simp: solved_def)

lemma projected_ProjectPosition: "projected (map (\<lambda>h. ProjectPosition Dt h a b) hs) = hs"
  by (induction hs) (auto simp: projected_def)

lemma projected_SolvePosition: "projected (map (\<lambda>h. SolvePosition Dt h n It NumIts) hs) = []"
  by (induction hs) (auto simp: projected_def)

lemma projected_Solve:
  "projected (map (\<lambda>h. if b then SolveVelocity Dt h n It NumIts else SolvePosition Dt h n It NumIts) hs) = []"
  by (induction hs) (auto simp: projected_def)

lemma solved_append: "solved (xs @ ys) = solved xs @ solved ys"
  by (simp add: solved_def)

lemma projected_append: "projected (xs @ ys) = projected xs @ projected ys"
  by (simp add: projected_def)

lemma solved_callbacks:
  "solved (if b then [PreApply Dt hs] else []) = []"
  "solved (if b then [PostApply Dt hs] else []) = []"
  by (simp_all add: solved_def)

lemma projected_callbacks:
  "projected (if b then [PreApply Dt hs] else []) = []"
  "projected (if b then [PostApply Dt hs] else []) = []"
  by (simp_all add: projected_def)

lemma solved_Nil: "solved [] = []"
  by (simp add: solved_def)

lemma projected_Nil: "projected [] = []"
  by (simp add: projected_def)

lemmas trace_simps =
  solved_Nil projected_Nil solved_append projected_append solved_callbacks projected_callbacks solved_Solve
  solved_SolvePosition solved_ProjectPosition projected_ProjectPosition projected_SolvePosition
  projected_Solve

lemma Apply_solved:
  assumes "valid_handles c hs"
  shows "\<exists>tr. Apply c Dt hs It NumIts = Inr tr \<and> solved tr = SortLeafToRoot c hs"
  using assms by (simp add: Apply_def ApplyProjection_def Let_def trace_simps)

lemma ApplyPushOut_solved:
  assumes "valid_handles c hs"
  shows "\<exists>tr. ApplyPushOut c Dt hs It NumIts = Inr (True, tr) \<and>
           solved tr = (if ApplyPushOutPairIterations (Settings c) > 0 then SortRootToLeaf c hs else [])"
  using assms by (simp add: ApplyPushOut_def ApplyProjection_def Let_def trace_simps)

lemma ApplyProjection_projected:
  assumes "valid_handles c hs"
  shows "\<exists>tr. ApplyProjection c Dt hs = Inr tr \<and> projected tr = SortRootToLeaf c hs"
  using assms by (simp add: ApplyProjection_def trace_simps)

lemma Apply_projected:
  assumes "valid_handles c hs"
  shows "\<exists>tr. Apply c Dt hs It NumIts = Inr tr \<and>
           projected tr = (if ProjectionPhase (Settings c) = PhaseApply \<and> It = NumIts - 1
                           then SortRootToLeaf c hs else [])"
  using assms by (simp add: Apply_def ApplyProjection_def Let_def trace_simps)

lemma ApplyPushOut_projected:
  assumes "valid_handles c hs"
  shows "\<exists>tr. ApplyPushOut c Dt hs It NumIts = Inr (True, tr) \<and>
           projected tr =
             (if ProjectionPhase (Settings c) = PhaseApplyPushOut
                 \<and> It = (if ApplyPushOutPairIterations (Settings c) > 0 then NumIts - 1 else 0)
              then SortRootToLeaf c hs else [])"
  using assms by (simp add: ApplyPushOut_def ApplyProjection_def Let_def trace_simps)

lemma SortLeafToRoot_sorted:
  "sorted_wrt (\<lambda>a b. GetConstraintLevel c a \<ge> GetConstraintLevel c b) (SortLeafToRoot c hs)"
  unfolding SortLeafToRoot_def by (rule Sort_desc)

lemma SortRootToLeaf_sorted:
  "sorted_wrt (\<lambda>a b. GetConstraintLevel c a \<le> GetConstraintLevel c b) (SortRootToLeaf c hs)"
  unfolding SortRootToLeaf_def by (rule Sort_asc)

text \<open>
  C3. For every list of valid constraint handles: the constraints \<open>Apply\<close> solves are the
  given ones, ordered so that a constraint never comes after one of lower level (descending
  level, leaf to root); the constraints \<open>ApplyPushOut\<close> solves and the constraints
  \<open>ApplyProjection\<close> projects are ordered so that a constraint never comes after one of higher
  level (ascending level, root to leaf). \<open>ApplyProjection\<close> handles all the given constraints,
  \<open>ApplyPushOut\<close> all of them when its pair-iteration count is positive and none otherwise.
\<close>

theorem joint_passes_ordered_by_level:
  assumes "valid_handles c hs"
  shows "(\<exists>tr. Apply c Dt hs It NumIts = Inr tr \<and> mset (solved tr) = mset hs
            \<and> sorted_wrt (\<lambda>a b. GetConstraintLevel c a \<ge> GetConstraintLevel c b) (solved tr))
       \<and> (\<exists>tr. ApplyPushOut c Dt hs It NumIts = Inr (True, tr)
            \<and> mset (solved tr) = (if ApplyPushOutPairIterations (Settings c) > 0 then mset hs else {#})
            \<and> sorted_wrt (\<lambda>a b. GetConstraintLevel c a \<le> GetConstraintLevel c b) (solved tr))
       \<and> (\<exists>tr. ApplyProjection c Dt hs = Inr tr \<and> mset (projected tr) = mset hs
            \<and> sorted_wrt (\<lambda>a b. GetConstraintLevel c a \<le> GetConstraintLevel c b) (projected tr))"
proof (intro conjI)
  obtain tr where "Apply c Dt hs It NumIts = Inr tr" "solved tr = SortLeafToRoot c hs"
    using Apply_solved [OF assms] by blast
  then show "\<exists>tr. Apply c Dt hs It NumIts = Inr tr \<and> mset (solved tr) = mset hs
      \<and> sorted_wrt (\<lambda>a b. GetConstraintLevel c a \<ge> GetConstraintLevel c b) (solved tr)"
    using SortLeafToRoot_sorted [of c hs] by (simp add: SortLeafToRoot_def mset_Sort)
next
  obtain tr where "ApplyPushOut c Dt hs It NumIts = Inr (True, tr)"
    "solved tr = (if ApplyPushOutPairIterations (Settings c) > 0 then SortRootToLeaf c hs else [])"
    using ApplyPushOut_solved [OF assms] by blast
  then show "\<exists>tr. ApplyPushOut c Dt hs It NumIts = Inr (True, tr)
      \<and> mset (solved tr) = (if ApplyPushOutPairIterations (Settings c) > 0 then mset hs else {#})
      \<and> sorted_wrt (\<lambda>a b. GetConstraintLevel c a \<le> GetConstraintLevel c b) (solved tr)"
    using SortRootToLeaf_sorted [of c hs] by (simp add: SortRootToLeaf_def mset_Sort)
next
  obtain tr where "ApplyProjection c Dt hs = Inr tr" "projected tr = SortRootToLeaf c hs"
    using ApplyProjection_projected [OF assms] by blast
  then show "\<exists>tr. ApplyProjection c Dt hs = Inr tr \<and> mset (projected tr) = mset hs
      \<and> sorted_wrt (\<lambda>a b. GetConstraintLevel c a \<le> GetConstraintLevel c b) (projected tr)"
    using SortRootToLeaf_sorted [of c hs] by (simp add: SortRootToLeaf_def mset_Sort)
qed

lemma valid_ChainHandles: "valid_handles ChainJoints ChainHandles"
  by (simp add: valid_handles_def ChainJoints_def ChainHandles_def NumConstraints_def)

lemma ChainJoints_levels:
  "GetConstraintLevel ChainJoints 0 = 0" "GetConstraintLevel ChainJoints 1 = 1"
  "GetConstraintLevel ChainJoints 2 = 2"
  by (simp_all add: GetConstraintLevel_def ChainJoints_def)

lemma ChainJoints_sorted:
  "SortLeafToRoot ChainJoints ChainHandles = [2, 1, 0]"
  "SortRootToLeaf ChainJoints ChainHandles = [0, 1, 2]"
  by (simp_all add: SortLeafToRoot_def SortRootToLeaf_def ChainHandles_def ChainJoints_levels)

theorem joint_passes_ordered_by_level_witness:
  "valid_handles ChainJoints ChainHandles
   \<and> Apply ChainJoints (1 / 60) ChainHandles 0 1 =
       Inr [SolvePosition (1 / 60) 2 1 0 1, SolvePosition (1 / 60) 1 1 0 1, SolvePosition (1 / 60) 0 1 0 1]
   \<and> ApplyPushOut ChainJoints (1 / 60) ChainHandles 0 1 =
       Inr (True, [SolvePosition (1 / 60) 0 1 0 1, SolvePosition (1 / 60) 1 1 0 1, SolvePosition (1 / 60) 2 1 0 1])
   \<and> ApplyProjection ChainJoints (1 / 60) ChainHandles =
       Inr [ProjectPosition (1 / 60) 0 0 1, ProjectPosition (1 / 60) 1 0 1, ProjectPosition (1 / 60) 2 0 1]
   \<and> (\<exists>tr. Apply ChainJoints (1 / 60) ChainHandles 0 1 = Inr tr \<and> mset (solved tr) = mset ChainHandles
        \<and> sorted_wrt (\<lambda>a b. GetConstraintLevel ChainJoints a \<ge> GetConstraintLevel ChainJoints b) (solved tr))"
proof -
  have v: "valid_handles ChainJoints ChainHandles"
    by (rule valid_ChainHandles)
  have s: "Settings ChainJoints = DefaultSolverSettings" "\<not> PreApplyCallback ChainJoints"
    "\<not> PostApplyCallback ChainJoints"
    by (simp_all add: ChainJoints_def)
  have a: "Apply ChainJoints (1 / 60) ChainHandles 0 1 =
       Inr [SolvePosition (1 / 60) 2 1 0 1, SolvePosition (1 / 60) 1 1 0 1, SolvePosition (1 / 60) 0 1 0 1]"
    by (simp add: Apply_def v s ChainJoints_sorted DefaultSolverSettings_def)
  have p: "ApplyPushOut ChainJoints (1 / 60) ChainHandles 0 1 =
       Inr (True, [SolvePosition (1 / 60) 0 1 0 1, SolvePosition (1 / 60) 1 1 0 1, SolvePosition (1 / 60) 2 1 0 1])"
    by (simp add: ApplyPushOut_def v s ChainJoints_sorted DefaultSolverSettings_def)
  have j: "ApplyProjection ChainJoints (1 / 60) ChainHandles =
       Inr [ProjectPosition (1 / 60) 0 0 1, ProjectPosition (1 / 60) 1 0 1, ProjectPosition (1 / 60) 2 0 1]"
    by (simp add: ApplyProjection_def v ChainJoints_sorted)
  from joint_passes_ordered_by_level [OF v, of "1 / 60" 0 1] v a p j show ?thesis
    by blast
qed

text \<open>
  C6. For every list of valid constraint handles: within \<open>Apply\<close> the constraints are
  projected exactly when the projection phase is the apply phase and the iteration index is
  \<open>NumIts - 1\<close>; within \<open>ApplyPushOut\<close> exactly when the projection phase is the push-out
  phase and the iteration index is \<open>NumIts - 1\<close> if the push-out pair-iteration count is
  positive, and \<open>0\<close> if it is not. When projection runs it projects all the given constraints
  (root to leaf); in every other iteration and phase configuration nothing is projected.
\<close>

theorem projection_phase_and_iteration:
  assumes "valid_handles c hs"
  shows "(\<exists>tr. Apply c Dt hs It NumIts = Inr tr
            \<and> projected tr =
                (if ProjectionPhase (Settings c) = PhaseApply \<and> It = NumIts - 1
                 then SortRootToLeaf c hs else [])
            \<and> (projected tr \<noteq> []) =
                (hs \<noteq> [] \<and> ProjectionPhase (Settings c) = PhaseApply \<and> It = NumIts - 1))
       \<and> (\<exists>tr. ApplyPushOut c Dt hs It NumIts = Inr (True, tr)
            \<and> projected tr =
                (if ProjectionPhase (Settings c) = PhaseApplyPushOut
                    \<and> It = (if ApplyPushOutPairIterations (Settings c) > 0 then NumIts - 1 else 0)
                 then SortRootToLeaf c hs else [])
            \<and> (projected tr \<noteq> []) =
                (hs \<noteq> [] \<and> ProjectionPhase (Settings c) = PhaseApplyPushOut
                 \<and> It = (if ApplyPushOutPairIterations (Settings c) > 0 then NumIts - 1 else 0)))"
proof -
  have e: "(SortRootToLeaf c hs = []) = (hs = [])"
    using length_Sort [of "\<lambda>L R. GetConstraintLevel c L < GetConstraintLevel c R" hs]
    by (auto simp: SortRootToLeaf_def simp del: length_0_conv dest!: arg_cong [where f = length])
  obtain tr where a: "Apply c Dt hs It NumIts = Inr tr"
    "projected tr = (if ProjectionPhase (Settings c) = PhaseApply \<and> It = NumIts - 1
                     then SortRootToLeaf c hs else [])"
    using Apply_projected [OF assms] by blast
  obtain tr' where p: "ApplyPushOut c Dt hs It NumIts = Inr (True, tr')"
    "projected tr' =
       (if ProjectionPhase (Settings c) = PhaseApplyPushOut
           \<and> It = (if ApplyPushOutPairIterations (Settings c) > 0 then NumIts - 1 else 0)
        then SortRootToLeaf c hs else [])"
    using ApplyPushOut_projected [OF assms] by blast
  from a e have "(projected tr \<noteq> []) =
      (hs \<noteq> [] \<and> ProjectionPhase (Settings c) = PhaseApply \<and> It = NumIts - 1)"
    by auto
  moreover from p e have "(projected tr' \<noteq> []) =
      (hs \<noteq> [] \<and> ProjectionPhase (Settings c) = PhaseApplyPushOut
       \<and> It = (if ApplyPushOutPairIterations (Settings c) > 0 then NumIts - 1 else 0))"
    by auto
  ultimately show ?thesis
    using a p by blast
qed

lemma valid_ProjectingChain: "valid_handles ProjectingChain ChainHandles"
  by (simp add: valid_handles_def ProjectingChain_def ChainJoints_def ChainHandles_def
      NumConstraints_def)

lemma ProjectingChain_sorted: "SortRootToLeaf ProjectingChain ChainHandles = [0, 1, 2]"
  by (simp add: SortRootToLeaf_def ChainHandles_def GetConstraintLevel_def ProjectingChain_def
      ChainJoints_def)

theorem projection_phase_and_iteration_witness:
  "valid_handles ProjectingChain ChainHandles
   \<and> (\<exists>tr. Apply ProjectingChain (1 / 60) ChainHandles 3 4 = Inr tr \<and> projected tr = [0, 1, 2])
   \<and> (\<exists>tr. Apply ProjectingChain (1 / 60) ChainHandles 2 4 = Inr tr \<and> projected tr = [])
   \<and> (\<exists>tr. ApplyPushOut ProjectingChain (1 / 60) ChainHandles 3 4 = Inr (True, tr) \<and> projected tr = [])"
proof -
  have v: "valid_handles ProjectingChain ChainHandles"
    by (rule valid_ProjectingChain)
  have s: "ProjectionPhase (Settings ProjectingChain) = PhaseApply"
    by (simp add: ProjectingChain_def)
  from projection_phase_and_iteration [OF v, of "1 / 60" 3 4]
    projection_phase_and_iteration [OF v, of "1 / 60" 2 4] v
  show ?thesis
    by (simp add: s ProjectingChain_sorted) blast
qed

text \<open>
  C1. \<open>RemoveConstraints\<close> leaves the container as it is: for the container holding one
  joint between the particles 0 and 1 and the set of removed particles \<open>{0}\<close>, the joint is
  still there after the call and still references particle 0.
\<close>

theorem RemoveConstraints_keeps_joint:
  "ConstraintParticles (RemoveConstraints OneJoint {0}) = [(0, 1)]
   \<and> references (ConstraintParticles (RemoveConstraints OneJoint {0}) ! 0) {0}
   \<and> NumConstraints (RemoveConstraints OneJoint {0}) = 1"
  by (simp add: RemoveConstraints_def OneJoint_def references_def NumConstraints_def)

lemma RotateVector_identity: "RotateVector FromIdentity v = v"
  by (cases v) (simp add: FromIdentity_def Let_def)

lemma qmul_identity: "qmul FromIdentity q = q"
  by (cases q) (simp add: FromIdentity_def)

lemma qmul_identity_right: "qmul q FromIdentity = q"
  by (cases q) (simp add: FromIdentity_def)

lemma Inverse_identity: "Inverse FromIdentity = FromIdentity"
  by (simp add: FromIdentity_def)

text \<open>
  C7, as stated, fails: for a body at the origin turned by half a turn about the Z axis and a
  world frame one unit along the X axis, the world frame has the local translation
  \<open>(-1, 0, 0)\<close>, but \<open>AddConstraint\<close> stores the translation \<open>(1, 0, 0)\<close>.
\<close>

theorem AddConstraint_world_frame_counterexample:
  "map_option (Translation \<circ> fst)
     (StoredFrames (AddConstraintWorld TurnedX TurnedR (NewJointConstraints DefaultSolverSettings) (0, 1) FrameAlongX))
     = Some (FVec3 1 0 0)
   \<and> Translation (WorldToLocal (TurnedX 0) (TurnedR 0) FrameAlongX) = FVec3 (- 1) 0 0"
  by (simp add: StoredFrames_def AddConstraintWorld_def AddConstraintFrames_def
      NewJointConstraints_def GetConstraintSettings_def WorldToLocal_def TurnedX_def TurnedR_def
      FrameAlongX_def FromIdentity_def Let_def)

text \<open>
  C7, amended. \<open>AddConstraint\<close> with a world-space frame stores, for each of the two
  particles, the frame whose translation is the world frame's translation minus the body's
  position (not rotated) and whose rotation is the world frame's rotation times the inverse
  of the body's rotation. For a body whose rotation is the identity this is the world frame
  expressed in the body's local coordinates.
\<close>

theorem AddConstraint_world_frame_stored:
  assumes "length (ConstraintSettings c) = length (Handles c)"
  shows "\<exists>c'. AddConstraintWorld X R c (p0, p1) W = Inr (int (length (Handles c)), c')
           \<and> ConstraintFrames (GetConstraintSettings c' (length (Handles c))) =
               (\<lparr>Translation = vsub (Translation W) (X p0), Rotation = qmul (Rotation W) (Inverse (R p0))\<rparr>,
                \<lparr>Translation = vsub (Translation W) (X p1), Rotation = qmul (Rotation W) (Inverse (R p1))\<rparr>)
           \<and> (R p0 = FromIdentity \<longrightarrow>
                fst (ConstraintFrames (GetConstraintSettings c' (length (Handles c)))) = WorldToLocal (X p0) (R p0) W)
           \<and> (R p1 = FromIdentity \<longrightarrow>
                snd (ConstraintFrames (GetConstraintSettings c' (length (Handles c)))) = WorldToLocal (X p1) (R p1) W)"
  using assms
  by (simp add: AddConstraintWorld_def AddConstraintFrames_def GetConstraintSettings_def Let_def
      WorldToLocal_def RotateVector_identity qmul_identity qmul_identity_right Inverse_identity)

theorem AddConstraint_world_frame_stored_witness:
  "length (ConstraintSettings OneJoint) = length (Handles OneJoint)
   \<and> (\<exists>c'. AddConstraintWorld TurnedX TurnedR OneJoint (2, 3) FrameAlongX = Inr (1, c')
        \<and> ConstraintFrames (GetConstraintSettings c' 1) =
            (\<lparr>Translation = FVec3 1 0 0, Rotation = FQuat 0 0 (- 1) 0\<rparr>,
             \<lparr>Translation = FVec3 1 0 0, Rotation = FQuat 0 0 (- 1) 0\<rparr>))"
proof -
  have l: "length (ConstraintSettings OneJoint) = length (Handles OneJoint)"
    by (simp add: OneJoint_def)
  have h: "length (Handles OneJoint) = 1"
    by (simp add: OneJoint_def)
  from AddConstraint_world_frame_stored [OF l, of TurnedX TurnedR 2 3 FrameAlongX] l
  show ?thesis
    by (simp add: h TurnedX_def TurnedR_def FrameAlongX_def FromIdentity_def)
qed

section \<open>Properties of the step driver\<close>

lemma binade_lower: "- 126 \<le> binade n x"
  by (induction n) auto

lemma two_powi_less: "(2::real) powi a < 2 powi b \<Longrightarrow> a < b"
proof (rule ccontr)
  assume l: "(2::real) powi a < 2 powi b" and "\<not> a < b"
  then have "b \<le> a" by simp
  then have "(2::real) powi b \<le> 2 powi a" by (rule power_int_increasing) simp
  with l show False by simp
qed

lemma binade_upper: "x < 2 powi (k + 1) \<Longrightarrow> - 126 \<le> k \<Longrightarrow> binade n x \<le> k"
proof (induction n)
  case 0
  then show ?case by simp
next
  case (Suc n)
  show ?case
  proof (cases "2 powi (int n - 126) \<le> x")
    case True
    then have "(2::real) powi (int n - 126) < 2 powi (k + 1)" using Suc.prems(1) by simp
    then have "int n - 126 < k + 1" by (rule two_powi_less)
    then show ?thesis using True by simp
  next
    case False
    then show ?thesis using Suc by simp
  qed
qed

lemma binade_ge: "2 powi k \<le> x \<Longrightarrow> k + 126 < int n \<Longrightarrow> - 126 \<le> k \<Longrightarrow> k \<le> binade n x"
proof (induction n)
  case 0
  then show ?case by simp
next
  case (Suc n)
  show ?case
  proof (cases "2 powi (int n - 126) \<le> x")
    case True
    then show ?thesis using Suc.prems by simp
  next
    case False
    have "k + 126 \<noteq> int n"
    proof
      assume "k + 126 = int n"
      then have "k = int n - 126" by simp
      with Suc.prems(1) False show False by simp
    qed
    then have "k + 126 < int n" using Suc.prems(2) by simp
    from Suc.IH [OF Suc.prems(1) this Suc.prems(3)] False show ?thesis by simp
  qed
qed

lemma binade_eq:
  "2 powi k \<le> x \<Longrightarrow> x < 2 powi (k + 1) \<Longrightarrow> - 126 \<le> k \<Longrightarrow> k \<le> 127 \<Longrightarrow> binade 254 x = k"
  using binade_upper [of x k 254] binade_ge [of k x 254] by simp

lemma binade_bound: "x < 2 powi (int n - 126) \<Longrightarrow> x < 2 powi (binade n x + 1)"
proof (induction n)
  case 0
  have "(2::real) powi (- 126) \<le> 2 powi (- 125)" by (rule power_int_increasing) simp_all
  with 0 show ?case by simp
next
  case (Suc n)
  show ?case
  proof (cases "2 powi (int n - 126) \<le> x")
    case True
    have "int (Suc n) - 126 = int n - 126 + 1" by simp
    then show ?thesis using True Suc.prems by simp
  next
    case False
    then show ?thesis using Suc.IH by simp
  qed
qed

lemma round_to_even_of_int [simp]: "round_to_even (of_int k) = k"
  by (simp add: round_to_even_def)

lemma two_powi_nonneg: "0 \<le> d \<Longrightarrow> (2::real) powi d = of_int (2 ^ nat d)"
  by (simp add: power_int_def)

lemma round32_exact:
  assumes x: "x = of_int k * 2 powi e" and b: "\<bar>x\<bar> < 2 powi (e + 24)" and e: "- 149 \<le> e"
    and o: "\<bar>x\<bar> < 2 ^ 128"
  shows "round32 x = Finite x"
proof -
  let ?b = "binade 254 \<bar>x\<bar>"
  have "?b \<le> e + 23"
    using binade_upper [of "\<bar>x\<bar>" "e + 23" 254] b e by (simp add: add.commute)
  then have d: "0 \<le> e - (?b - 23)" by simp
  have "x / quantum x = of_int k * (2 powi e / 2 powi (?b - 23))"
    by (simp add: x quantum_def)
  also have "2 powi e / 2 powi (?b - 23) = (2::real) powi (e - (?b - 23))"
    by (simp add: power_int_diff)
  also have "\<dots> = of_int (2 ^ nat (e - (?b - 23)))"
    using d by (rule two_powi_nonneg)
  finally have "x / quantum x = of_int (k * 2 ^ nat (e - (?b - 23)))"
    by simp
  then have "of_int (round_to_even (x / quantum x)) * quantum x = x / quantum x * quantum x"
    by (simp only: round_to_even_of_int)
  also have "\<dots> = x"
    by (simp add: quantum_def)
  finally have r: "of_int (round_to_even (x / quantum x)) * quantum x = x" .
  have "x < 2 ^ 128" "\<not> x \<le> - (2 ^ 128)"
    using o by linarith+
  then show ?thesis
    by (simp only: round32_def r Let_def not_le [symmetric] if_False)
qed

lemma representableD:
  assumes "representable x" and "\<bar>x\<bar> < 2 ^ 128"
  shows "\<exists>k e. x = of_int k * 2 powi e \<and> \<bar>x\<bar> < 2 powi (e + 24) \<and> - 149 \<le> e"
proof -
  let ?e = "binade 254 \<bar>x\<bar> - 23"
  let ?k = "round_to_even (x / quantum x)"
  have "Finite (of_int ?k * quantum x) = Finite x"
    using assms(1) unfolding representable_def round32_def Let_def
    by (auto split: if_splits)
  then have "x = of_int ?k * 2 powi ?e"
    by (simp add: quantum_def)
  moreover have "\<bar>x\<bar> < 2 powi (?e + 24)"
    using binade_bound [of "\<bar>x\<bar>" 254] assms(2) by (simp add: add.commute)
  moreover have "- 149 \<le> ?e"
    using binade_lower [of 254 "\<bar>x\<bar>"] by simp
  ultimately show ?thesis by blast
qed

lemma sub_one_exact:
  assumes "representable x" and "1 < x" and "x \<le> 2 ^ 24"
  shows "round32 (x - 1) = Finite (x - 1)"
proof -
  have "(2::real) ^ 24 < 2 ^ 128" by simp
  then have "\<bar>x\<bar> < 2 ^ 128" using assms(2,3) by simp
  from representableD [OF assms(1) this] obtain k e where
    x: "x = of_int k * 2 powi e" and b: "\<bar>x\<bar> < 2 powi (e + 24)" and e: "- 149 \<le> e"
    by blast
  have small: "\<bar>x - 1\<bar> < 2 ^ 128" using assms(2,3) by simp
  show ?thesis
  proof (cases "0 \<le> e")
    case True
    have "x = of_int (k * 2 ^ nat e)"
      using x True by (simp add: two_powi_nonneg)
    then have "x - 1 = of_int (k * 2 ^ nat e - 1) * 2 powi 0"
      by simp
    moreover have "\<bar>x - 1\<bar> < 2 powi (0 + 24)"
      using assms(2,3) by simp
    ultimately show ?thesis
      using small by (intro round32_exact [where k = "k * 2 ^ nat e - 1" and e = 0]) simp_all
  next
    case False
    then have "(2::real) powi (- e) = of_int (2 ^ nat (- e))"
      by (intro two_powi_nonneg) simp
    then have "of_int (2 ^ nat (- e)) * (2::real) powi e = 1"
      by (simp add: power_int_minus field_simps)
    then have "x - 1 = of_int (k - 2 ^ nat (- e)) * 2 powi e"
      by (simp add: x algebra_simps)
    moreover have "\<bar>x - 1\<bar> < 2 powi (e + 24)"
      using b assms(2) by simp
    ultimately show ?thesis
      using small e by (intro round32_exact [where k = "k - 2 ^ nat (- e)" and e = e]) simp_all
  qed
qed

lemma AdvanceSubSteps_exact:
  "representable x \<Longrightarrow> 0 < x \<Longrightarrow> x \<le> 2 ^ 24 \<Longrightarrow> x \<le> real n + 1 \<Longrightarrow>
   AdvanceSubSteps (Finite 1) (Finite x) steps =
     Some (Finite (x - real (nat (\<lceil>x\<rceil> - 1))), steps @ replicate (nat (\<lceil>x\<rceil> - 1)) (Finite 1))"
proof (induction n arbitrary: x steps)
  case 0
  then have "\<lceil>x\<rceil> = 1" by (simp add: ceiling_eq_iff)
  moreover have "AdvanceSubSteps (Finite 1) (Finite x) steps = Some (Finite x, steps)"
    using 0 by (subst AdvanceSubSteps.simps) simp
  ultimately show ?case by simp
next
  case (Suc n)
  show ?case
  proof (cases "1 < x")
    case False
    then have "\<lceil>x\<rceil> = 1" using Suc.prems by (simp add: ceiling_eq_iff)
    moreover have "AdvanceSubSteps (Finite 1) (Finite x) steps = Some (Finite x, steps)"
      using False by (subst AdvanceSubSteps.simps) simp
    ultimately show ?thesis by simp
  next
    case True
    have ex: "round32 (x - 1) = Finite (x - 1)"
      using Suc.prems True by (intro sub_one_exact)
    then have r: "representable (x - 1)" by (simp add: representable_def)
    have step: "AdvanceSubSteps (Finite 1) (Finite x) steps =
        AdvanceSubSteps (Finite 1) (Finite (x - 1)) (steps @ [Finite 1])"
      using True ex by (subst AdvanceSubSteps.simps) simp
    have c: "\<lceil>x - 1\<rceil> = \<lceil>x\<rceil> - 1" by simp
    have "2 \<le> \<lceil>x\<rceil>" using True by (simp add: le_ceiling_iff)
    then have n: "nat (\<lceil>x\<rceil> - 1) = Suc (nat (\<lceil>x - 1\<rceil> - 1))"
      unfolding c by linarith
    have "AdvanceSubSteps (Finite 1) (Finite (x - 1)) (steps @ [Finite 1]) =
        Some (Finite (x - 1 - real (nat (\<lceil>x - 1\<rceil> - 1))),
              (steps @ [Finite 1]) @ replicate (nat (\<lceil>x - 1\<rceil> - 1)) (Finite 1))"
      using Suc.prems True r by (intro Suc.IH) simp_all
    then show ?thesis
      unfolding step n by (simp add: replicate_append_same)
  qed
qed

lemma AdvanceSubSteps_stuck:
  assumes "AdvanceSubSteps M d steps = Some r"
  shows "\<not> (fgreater d M \<and> fsub d M = d)"
proof (rule AdvanceSubSteps.raw_induct [where P = "\<lambda>M d steps r. \<not> (fgreater d M \<and> fsub d M = d)", OF _ assms])
  fix f :: "float32 \<Rightarrow> float32 \<Rightarrow> float32 list \<Rightarrow> (float32 \<times> float32 list) option"
  fix M d :: float32 and steps :: "float32 list" and r :: "float32 \<times> float32 list"
  assume IH: "\<And>M d steps r. f M d steps = Some r \<Longrightarrow> \<not> (fgreater d M \<and> fsub d M = d)"
  assume step: "(if fgreater d M then f M (fsub d M) (steps @ [M]) else Some (d, steps)) = Some r"
  show "\<not> (fgreater d M \<and> fsub d M = d)"
  proof
    assume a: "fgreater d M \<and> fsub d M = d"
    then have "f M d (steps @ [M]) = Some r" using step by simp
    from IH [OF this] a show False by simp
  qed
qed

lemma round32_tie: "round32 33554431 = Finite 33554432"
proof -
  have "binade 254 \<bar>33554431::real\<bar> = 24" by (rule binade_eq) simp_all
  then show ?thesis
    by (simp add: round32_def quantum_def Let_def round_to_even_def)
qed

lemma representable_large: "representable 33554432"
proof -
  have "binade 254 \<bar>33554432::real\<bar> = 25" by (rule binade_eq) simp_all
  then show ?thesis
    by (simp add: representable_def round32_def quantum_def Let_def round_to_even_def)
qed

text \<open>
  C9, as stated, fails. The constructor sets the maximum sub-step size to \<open>1\<close>. For the frame
  delta \<open>2 ^ 25 = 33554432\<close>, a binary32 number that \<^verbatim>\<open>FillContext\<close> hands on unchanged, the
  subtraction of the loop, \<open>33554432 - 1\<close>, rounds back to \<open>33554432\<close>: the time left never
  decreases, the loop takes sub-steps of size \<open>1\<close> for ever, and \<open>Simulate\<close> never returns.
\<close>

theorem Simulate_large_delta_counterexample:
  "representable 33554432 \<and> MaxDeltaTime NewClothingSimulation = Finite 1
   \<and> FillContext NewClothingSimulation (Finite 33554432) = Finite 33554432
   \<and> fsub (Finite 33554432) (Finite 1) = Finite 33554432
   \<and> Simulate NewClothingSimulation (FillContext NewClothingSimulation (Finite 33554432)) = None"
proof -
  have s: "fsub (Finite 33554432) (Finite 1) = Finite 33554432"
    using round32_tie by simp
  have "AdvanceSubSteps (Finite 1) (Finite 33554432) [] = None"
  proof (cases "AdvanceSubSteps (Finite 1) (Finite 33554432) []")
    case None
    then show ?thesis .
  next
    case (Some r)
    from AdvanceSubSteps_stuck [OF this] s show ?thesis by simp
  qed
  then show ?thesis
    using s representable_large by (simp add: Simulate_def FillContext_def NewClothingSimulation_def)
qed

text \<open>
  C9, amended. For every frame delta \<open>dt\<close> that is a binary32 number with
  \<open>0 < dt \<le> 2 ^ 24\<close>, and the maximum sub-step size \<open>1\<close> that the constructor sets, \<open>Simulate\<close>
  returns after a sequence of calls of \<open>AdvanceOneTimeStep\<close>: \<open>\<lceil>dt\<rceil> - 1\<close> sub-steps of exactly
  \<open>MaxDeltaTime\<close>, taken while more than \<open>MaxDeltaTime\<close> of the frame remains, then one final
  step with the positive remainder; no sub-step exceeds \<open>MaxDeltaTime\<close>, and the sub-steps
  sum to \<open>dt\<close> exactly. The simulation records \<open>dt\<close> and adds it to its time in single
  precision.
\<close>

theorem Simulate_substeps:
  assumes "representable dt" and "0 < dt" and "dt \<le> 2 ^ 24" and "MaxDeltaTime sim = Finite 1"
  shows "\<exists>n r. Simulate sim (Finite dt) =
             Some (sim\<lparr>DeltaTime := Finite dt, Time := fadd (Time sim) (Finite dt)\<rparr>,
                   replicate n (MaxDeltaTime sim) @ [Finite r])
           \<and> n = nat (\<lceil>dt\<rceil> - 1) \<and> 0 < r \<and> r \<le> 1 \<and> real n + r = dt
           \<and> (\<forall>st \<in> set (replicate n (MaxDeltaTime sim) @ [Finite r]).
                 \<not> fgreater st (MaxDeltaTime sim))"
proof -
  let ?n = "nat (\<lceil>dt\<rceil> - 1)"
  have "dt \<le> real (nat \<lceil>dt\<rceil>) + 1"
    using real_nat_ceiling_ge [of dt] by simp
  from AdvanceSubSteps_exact [OF assms(1-3) this, of "[]"]
  have a: "AdvanceSubSteps (Finite 1) (Finite dt) [] =
      Some (Finite (dt - real ?n), replicate ?n (Finite 1))"
    by simp
  have c: "1 \<le> \<lceil>dt\<rceil>" using assms(2) by (simp add: le_ceiling_iff)
  then have rn: "real ?n = of_int \<lceil>dt\<rceil> - 1" by simp
  have r: "0 < dt - real ?n" "dt - real ?n \<le> 1"
    unfolding rn by linarith+
  have s: "Simulate sim (Finite dt) =
             Some (sim\<lparr>DeltaTime := Finite dt, Time := fadd (Time sim) (Finite dt)\<rparr>,
                   replicate ?n (MaxDeltaTime sim) @ [Finite (dt - real ?n)])"
    using assms(2,4) a by (simp add: Simulate_def)
  have le: "\<forall>st \<in> set (replicate ?n (MaxDeltaTime sim) @ [Finite (dt - real ?n)]).
      \<not> fgreater st (MaxDeltaTime sim)"
    using r(2) assms(4) by auto
  show ?thesis
    using s r le by (intro exI [of _ ?n] exI [of _ "dt - real ?n"]) simp
qed

lemma representable_5_2: "representable (5 / 2)"
proof -
  have "binade 254 \<bar>5 / 2::real\<bar> = 1" by (rule binade_eq) simp_all
  then show ?thesis
    by (simp add: representable_def round32_def quantum_def Let_def round_to_even_def power_int_minus)
qed

theorem Simulate_substeps_witness:
  "representable (5 / 2) \<and> (0::real) < 5 / 2 \<and> (5 / 2::real) \<le> 2 ^ 24
   \<and> MaxDeltaTime NewClothingSimulation = Finite 1
   \<and> FillContext NewClothingSimulation (Finite (5 / 2)) = Finite (5 / 2)
   \<and> Simulate NewClothingSimulation (Finite (5 / 2)) =
       Some (\<lparr>MaxDeltaTime = Finite 1, ClampDeltaTime = Finite 0, DeltaTime = Finite (5 / 2),
              Time = Finite (5 / 2)\<rparr>,
             [Finite 1, Finite 1, Finite (1 / 2)])"
proof -
  have m: "MaxDeltaTime NewClothingSimulation = Finite 1"
    by (simp add: NewClothingSimulation_def)
  have d: "(0::real) < 5 / 2" "(5 / 2::real) \<le> 2 ^ 24"
    by simp_all
  have fc: "FillContext NewClothingSimulation (Finite (5 / 2)) = Finite (5 / 2)"
    by (simp add: FillContext_def NewClothingSimulation_def)
  have t: "fadd (Time NewClothingSimulation) (Finite (5 / 2)) = Finite (5 / 2)"
    using representable_5_2 by (simp add: NewClothingSimulation_def representable_def)
  from Simulate_substeps [OF representable_5_2 d m] obtain n r where
    s: "Simulate NewClothingSimulation (Finite (5 / 2)) =
             Some (NewClothingSimulation\<lparr>DeltaTime := Finite (5 / 2),
                     Time := fadd (Time NewClothingSimulation) (Finite (5 / 2))\<rparr>,
                   replicate n (MaxDeltaTime NewClothingSimulation) @ [Finite r])"
    and n: "n = nat (\<lceil>5 / 2 :: real\<rceil> - 1)" and r: "real n + r = 5 / 2"
    by blast
  have "\<lceil>5 / 2 :: real\<rceil> = 3" by (simp add: ceiling_eq_iff)
  then have n2: "n = 2" using n by simp
  then have r2: "r = 1 / 2" using r by simp
  have "Simulate NewClothingSimulation (Finite (5 / 2)) =
       Some (\<lparr>MaxDeltaTime = Finite 1, ClampDeltaTime = Finite 0, DeltaTime = Finite (5 / 2),
              Time = Finite (5 / 2)\<rparr>,
             [Finite 1, Finite 1, Finite (1 / 2)])"
    unfolding s t n2 r2 by (simp add: NewClothingSimulation_def numeral_2_eq_2)
  then show ?thesis
    using representable_5_2 d m fc by (intro conjI)
qed

section \<open>Properties of the dynamic spring constraints\<close>

text \<open>
  C5, as stated, fails: for a rigid body and a static body whose two world-space end points
  coincide, the separation is zero, below the epsilon, and \<open>GetDelta\<close> does not return: the
  assertion \<^verbatim>\<open>check(Distance > 1e-7)\<close> fails.
\<close>

theorem GetDelta_near_zero_counterexample:
  "Size (vsub (FVec3 1 2 3) (FVec3 1 2 3)) < 1 / 10 ^ 7
   \<and> GetDelta RigidAndStatic OneSpringConstraint (FVec3 1 2 3) (FVec3 1 2 3) 0 0 = Inl CheckFailed"
  by (simp add: GetDelta_def OneSpringConstraint_def RigidAndStatic_def DefaultParticle_def
      AsDynamic_def Let_def)

text \<open>
  C5, amended. In \<open>GetDelta\<close> a near-zero separation of the two world-space end points is
  guarded before the division by an assertion against the epsilon \<open>1e-7\<close>: for every input
  whose separation is not above the epsilon, the function returns the zero vector, without
  computing the distance, when neither body is rigid, and otherwise fails the assertion
  instead of returning a correction; it never divides by such a distance. Whenever it
  returns a correction for a constraint with a rigid body, the separation is above the epsilon.
\<close>

theorem GetDelta_distance_guard:
  assumes "ConstraintIndex < length (Constraints c)"
  shows "(Size (vsub WorldSpaceX2 WorldSpaceX1) \<le> 1 / 10 ^ 7 \<longrightarrow>
            GetDelta particles c WorldSpaceX1 WorldSpaceX2 ConstraintIndex SpringIndex =
              (if \<not> AsDynamic (particles (fst (Constraints c ! ConstraintIndex)))
                  \<and> \<not> AsDynamic (particles (snd (Constraints c ! ConstraintIndex)))
               then Inr ZeroVector else Inl CheckFailed))
       \<and> (\<forall>Delta. GetDelta particles c WorldSpaceX1 WorldSpaceX2 ConstraintIndex SpringIndex = Inr Delta
            \<and> (AsDynamic (particles (fst (Constraints c ! ConstraintIndex)))
               \<or> AsDynamic (particles (snd (Constraints c ! ConstraintIndex))))
            \<longrightarrow> Size (vsub WorldSpaceX2 WorldSpaceX1) > 1 / 10 ^ 7)"
  using assms by (auto simp: GetDelta_def Let_def split: if_splits)

theorem GetDelta_distance_guard_witness:
  "0 < length (Constraints OneSpringConstraint)
   \<and> Size (vsub (FVec3 1 2 3) (FVec3 1 2 3)) \<le> 1 / 10 ^ 7
   \<and> GetDelta RigidAndStatic OneSpringConstraint (FVec3 1 2 3) (FVec3 1 2 3) 0 0 = Inl CheckFailed
   \<and> GetDelta RigidAndStatic OneSpringConstraint (FVec3 0 0 0) (FVec3 3 0 0) 0 0 = Inr (FVec3 2 0 0)"
proof -
  have l: "0 < length (Constraints OneSpringConstraint)"
    by (simp add: OneSpringConstraint_def)
  have z: "Size (vsub (FVec3 1 2 3) (FVec3 1 2 3)) \<le> 1 / 10 ^ 7"
    by simp
  have d: "AsDynamic (RigidAndStatic (fst (Constraints OneSpringConstraint ! 0)))"
    by (simp add: OneSpringConstraint_def RigidAndStatic_def DefaultParticle_def AsDynamic_def)
  have s: "sqrt 9 = 3"
    using real_sqrt_abs [of 3] by simp
  have r: "GetDelta RigidAndStatic OneSpringConstraint (FVec3 0 0 0) (FVec3 3 0 0) 0 0 = Inr (FVec3 2 0 0)"
    by (simp add: GetDelta_def OneSpringConstraint_def RigidAndStatic_def DefaultParticle_def
        AsDynamic_def Let_def s)
  from GetDelta_distance_guard [OF l, of "FVec3 1 2 3" "FVec3 1 2 3" RigidAndStatic 0] z d l r
  show ?thesis
    by simp
qed

section \<open>Properties of the spring update\<close>

lemma RemoveAtSwap_length: "i < length xs \<Longrightarrow> length (RemoveAtSwap i xs) = length xs - 1"
  by (simp add: RemoveAtSwap_def)

lemma RemoveAtSwap_nth:
  "i < length xs \<Longrightarrow> j < length xs - 1 \<Longrightarrow>
   RemoveAtSwap i xs ! j = (if j = i then last xs else xs ! j)"
  by (simp add: RemoveAtSwap_def nth_butlast nth_list_update)

lemma RemoveAtSwap_snoc:
  "i \<le> length ys \<Longrightarrow> RemoveAtSwap i (ys @ [l]) = (if i < length ys then ys[i := l] else ys)"
  by (auto simp: RemoveAtSwap_def list_update_append)

lemma RemoveAtSwap_mset:
  assumes "i < length xs"
  shows "mset (RemoveAtSwap i xs) = mset xs - {#xs ! i#}"
proof -
  obtain ys l where xs: "xs = ys @ [l]"
    using assms by (cases xs rule: rev_cases) auto
  show ?thesis
  proof (cases "i < length ys")
    case True
    then have "ys ! i \<in># mset ys" by simp
    then show ?thesis using True
      by (simp add: xs RemoveAtSwap_snoc mset_update nth_append)
  next
    case False
    then have "i = length ys" using assms xs by simp
    then show ?thesis by (simp add: xs RemoveAtSwap_snoc)
  qed
qed

lemma RemoveAtSwap_zip:
  assumes "length xs = length ys"
  shows "zip (RemoveAtSwap i xs) (RemoveAtSwap i ys) = RemoveAtSwap i (zip xs ys)"
proof (cases "i < length xs")
  case False
  then show ?thesis using assms
    by (simp add: RemoveAtSwap_def butlast_conv_take take_zip)
next
  case True
  then have "xs \<noteq> []" "ys \<noteq> []" using assms by auto
  then have "last (zip xs ys) = (last xs, last ys)"
    using assms by (simp add: last_conv_nth)
  then show ?thesis using assms
    by (simp add: RemoveAtSwap_def butlast_conv_take take_zip flip: zip_update)
qed

lemma DeleteSprings_filter:
  assumes "length ds = length sds" and "n \<le> length ds"
    and "\<forall>j. n \<le> j \<and> j < length ds \<longrightarrow> sep (ds ! j) \<le> T * 2"
  shows "\<exists>ds' sds'. DeleteSprings sep T n (ds, sds) = Inr (ds', sds')
           \<and> length ds' = length sds'
           \<and> mset (zip ds' sds') = filter_mset (\<lambda>z. sep (fst z) \<le> T * 2) (mset (zip ds sds))"
  using assms
proof (induction n arbitrary: ds sds)
  case 0
  then have "\<forall>z \<in> set (zip ds sds). sep (fst z) \<le> T * 2"
    by (auto simp: set_zip)
  then have "filter_mset (\<lambda>z. sep (fst z) \<le> T * 2) (mset (zip ds sds)) = mset (zip ds sds)"
    by (simp add: filter_mset_eq_conv)
  with 0 show ?case by simp
next
  case (Suc n)
  have n: "n < length ds" "n < length sds" using Suc.prems by auto
  show ?case
  proof (cases "sep (ds ! n) > T * 2")
    case False
    have "\<forall>j. n \<le> j \<and> j < length ds \<longrightarrow> sep (ds ! j) \<le> T * 2"
      using Suc.prems(3) False by (metis Suc_leI le_neq_implies_less not_less)
    from Suc.IH [OF Suc.prems(1) _ this] n False show ?thesis by simp
  next
    case True
    let ?ds = "RemoveAtSwap n ds" and ?sds = "RemoveAtSwap n sds"
    have l: "length ?ds = length ?sds" "n \<le> length ?ds"
      using n Suc.prems(1) by (simp_all add: RemoveAtSwap_length)
    have inv: "\<forall>j. n \<le> j \<and> j < length ?ds \<longrightarrow> sep (?ds ! j) \<le> T * 2"
    proof (intro allI impI)
      fix j assume j: "n \<le> j \<and> j < length ?ds"
      then have jl: "j < length ds - 1" using n by (simp add: RemoveAtSwap_length)
      have "ds \<noteq> []" using n by auto
      then have "last ds = ds ! (length ds - 1)" by (simp add: last_conv_nth)
      moreover have "sep (ds ! (length ds - 1)) \<le> T * 2" using Suc.prems(3) j jl by simp
      moreover have "j \<noteq> n \<Longrightarrow> sep (ds ! j) \<le> T * 2" using Suc.prems(3) j jl by simp
      ultimately show "sep (?ds ! j) \<le> T * 2"
        using n jl by (simp add: RemoveAtSwap_nth)
    qed
    from Suc.IH [OF l inv] obtain ds' sds' where
      r: "DeleteSprings sep T n (?ds, ?sds) = Inr (ds', sds')" "length ds' = length sds'"
         "mset (zip ds' sds') = filter_mset (\<lambda>z. sep (fst z) \<le> T * 2) (mset (zip ?ds ?sds))"
      by blast
    have "mset (zip ?ds ?sds) = mset (zip ds sds) - {#(ds ! n, sds ! n)#}"
      using n Suc.prems(1) by (simp add: RemoveAtSwap_zip RemoveAtSwap_mset)
    then have "filter_mset (\<lambda>z. sep (fst z) \<le> T * 2) (mset (zip ?ds ?sds)) =
        filter_mset (\<lambda>z. sep (fst z) \<le> T * 2) (mset (zip ds sds))"
      using True by (simp add: filter_diff_mset)
    with r n True show ?thesis by simp
  qed
qed

lemma UpdateSprings_result:
  assumes "length ds = length sds" and "Geometry p0 = Some g0" and "Geometry p1 = Some g1"
  shows "\<exists>kept keptS. length kept = length keptS
           \<and> mset (zip kept keptS) =
               filter_mset (\<lambda>z. SpringSeparation p0 p1 (fst z) \<le> T * 2) (mset (zip ds sds))
           \<and> UpdateSprings lib T MaxS p0 p1 (ds, sds) =
               Inr (if int (length keptS) \<noteq> MaxS \<and> \<not> BoxesApart lib T p0 p1 g0 g1
                       \<and> fst (Phi1 lib p0 p1 g0) + fst (Phi2 lib p0 p1 g1) \<le> T
                    then (kept @ [fst (NewSpring lib p0 p1 g0 g1)], keptS @ [snd (NewSpring lib p0 p1 g0 g1)])
                    else (kept, keptS))"
proof -
  have "length sds \<le> length ds" "\<forall>j. length sds \<le> j \<and> j < length ds \<longrightarrow> SpringSeparation p0 p1 (ds ! j) \<le> T * 2"
    using assms(1) by simp_all
  from DeleteSprings_filter [OF assms(1) this] obtain kept keptS where
    k: "DeleteSprings (SpringSeparation p0 p1) T (length sds) (ds, sds) = Inr (kept, keptS)"
       "length kept = length keptS"
       "mset (zip kept keptS) = filter_mset (\<lambda>z. SpringSeparation p0 p1 (fst z) \<le> T * 2) (mset (zip ds sds))"
    by blast
  have "UpdateSprings lib T MaxS p0 p1 (ds, sds) =
      Inr (if int (length keptS) \<noteq> MaxS \<and> \<not> BoxesApart lib T p0 p1 g0 g1
              \<and> fst (Phi1 lib p0 p1 g0) + fst (Phi2 lib p0 p1 g1) \<le> T
           then (kept @ [fst (NewSpring lib p0 p1 g0 g1)], keptS @ [snd (NewSpring lib p0 p1 g0 g1)])
           else (kept, keptS))"
    by (simp add: UpdateSprings_def assms(2,3) k(1))
  with k(2,3) show ?thesis by blast
qed

lemma UpdateConstraint_SpringsAfter:
  assumes "i < length (Constraints c)" and "i < length (Distances c)" and "i < length (SpringDistances c)"
  shows "UpdateConstraint lib particles i c =
     (case SpringsAfter lib particles c i of
        Inl e \<Rightarrow> Inl e
      | Inr (ds, sds) \<Rightarrow>
          Inr (c\<lparr>Distances := (Distances c)[i := ds], SpringDistances := (SpringDistances c)[i := sds]\<rparr>))"
  using assms by (simp add: UpdateConstraint_def SpringsAfter_def Let_def)

lemma SpringsAfter_cong:
  assumes "Constraints c' ! i = Constraints c ! i" and "CreationThreshold c' = CreationThreshold c"
    and "MaxSprings c' = MaxSprings c" and "Distances c' ! i = Distances c ! i"
    and "SpringDistances c' ! i = SpringDistances c ! i"
  shows "SpringsAfter lib particles c' i = SpringsAfter lib particles c i"
  using assms by (simp add: SpringsAfter_def Let_def)

lemma UpdateConstraints_entries:
  assumes "distinct is" and "\<forall>i \<in> set is. i < length (Constraints c)"
    and "length (Distances c) = length (Constraints c)"
    and "length (SpringDistances c) = length (Constraints c)"
    and "\<forall>i \<in> set is. \<exists>r. SpringsAfter lib particles c i = Inr r"
  shows "\<exists>c'. UpdateConstraints lib particles is c = Inr c'
           \<and> Constraints c' = Constraints c \<and> CreationThreshold c' = CreationThreshold c
           \<and> MaxSprings c' = MaxSprings c \<and> SpringStiffness c' = SpringStiffness c
           \<and> length (Distances c') = length (Distances c)
           \<and> length (SpringDistances c') = length (SpringDistances c)
           \<and> (\<forall>i \<in> set is. SpringsAfter lib particles c i = Inr (Distances c' ! i, SpringDistances c' ! i))
           \<and> (\<forall>j. j \<notin> set is \<longrightarrow> Distances c' ! j = Distances c ! j
                  \<and> SpringDistances c' ! j = SpringDistances c ! j)"
  using assms
proof (induction "is" arbitrary: c)
  case Nil
  then show ?case by simp
next
  case (Cons i rest)
  obtain ds sds where r: "SpringsAfter lib particles c i = Inr (ds, sds)"
    using Cons.prems(5) by force
  let ?c1 = "c\<lparr>Distances := (Distances c)[i := ds], SpringDistances := (SpringDistances c)[i := sds]\<rparr>"
  have i: "i < length (Constraints c)" "i \<notin> set rest" using Cons.prems by auto
  have u: "UpdateConstraint lib particles i c = Inr ?c1"
    using i Cons.prems(3,4) by (simp add: UpdateConstraint_SpringsAfter r)
  have same: "\<forall>j \<in> set rest. SpringsAfter lib particles ?c1 j = SpringsAfter lib particles c j"
  proof
    fix j assume "j \<in> set rest"
    then have "i \<noteq> j" using i(2) by auto
    then show "SpringsAfter lib particles ?c1 j = SpringsAfter lib particles c j"
      by (intro SpringsAfter_cong) simp_all
  qed
  have "\<exists>c'. UpdateConstraints lib particles rest ?c1 = Inr c'
           \<and> Constraints c' = Constraints ?c1 \<and> CreationThreshold c' = CreationThreshold ?c1
           \<and> MaxSprings c' = MaxSprings ?c1 \<and> SpringStiffness c' = SpringStiffness ?c1
           \<and> length (Distances c') = length (Distances ?c1)
           \<and> length (SpringDistances c') = length (SpringDistances ?c1)
           \<and> (\<forall>i \<in> set rest. SpringsAfter lib particles ?c1 i = Inr (Distances c' ! i, SpringDistances c' ! i))
           \<and> (\<forall>j. j \<notin> set rest \<longrightarrow> Distances c' ! j = Distances ?c1 ! j
                  \<and> SpringDistances c' ! j = SpringDistances ?c1 ! j)"
  proof (rule Cons.IH)
    show "distinct rest" using Cons.prems(1) by simp
    show "\<forall>i \<in> set rest. i < length (Constraints ?c1)" using Cons.prems(2) by simp
    show "length (Distances ?c1) = length (Constraints ?c1)" using Cons.prems(3) by simp
    show "length (SpringDistances ?c1) = length (Constraints ?c1)" using Cons.prems(4) by simp
    show "\<forall>i \<in> set rest. \<exists>r. SpringsAfter lib particles ?c1 i = Inr r"
      using same Cons.prems(5) by simp
  qed
  then obtain c' where c': "UpdateConstraints lib particles rest ?c1 = Inr c'"
    "Constraints c' = Constraints c" "CreationThreshold c' = CreationThreshold c"
    "MaxSprings c' = MaxSprings c" "SpringStiffness c' = SpringStiffness c"
    "length (Distances c') = length (Distances c)"
    "length (SpringDistances c') = length (SpringDistances c)"
    "\<forall>i \<in> set rest. SpringsAfter lib particles ?c1 i = Inr (Distances c' ! i, SpringDistances c' ! i)"
    "\<forall>j. j \<notin> set rest \<longrightarrow> Distances c' ! j = Distances ?c1 ! j
                  \<and> SpringDistances c' ! j = SpringDistances ?c1 ! j"
    by auto
  have here: "Distances c' ! i = ds" "SpringDistances c' ! i = sds"
    using c'(9) i Cons.prems(3,4) by simp_all
  have other: "\<forall>j. j \<notin> set (i # rest) \<longrightarrow> Distances c' ! j = Distances c ! j
      \<and> SpringDistances c' ! j = SpringDistances c ! j"
    using c'(9) by simp
  have "UpdateConstraints lib particles (i # rest) c = Inr c'"
    by (simp add: u c'(1))
  moreover have "\<forall>j \<in> set (i # rest). SpringsAfter lib particles c j = Inr (Distances c' ! j, SpringDistances c' ! j)"
    using c'(8) same here r by auto
  ultimately show ?case
    using c'(2-7) other by blast
qed

lemma SpringsAfter_result:
  assumes "length (Distances c ! i) = length (SpringDistances c ! i)"
  shows "\<exists>ds' sds'. SpringsAfter lib particles c i = Inr (ds', sds') \<and> length ds' = length sds'
     \<and> (\<forall>g0 g1. Geometry (particles (fst (Constraints c ! i))) = Some g0
            \<and> Geometry (particles (snd (Constraints c ! i))) = Some g1 \<longrightarrow>
          (\<exists>kept. zip ds' sds' =
                kept @ (if int (length kept) \<noteq> MaxSprings c
                           \<and> \<not> BoxesApart lib (CreationThreshold c) (particles (fst (Constraints c ! i)))
                                 (particles (snd (Constraints c ! i))) g0 g1
                           \<and> fst (Phi1 lib (particles (fst (Constraints c ! i))) (particles (snd (Constraints c ! i))) g0)
                             + fst (Phi2 lib (particles (fst (Constraints c ! i))) (particles (snd (Constraints c ! i))) g1)
                             \<le> CreationThreshold c
                        then [NewSpring lib (particles (fst (Constraints c ! i))) (particles (snd (Constraints c ! i))) g0 g1]
                        else [])
              \<and> mset kept =
                  filter_mset (\<lambda>z. SpringSeparation (particles (fst (Constraints c ! i)))
                                       (particles (snd (Constraints c ! i))) (fst z) \<le> CreationThreshold c * 2)
                    (mset (zip (Distances c ! i) (SpringDistances c ! i)))
              \<and> (int (length (SpringDistances c ! i)) \<le> MaxSprings c \<and> int (length kept) \<noteq> MaxSprings c
                   \<longrightarrow> int (length kept) < MaxSprings c)))
     \<and> (Geometry (particles (fst (Constraints c ! i))) = None
          \<or> Geometry (particles (snd (Constraints c ! i))) = None \<longrightarrow>
          ds' = Distances c ! i \<and> sds' = SpringDistances c ! i)"
proof (cases "Geometry (particles (fst (Constraints c ! i))) = None
          \<or> Geometry (particles (snd (Constraints c ! i))) = None")
  case True
  then have "SpringsAfter lib particles c i = Inr (Distances c ! i, SpringDistances c ! i)"
    by (simp add: SpringsAfter_def Let_def)
  with True assms show ?thesis by auto
next
  case False
  then obtain g0 g1 where g: "Geometry (particles (fst (Constraints c ! i))) = Some g0"
    "Geometry (particles (snd (Constraints c ! i))) = Some g1"
    by auto
  let ?p0 = "particles (fst (Constraints c ! i))" and ?p1 = "particles (snd (Constraints c ! i))"
  let ?create = "\<lambda>n::nat. int n \<noteq> MaxSprings c
      \<and> \<not> BoxesApart lib (CreationThreshold c) ?p0 ?p1 g0 g1
      \<and> fst (Phi1 lib ?p0 ?p1 g0) + fst (Phi2 lib ?p0 ?p1 g1) \<le> CreationThreshold c"
  from UpdateSprings_result [OF assms g, of "CreationThreshold c" lib "MaxSprings c"]
  obtain kept keptS where k: "length kept = length keptS"
    "mset (zip kept keptS) =
       filter_mset (\<lambda>z. SpringSeparation ?p0 ?p1 (fst z) \<le> CreationThreshold c * 2)
         (mset (zip (Distances c ! i) (SpringDistances c ! i)))"
    "UpdateSprings lib (CreationThreshold c) (MaxSprings c) ?p0 ?p1 (Distances c ! i, SpringDistances c ! i) =
       Inr (if ?create (length keptS)
            then (kept @ [fst (NewSpring lib ?p0 ?p1 g0 g1)], keptS @ [snd (NewSpring lib ?p0 ?p1 g0 g1)])
            else (kept, keptS))"
    by blast
  let ?ds = "if ?create (length keptS) then kept @ [fst (NewSpring lib ?p0 ?p1 g0 g1)] else kept"
  let ?sds = "if ?create (length keptS) then keptS @ [snd (NewSpring lib ?p0 ?p1 g0 g1)] else keptS"
  have a: "SpringsAfter lib particles c i = Inr (?ds, ?sds)"
    using g k(3) by (simp add: SpringsAfter_def Let_def)
  have l: "length ?ds = length ?sds"
    using k(1) by simp
  have z: "zip ?ds ?sds = zip kept keptS @ (if ?create (length (zip kept keptS)) then [NewSpring lib ?p0 ?p1 g0 g1] else [])"
    using k(1) by simp
  have "size (mset (zip kept keptS)) \<le> size (mset (zip (Distances c ! i) (SpringDistances c ! i)))"
    unfolding k(2) by (rule size_filter_mset_lesseq)
  then have "length (zip kept keptS) \<le> length (SpringDistances c ! i)"
    using assms by simp
  then have small: "int (length (SpringDistances c ! i)) \<le> MaxSprings c
      \<and> int (length (zip kept keptS)) \<noteq> MaxSprings c \<longrightarrow> int (length (zip kept keptS)) < MaxSprings c"
    by linarith
  show ?thesis
    using a l z k(2) g small
    by (intro exI [of _ ?ds] exI [of _ ?sds]) (simp only: option.inject, blast)
qed

lemma Inr_pair_transfer:
  assumes "\<exists>a b. r = Inr (a, b) \<and> Q a b" and "r = Inr (x, y)"
  shows "Q x y"
  using assms by auto

text \<open>
  C4, amended. On each call of \<open>UpdatePositionBasedState\<close> on a well-formed container, for
  every constraint pair whose two bodies both have geometry: the springs kept are exactly the
  existing springs whose recomputed world-space end-point separation does not exceed
  \<open>2 \<times> CreationThreshold\<close> (every other spring is removed); and one new spring is created
  exactly when the number of springs kept differs from \<open>MaxSprings\<close> (so is below it, if the
  pair held at most \<open>MaxSprings\<close> springs before the call), the
  \<open>CreationThreshold\<close>-inflated bounding boxes overlap when both bodies have them, and the
  signed distances sampled at the midpoint of the body origins satisfy
  \<open>Phi1 + Phi2 \<le> CreationThreshold\<close>. The springs of a pair with a body without geometry
  are left as they are.
\<close>

theorem UpdatePositionBasedState_springs:
  assumes "SpringsWellFormed c"
  shows "\<exists>c'. UpdatePositionBasedState lib particles c = Inr c' \<and> SpringsWellFormed c'
     \<and> Constraints c' = Constraints c
     \<and> (\<forall>i < length (Constraints c).
          (\<forall>g0 g1. Geometry (particles (fst (Constraints c ! i))) = Some g0
            \<and> Geometry (particles (snd (Constraints c ! i))) = Some g1 \<longrightarrow>
            (\<exists>kept. zip (Distances c' ! i) (SpringDistances c' ! i) =
                kept @ (if int (length kept) \<noteq> MaxSprings c
                           \<and> \<not> BoxesApart lib (CreationThreshold c) (particles (fst (Constraints c ! i)))
                                 (particles (snd (Constraints c ! i))) g0 g1
                           \<and> fst (Phi1 lib (particles (fst (Constraints c ! i))) (particles (snd (Constraints c ! i))) g0)
                             + fst (Phi2 lib (particles (fst (Constraints c ! i))) (particles (snd (Constraints c ! i))) g1)
                             \<le> CreationThreshold c
                        then [NewSpring lib (particles (fst (Constraints c ! i))) (particles (snd (Constraints c ! i))) g0 g1]
                        else [])
              \<and> mset kept =
                  filter_mset (\<lambda>z. SpringSeparation (particles (fst (Constraints c ! i)))
                                       (particles (snd (Constraints c ! i))) (fst z) \<le> CreationThreshold c * 2)
                    (mset (zip (Distances c ! i) (SpringDistances c ! i)))
              \<and> (int (length (SpringDistances c ! i)) \<le> MaxSprings c \<and> int (length kept) \<noteq> MaxSprings c
                   \<longrightarrow> int (length kept) < MaxSprings c)))
        \<and> (Geometry (particles (fst (Constraints c ! i))) = None
             \<or> Geometry (particles (snd (Constraints c ! i))) = None \<longrightarrow>
             Distances c' ! i = Distances c ! i \<and> SpringDistances c' ! i = SpringDistances c ! i))"
proof -
  let ?n = "length (Constraints c)"
  have len: "length (Distances c) = ?n" "length (SpringDistances c) = ?n"
    and ent: "\<forall>i < ?n. length (Distances c ! i) = length (SpringDistances c ! i)"
    using assms by (auto simp: SpringsWellFormed_def list_all2_conv_all_nth)
  have ok: "\<forall>i \<in> set [0..<?n]. \<exists>r. SpringsAfter lib particles c i = Inr r"
  proof
    fix i assume "i \<in> set [0..<?n]"
    then have "length (Distances c ! i) = length (SpringDistances c ! i)" using ent by simp
    from SpringsAfter_result [OF this, of lib particles] show "\<exists>r. SpringsAfter lib particles c i = Inr r"
      by blast
  qed
  have "\<exists>c'. UpdateConstraints lib particles [0..<?n] c = Inr c'
           \<and> Constraints c' = Constraints c \<and> CreationThreshold c' = CreationThreshold c
           \<and> MaxSprings c' = MaxSprings c \<and> SpringStiffness c' = SpringStiffness c
           \<and> length (Distances c') = length (Distances c)
           \<and> length (SpringDistances c') = length (SpringDistances c)
           \<and> (\<forall>i \<in> set [0..<?n]. SpringsAfter lib particles c i = Inr (Distances c' ! i, SpringDistances c' ! i))
           \<and> (\<forall>j. j \<notin> set [0..<?n] \<longrightarrow> Distances c' ! j = Distances c ! j
                  \<and> SpringDistances c' ! j = SpringDistances c ! j)"
    by (rule UpdateConstraints_entries) (use len ok in simp_all)
  then obtain c' where c': "UpdatePositionBasedState lib particles c = Inr c'"
    "Constraints c' = Constraints c" "length (Distances c') = ?n" "length (SpringDistances c') = ?n"
    "\<forall>i < ?n. SpringsAfter lib particles c i = Inr (Distances c' ! i, SpringDistances c' ! i)"
    using len by (auto simp: UpdatePositionBasedState_def)
  have each: "length (Distances c' ! i) = length (SpringDistances c' ! i) \<and>
          (\<forall>g0 g1. Geometry (particles (fst (Constraints c ! i))) = Some g0
            \<and> Geometry (particles (snd (Constraints c ! i))) = Some g1 \<longrightarrow>
            (\<exists>kept. zip (Distances c' ! i) (SpringDistances c' ! i) =
                kept @ (if int (length kept) \<noteq> MaxSprings c
                           \<and> \<not> BoxesApart lib (CreationThreshold c) (particles (fst (Constraints c ! i)))
                                 (particles (snd (Constraints c ! i))) g0 g1
                           \<and> fst (Phi1 lib (particles (fst (Constraints c ! i))) (particles (snd (Constraints c ! i))) g0)
                             + fst (Phi2 lib (particles (fst (Constraints c ! i))) (particles (snd (Constraints c ! i))) g1)
                             \<le> CreationThreshold c
                        then [NewSpring lib (particles (fst (Constraints c ! i))) (particles (snd (Constraints c ! i))) g0 g1]
                        else [])
              \<and> mset kept =
                  filter_mset (\<lambda>z. SpringSeparation (particles (fst (Constraints c ! i)))
                                       (particles (snd (Constraints c ! i))) (fst z) \<le> CreationThreshold c * 2)
                    (mset (zip (Distances c ! i) (SpringDistances c ! i)))
              \<and> (int (length (SpringDistances c ! i)) \<le> MaxSprings c \<and> int (length kept) \<noteq> MaxSprings c
                   \<longrightarrow> int (length kept) < MaxSprings c)))
        \<and> (Geometry (particles (fst (Constraints c ! i))) = None
             \<or> Geometry (particles (snd (Constraints c ! i))) = None \<longrightarrow>
             Distances c' ! i = Distances c ! i \<and> SpringDistances c' ! i = SpringDistances c ! i)"
    if i: "i < ?n" for i
  proof -
    have e: "length (Distances c ! i) = length (SpringDistances c ! i)" using ent i by simp
    have r: "SpringsAfter lib particles c i = Inr (Distances c' ! i, SpringDistances c' ! i)"
      using c'(5) i by simp
    show ?thesis
      by (rule Inr_pair_transfer [OF SpringsAfter_result [OF e, of lib particles] r])
  qed
  have wf: "SpringsWellFormed c'"
    using c'(2,3,4) each by (simp add: SpringsWellFormed_def list_all2_conv_all_nth)
  from c'(1,2) wf each show ?thesis by blast
qed

lemma sqrt_nine: "sqrt 9 = 3"
  using real_sqrt_abs [of 3] by simp

text \<open>
  C4, as stated, fails: a constraint pair whose bodies have no geometry keeps a spring whose
  end points are 3 apart, more than \<open>2 \<times> CreationThreshold = 2\<close>: the test for geometry
  leaves the loop body before the springs are looked at.
\<close>

theorem UpdatePositionBasedState_no_geometry_counterexample:
  "SpringSeparation (RigidAndStatic 0) (RigidAndStatic 1) (ZeroVector, FVec3 3 0 0)
     > 2 * CreationThreshold StretchedSpring
   \<and> UpdatePositionBasedState SampleLibrary RigidAndStatic StretchedSpring = Inr StretchedSpring"
  by (simp add: SpringSeparation_def RigidAndStatic_def DefaultParticle_def AsDynamic_def
      BodyQ_def BodyP_def FromIdentity_def ZeroVector_def Let_def StretchedSpring_def sqrt_nine
      UpdatePositionBasedState_def UpdateConstraint_def)

lemma StretchedSpring_wf: "SpringsWellFormed StretchedSpring"
  by (simp add: SpringsWellFormed_def StretchedSpring_def)

theorem UpdatePositionBasedState_springs_witness:
  "SpringsWellFormed StretchedSpring
   \<and> UpdatePositionBasedState SampleLibrary TouchingBodies StretchedSpring =
       Inr (StretchedSpring\<lparr>Distances := [[(ZeroVector, ZeroVector)]], SpringDistances := [[0]]\<rparr>)
   \<and> (\<exists>c'. UpdatePositionBasedState SampleLibrary TouchingBodies StretchedSpring = Inr c'
        \<and> SpringsWellFormed c' \<and> Constraints c' = Constraints StretchedSpring)"
proof -
  have v: "UpdatePositionBasedState SampleLibrary TouchingBodies StretchedSpring =
       Inr (StretchedSpring\<lparr>Distances := [[(ZeroVector, ZeroVector)]], SpringDistances := [[0]]\<rparr>)"
    by (simp add: SpringSeparation_def RigidAndStatic_def DefaultParticle_def AsDynamic_def
        TouchingBodies_def BodyQ_def BodyP_def FromIdentity_def ZeroVector_def Let_def
        StretchedSpring_def sqrt_nine UpdatePositionBasedState_def UpdateConstraint_def
        UpdateSprings_def RemoveAtSwap_def BoxesApart_def FlatGeometry_def Phi1_def Phi2_def
        NewSpring_def Midpoint_def SampleLibrary_def)
  from UpdatePositionBasedState_springs [OF StretchedSpring_wf, of SampleLibrary TouchingBodies]
  obtain c' where "UpdatePositionBasedState SampleLibrary TouchingBodies StretchedSpring = Inr c'"
    "SpringsWellFormed c'" "Constraints c' = Constraints StretchedSpring"
    by (elim exE conjE)
  with v StretchedSpring_wf show ?thesis
    by blast
qed

section \<open>Properties of the particle store\<close>

lemma then_do_Inr: "then_do (Inr x) f = f x"
  by (simp add: then_do_def)

lemma then_do_Inl: "then_do (Inl e) f = Inl e"
  by (simp add: then_do_def)

lemma then_do_eq_Inr: "then_do r f = Inr y \<longleftrightarrow> (\<exists>x. r = Inr x \<and> f x = Inr y)"
  by (cases r) (simp_all add: then_do_def)

lemma Memory_UpdateViews [simp]: "Memory (UpdateViews s) = Memory s"
  by (simp add: UpdateViews_def)

lemma Memory_MoveToSOA [simp]: "Memory (MoveToSOA k h s) = Memory s"
  by (simp add: MoveToSOA_def)

lemma Memory_Insert [simp]:
  "Memory (InsertActive h s) = Memory s"
  "Memory (InsertActiveClustered h s) = Memory s"
  "Memory (InsertNonDisabledClustered h s) = Memory s"
  by (simp_all add: InsertActive_def InsertActiveClustered_def InsertNonDisabledClustered_def Let_def)

lemma Memory_Remove:
  "RemoveActive h s = Inr s' \<Longrightarrow> Memory s' = Memory s"
  "RemoveActiveClustered h s = Inr s' \<Longrightarrow> Memory s' = Memory s"
  "RemoveNonDisabledClustered h s = Inr s' \<Longrightarrow> Memory s' = Memory s"
  by (auto simp: RemoveActive_def RemoveActiveClustered_def RemoveNonDisabledClustered_def
      then_do_eq_Inr)

lemma DisabledAtRest_alt: "DisabledAtRest s = (\<forall>h p. Memory s h = Some p \<longrightarrow> rest_ok p)"
  by (auto simp: DisabledAtRest_def rest_ok_def)

lemma DisabledAtRest_same: "Memory s' = Memory s \<Longrightarrow> DisabledAtRest s' = DisabledAtRest s"
  by (simp add: DisabledAtRest_def)

lemma rest_ok_HandleIdx [simp]: "rest_ok (p\<lparr>HandleIdx := i\<rparr>) = rest_ok p"
  by (simp add: rest_ok_def AsDynamic_def)

lemma rest_ok_created [simp]: "rest_ok (CreateParticleHandle k i)"
  by (simp add: rest_ok_def CreateParticleHandle_def DefaultParticle_def)

lemma rest_ok_disabled [simp]: "rest_ok (p\<lparr>Disabled := True, pV := ZeroVector, pW := ZeroVector\<rparr>)"
  by (simp add: rest_ok_def)

lemma rest_ok_enabled [simp]: "rest_ok (p\<lparr>Disabled := False\<rparr>)"
  by (simp add: rest_ok_def)

lemma Memory_CreateParticlesHelper:
  "Memory (snd (CreateParticlesHelper k n pool Params s)) h =
     (if NextHandle s \<le> h \<and> h < NextHandle s + n
      then Some (CreateParticleHandle k (h - NextHandle s + length (ParticleHandles s)))
      else Memory s h)"
  by (simp add: CreateParticlesHelper_def Let_def)

lemma DisabledAtRest_CreateParticlesHelper:
  assumes "DisabledAtRest s"
  shows "DisabledAtRest (snd (CreateParticlesHelper k n pool Params s))"
  unfolding DisabledAtRest_alt
proof (intro allI impI)
  fix h p assume "Memory (snd (CreateParticlesHelper k n pool Params s)) h = Some p"
  then show "rest_ok p"
    using assms unfolding DisabledAtRest_alt Memory_CreateParticlesHelper
    by (cases "NextHandle s \<le> h \<and> h < NextHandle s + n") auto
qed

lemma Memory_DestroyHandleSwap:
  assumes "DestroyHandleSwap h s = Inr s'" and "Memory s' x = Some q"
  shows "\<exists>p. Memory s x = Some p \<and> x \<noteq> h \<and> (q = p \<or> (\<exists>i. q = p\<lparr>HandleIdx := i\<rparr>))"
proof -
  obtain ph where ph: "Memory s h = Some ph"
    using assms(1) by (cases "Memory s h") (simp_all add: DestroyHandleSwap_def)
  have pl: "HandleIdx ph < length (ParticleHandles s)"
    using assms(1) ph by (cases "HandleIdx ph < length (ParticleHandles s)") (simp_all add: DestroyHandleSwap_def)
  let ?H = "RemoveAtSwap (HandleIdx ph) (ParticleHandles s)"
  let ?F = "(Memory s)(h := None)"
  let ?R = "if HandleIdx ph < length ?H
       then (case ?F (?H ! HandleIdx ph) of None \<Rightarrow> ?F
             | Some Moved \<Rightarrow> ?F(?H ! HandleIdx ph \<mapsto> Moved\<lparr>HandleIdx := HandleIdx ph\<rparr>))
       else ?F"
  have e: "s' = s\<lparr>ParticleHandles := ?H, Memory := ?R,
          Particles := (\<lambda>k. RemoveFromPool k h (Particles s k))\<rparr>"
    using assms(1) ph pl by (simp add: DestroyHandleSwap_def Let_def)
  have m: "Memory s' = ?R"
    by (subst e) simp
  show ?thesis
  proof (cases "HandleIdx ph < length ?H")
    case False
    then show ?thesis using m assms(2) by (auto split: if_splits)
  next
    case True
    show ?thesis
    proof (cases "?F (?H ! HandleIdx ph)")
      case None
      then show ?thesis using m True assms(2) by (auto split: if_splits)
    next
      case (Some Moved)
      then have m': "Memory s' = ?F(?H ! HandleIdx ph \<mapsto> Moved\<lparr>HandleIdx := HandleIdx ph\<rparr>)"
        using m True by simp
      show ?thesis
      proof (cases "x = ?H ! HandleIdx ph")
        case True
        then show ?thesis using m' Some assms(2) by (auto split: if_splits)
      next
        case False
        then show ?thesis using m' assms(2) by (auto split: if_splits)
      qed
    qed
  qed
qed

lemma DisabledAtRest_DestroyHandleSwap:
  assumes "DisabledAtRest s" and "DestroyHandleSwap h s = Inr s'"
  shows "DisabledAtRest s'"
  unfolding DisabledAtRest_alt
proof (intro allI impI)
  fix x q assume "Memory s' x = Some q"
  from Memory_DestroyHandleSwap [OF assms(2) this] assms(1) show "rest_ok q"
    unfolding DisabledAtRest_alt by auto
qed

lemma Memory_SetDynamicParticleSOA:
  assumes "SetDynamicParticleSOA h s = Inr s'"
  shows "Memory s' = Memory s"
proof -
  obtain p where p: "Memory s h = Some p"
    using assms by (cases "Memory s h") (simp_all add: SetDynamicParticleSOA_def)
  have d: "AsDynamic p"
    using assms p by (cases "AsDynamic p") (simp_all add: SetDynamicParticleSOA_def)
  have "s' = UpdateViews
                 (case ObjectState p of
                    StateKinematic \<Rightarrow> MoveToSOA DynamicKinematicParticles h s
                  | StateDynamic \<Rightarrow> MoveToSOA DynamicParticles h s
                  | _ \<Rightarrow> MoveToSOA DynamicParticles h s)"
    using assms p d by (simp add: SetDynamicParticleSOA_def)
  then show ?thesis
    by (cases "ObjectState p") simp_all
qed

lemma DisabledAtRest_SetDynamicParticleSOA:
  "DisabledAtRest s \<Longrightarrow> SetDynamicParticleSOA h s = Inr s' \<Longrightarrow> DisabledAtRest s'"
  by (simp add: DisabledAtRest_def Memory_SetDynamicParticleSOA)

lemma Memory_InsertMany [simp]:
  "Memory (InsertManyActive hs s) = Memory s"
  "Memory (InsertManyActiveClustered hs s) = Memory s"
  "Memory (InsertManyNonDisabledClustered hs s) = Memory s"
  by (simp_all add: InsertManyActive_def InsertManyActiveClustered_def
      InsertManyNonDisabledClustered_def Let_def)

lemma Memory_CreateStaticParticles:
  "Memory (snd (CreateStaticParticles n Params s)) =
   Memory (snd (CreateParticlesHelper Static n
      (if bDisabled Params then StaticDisabledParticles else StaticParticles) Params s))"
  by (simp add: CreateStaticParticles_def Let_def)

lemma Memory_CreateKinematicParticles:
  "Memory (snd (CreateKinematicParticles n Params s)) =
   Memory (snd (CreateParticlesHelper Kinematic n
      (if bDisabled Params then KinematicDisabledParticles else KinematicParticles) Params s))"
  by (simp add: CreateKinematicParticles_def Let_def)

lemma Memory_CreateDynamicParticles:
  "Memory (snd (CreateDynamicParticles n Params s)) =
   Memory (snd (CreateParticlesHelper Dynamic n
      (if bDisabled Params then DynamicDisabledParticles else DynamicParticles) Params s))"
  by (simp add: CreateDynamicParticles_def Let_def)

lemma Memory_CreateClusteredParticles:
  "Memory (snd (CreateClusteredParticles n Params s)) =
   Memory (snd (CreateParticlesHelper Clustered n ClusteredParticles Params s))"
  by (simp add: CreateClusteredParticles_def Let_def)

lemma DisabledAtRest_Create:
  assumes "DisabledAtRest s"
  shows "DisabledAtRest (snd (CreateStaticParticles n Params s))"
    "DisabledAtRest (snd (CreateKinematicParticles n Params s))"
    "DisabledAtRest (snd (CreateDynamicParticles n Params s))"
    "DisabledAtRest (snd (CreateClusteredParticles n Params s))"
  using DisabledAtRest_CreateParticlesHelper [OF assms]
  by (simp_all only: DisabledAtRest_def Memory_CreateStaticParticles Memory_CreateKinematicParticles
      Memory_CreateDynamicParticles Memory_CreateClusteredParticles)

lemma DisabledAtRest_DestroyParticle:
  assumes "DisabledAtRest s" and "DestroyParticle h s = Inr s'"
  shows "DisabledAtRest s'"
proof -
  obtain p s1 s2 where p: "Memory s h = Some p"
    and s1: "(if AsDynamic p then RemoveActive h s else Inr s) = Inr s1"
    and s2: "DestroyHandleSwap h s1 = Inr s2" and s': "s' = UpdateViews s2"
    using assms(2)
    by (cases "Memory s h"; cases "AsClustered (the (Memory s h))")
      (auto simp: DestroyParticle_def then_do_eq_Inr)
  have "Memory s1 = Memory s" using s1 by (auto split: if_splits dest: Memory_Remove)
  then have "DisabledAtRest s1" using assms(1) by (simp add: DisabledAtRest_def)
  from DisabledAtRest_DestroyHandleSwap [OF this s2] show ?thesis
    by (simp add: s' DisabledAtRest_def)
qed

lemma Memory_WriteParticle [simp]: "Memory (WriteParticle h p s) = (Memory s)(h \<mapsto> p)"
  by (simp add: WriteParticle_def)

lemma Memory_DisableParticle:
  assumes "DisableParticle h s = Inr s'" and "Memory s h = Some p"
  shows "Memory s' =
     (if AsDynamic p then (Memory s)(h \<mapsto> p\<lparr>Disabled := True, pV := ZeroVector, pW := ZeroVector\<rparr>)
      else Memory s)"
proof (cases "AsDynamic p")
  case False
  then show ?thesis
    using assms by (cases "AsKinematic p") (auto simp: DisableParticle_def)
next
  case True
  let ?s1 = "WriteParticle h (p\<lparr>Disabled := True, pV := ZeroVector, pW := ZeroVector\<rparr>) s"
  have e: "DisableParticle h s =
      then_do
        (if AsClustered p
         then then_do (RemoveNonDisabledClustered h ?s1) (RemoveActiveClustered h)
         else Inr (MoveToSOA DynamicDisabledParticles h ?s1))
        (\<lambda>s2. then_do (RemoveActive h s2) (\<lambda>s3. Inr (UpdateViews s3)))"
    using assms(2) True by (simp add: DisableParticle_def)
  from assms(1) [unfolded e then_do_eq_Inr] obtain s2 s3 where
    s2: "(if AsClustered p
          then then_do (RemoveNonDisabledClustered h ?s1) (RemoveActiveClustered h)
          else Inr (MoveToSOA DynamicDisabledParticles h ?s1)) = Inr s2"
    and s3: "RemoveActive h s2 = Inr s3" and s': "UpdateViews s3 = s'"
    by auto
  have "Memory s2 = Memory ?s1"
  proof (cases "AsClustered p")
    case True
    then obtain sa where "RemoveNonDisabledClustered h ?s1 = Inr sa" "RemoveActiveClustered h sa = Inr s2"
      using s2 by (auto simp: then_do_eq_Inr)
    then show ?thesis by (metis Memory_Remove(2,3))
  next
    case False
    then show ?thesis using s2 by auto
  qed
  then show ?thesis
    using True Memory_Remove(1) [OF s3] s' by auto
qed

lemma DisabledAtRest_DisableParticle:
  assumes "DisabledAtRest s" and "DisableParticle h s = Inr s'"
  shows "DisabledAtRest s'"
proof -
  obtain p where p: "Memory s h = Some p"
    using assms(2) by (cases "Memory s h") (simp_all add: DisableParticle_def)
  show ?thesis
    using assms(1) unfolding DisabledAtRest_alt Memory_DisableParticle [OF assms(2) p]
    by (auto split: if_splits)
qed

lemma Memory_EnableParticle:
  assumes "EnableParticle h s = Inr s'" and "Memory s h = Some p"
  shows "Memory s' = (if AsDynamic p then (Memory s)(h \<mapsto> p\<lparr>Disabled := False\<rparr>) else Memory s)"
proof (cases "AsDynamic p")
  case False
  then show ?thesis
    using assms by (cases "AsKinematic p") (auto simp: EnableParticle_def)
next
  case True
  have e: "EnableParticle h s =
      then_do
        (if AsClustered p
         then Inr (if \<not> Sleeping p then InsertActiveClustered h (InsertNonDisabledClustered h s)
                   else InsertNonDisabledClustered h s)
         else SetDynamicParticleSOA h s)
        (\<lambda>s2. Inr (UpdateViews (WriteParticle h (p\<lparr>Disabled := False\<rparr>)
                      (if \<not> Sleeping p then InsertActive h s2 else s2))))"
    using assms(2) True by (simp add: EnableParticle_def)
  from assms(1) [unfolded e then_do_eq_Inr] obtain s2 where
    s2: "(if AsClustered p
         then Inr (if \<not> Sleeping p then InsertActiveClustered h (InsertNonDisabledClustered h s)
                   else InsertNonDisabledClustered h s)
         else SetDynamicParticleSOA h s) = Inr s2"
    and r: "UpdateViews (WriteParticle h (p\<lparr>Disabled := False\<rparr>)
                      (if \<not> Sleeping p then InsertActive h s2 else s2)) = s'"
    by auto
  have "Memory s2 = Memory s"
    using s2 by (cases "AsClustered p"; cases "Sleeping p") (auto dest: Memory_SetDynamicParticleSOA)
  moreover have "Memory s' = (Memory s2)(h \<mapsto> p\<lparr>Disabled := False\<rparr>)"
    using r by (cases "Sleeping p") auto
  ultimately show ?thesis
    using True by simp
qed

lemma DisabledAtRest_EnableParticle:
  assumes "DisabledAtRest s" and "EnableParticle h s = Inr s'"
  shows "DisabledAtRest s'"
proof -
  obtain p where p: "Memory s h = Some p"
    using assms(2) by (cases "Memory s h") (simp_all add: EnableParticle_def)
  show ?thesis
    using assms(1) unfolding DisabledAtRest_alt Memory_EnableParticle [OF assms(2) p]
    by (auto split: if_splits)
qed

lemma Memory_ActivateParticle:
  assumes "ActivateParticle h s = Inr s'"
  shows "Memory s' = Memory s"
proof -
  obtain p where p: "Memory s h = Some p"
    using assms by (cases "Memory s h") (simp_all add: ActivateParticle_def)
  show ?thesis
    using assms p
    by (cases "AsDynamic p"; cases "Disabled p"; cases "AsClustered p")
      (auto simp: ActivateParticle_def Let_def)
qed

lemma Memory_DeactivateParticle:
  assumes "DeactivateParticle h s = Inr s'"
  shows "Memory s' = Memory s"
proof -
  obtain p where p: "Memory s h = Some p"
    using assms by (cases "Memory s h") (simp_all add: DeactivateParticle_def)
  show ?thesis
  proof (cases "AsDynamic p")
    case False
    then show ?thesis using assms p by (auto simp: DeactivateParticle_def)
  next
    case True
    then obtain s1 s2 where "(if AsClustered p then RemoveActiveClustered h s else Inr s) = Inr s1"
      "RemoveActive h s1 = Inr s2" "s' = UpdateViews s2"
      using assms p by (cases "Disabled p") (auto simp: DeactivateParticle_def then_do_eq_Inr)
    then have "Memory s1 = Memory s" "Memory s2 = Memory s1" "Memory s' = Memory s2"
      by (cases "AsClustered p"; auto dest: Memory_Remove)+
    then show ?thesis by simp
  qed
qed

lemma Memory_DeactivateParticles:
  "DeactivateParticles hs s = Inr s' \<Longrightarrow> Memory s' = Memory s"
proof (induction hs arbitrary: s)
  case Nil
  then show ?case by simp
next
  case (Cons h hs)
  then obtain s1 where "DeactivateParticle h s = Inr s1" "DeactivateParticles hs s1 = Inr s'"
    by (auto simp: then_do_eq_Inr)
  then show ?case using Cons.IH Memory_DeactivateParticle by metis
qed

lemma DisabledAtRest_ApplyOp:
  assumes "DisabledAtRest s" and "ApplyOp op s = Inr s'"
  shows "DisabledAtRest s'"
proof (cases op)
  case (OpCreateStatic n Params)
  then show ?thesis using assms DisabledAtRest_Create(1) by auto
next
  case (OpCreateKinematic n Params)
  then show ?thesis using assms DisabledAtRest_Create(2) by auto
next
  case (OpCreateDynamic n Params)
  then show ?thesis using assms DisabledAtRest_Create(3) by auto
next
  case (OpCreateClustered n Params)
  then show ?thesis using assms DisabledAtRest_Create(4) by auto
next
  case (OpDestroy h)
  then show ?thesis using assms DisabledAtRest_DestroyParticle by auto
next
  case (OpDisable h)
  then show ?thesis using assms DisabledAtRest_DisableParticle by auto
next
  case (OpEnable h)
  then show ?thesis using assms DisabledAtRest_EnableParticle by auto
next
  case (OpActivate h)
  then show ?thesis using assms Memory_ActivateParticle by (auto simp: DisabledAtRest_def)
next
  case (OpDeactivate h)
  then show ?thesis using assms Memory_DeactivateParticle by (auto simp: DisabledAtRest_def)
next
  case (OpDeactivateMany hs)
  then show ?thesis using assms Memory_DeactivateParticles by (auto simp: DisabledAtRest_def)
next
  case (OpSetDynamicSOA h)
  then show ?thesis using assms DisabledAtRest_SetDynamicParticleSOA by auto
next
  case OpReset
  then show ?thesis using assms by (simp add: Reset_def)
qed

lemma DisabledAtRest_RunOps:
  "DisabledAtRest s \<Longrightarrow> RunOps ops s = Inr s' \<Longrightarrow> DisabledAtRest s'"
proof (induction ops arbitrary: s)
  case Nil
  then show ?case by simp
next
  case (Cons op ops)
  then obtain s1 where "ApplyOp op s = Inr s1" "RunOps ops s1 = Inr s'"
    by (auto simp: then_do_eq_Inr)
  then show ?case using Cons.IH Cons.prems(1) DisabledAtRest_ApplyOp by blast
qed

lemma DisabledAtRest_NewStore: "DisabledAtRest NewStore"
  by (simp add: DisabledAtRest_def NewStore_def)

lemma RemoveAtSwap_distinct_set:
  assumes "distinct xs" and "i < length xs"
  shows "distinct (RemoveAtSwap i xs) \<and> set (RemoveAtSwap i xs) = set xs - {xs ! i}"
proof -
  obtain ys l where xs: "xs = ys @ [l]"
    using assms(2) by (cases xs rule: rev_cases) auto
  have d: "distinct ys" "l \<notin> set ys" using assms(1) xs by auto
  show ?thesis
  proof (cases "i < length ys")
    case True
    then have "ys ! i \<in> set ys" by simp
    then have "ys ! i \<noteq> l" using d(2) by auto
    then show ?thesis
      using True d
      by (auto simp: xs RemoveAtSwap_snoc nth_append distinct_list_update set_update_distinct)
  next
    case False
    then have "i = length ys" using assms(2) xs by simp
    then show ?thesis using d by (auto simp: xs RemoveAtSwap_snoc)
  qed
qed

lemma RemoveAtSwap_distinct: "distinct xs \<Longrightarrow> i < length xs \<Longrightarrow> distinct (RemoveAtSwap i xs)"
  by (simp add: RemoveAtSwap_distinct_set)

lemma RemoveAtSwap_set:
  "distinct xs \<Longrightarrow> i < length xs \<Longrightarrow> set (RemoveAtSwap i xs) = set xs - {xs ! i}"
  by (simp add: RemoveAtSwap_distinct_set)

lemma MapArrayOk_lookup:
  "MapArrayOk m arr \<Longrightarrow> m h = Some i \<Longrightarrow> i < length arr \<and> arr ! i = h"
  by (simp add: MapArrayOk_def)

lemma Active_MoveToSOA [simp]:
  "ActiveParticlesToIndex (MoveToSOA k h s) = ActiveParticlesToIndex s"
  "ActiveParticlesArray (MoveToSOA k h s) = ActiveParticlesArray s"
  by (simp_all add: MoveToSOA_def)

lemma Indexes_WriteParticle [simp]:
  "ActiveParticlesToIndex (WriteParticle h p s) = ActiveParticlesToIndex s"
  "ActiveParticlesArray (WriteParticle h p s) = ActiveParticlesArray s"
  "ActiveClusteredToIndex (WriteParticle h p s) = ActiveClusteredToIndex s"
  "ActiveClusteredArray (WriteParticle h p s) = ActiveClusteredArray s"
  "NonDisabledClusteredToIndex (WriteParticle h p s) = NonDisabledClusteredToIndex s"
  "NonDisabledClusteredArray (WriteParticle h p s) = NonDisabledClusteredArray s"
  by (simp_all add: WriteParticle_def)

lemma Active_UpdateViews [simp]:
  "ActiveParticlesToIndex (UpdateViews s) = ActiveParticlesToIndex s"
  "ActiveParticlesArray (UpdateViews s) = ActiveParticlesArray s"
  "ActiveParticlesView (UpdateViews s) = ActiveParticlesArray s"
  "ParticleHandles (UpdateViews s) = ParticleHandles s"
  by (simp_all add: UpdateViews_def)

lemma HandlesOk_UpdateViews [simp]: "HandlesOk (UpdateViews s) = HandlesOk s"
  by (simp add: HandlesOk_def)

lemma MapArrayOk_insert:
  assumes "MapArrayOk m arr" and "p \<notin> set arr"
  shows "MapArrayOk (m(p \<mapsto> length arr)) (arr @ [p])"
  unfolding MapArrayOk_def
proof (intro conjI allI)
  show "distinct (arr @ [p])" using assms by (simp add: MapArrayOk_def)
next
  fix h i
  have m: "m h = Some i \<longleftrightarrow> i < length arr \<and> arr ! i = h"
    using assms(1) by (simp add: MapArrayOk_def)
  show "((m(p \<mapsto> length arr)) h = Some i) = (i < length (arr @ [p]) \<and> (arr @ [p]) ! i = h)"
  proof (cases "h = p")
    case True
    then show ?thesis using assms(2) by (auto simp: nth_append less_Suc_eq)
  next
    case False
    then show ?thesis using m by (auto simp: nth_append less_Suc_eq)
  qed
qed

lemma MapArrayOk_AddAll:
  "MapArrayOk m arr \<Longrightarrow> distinct ps \<Longrightarrow> set ps \<inter> set arr = {} \<Longrightarrow>
   MapArrayOk (AddAll m (length arr) ps) (arr @ ps)"
proof (induction ps arbitrary: m arr)
  case Nil
  then show ?case by simp
next
  case (Cons p ps)
  have "MapArrayOk (m(p \<mapsto> length arr)) (arr @ [p])"
    using Cons.prems by (intro MapArrayOk_insert) auto
  then have "MapArrayOk (AddAll (m(p \<mapsto> length arr)) (length (arr @ [p])) ps) ((arr @ [p]) @ ps)"
    by (rule Cons.IH) (use Cons.prems in auto)
  then show ?case by simp
qed

lemma MapArrayOk_empty: "MapArrayOk Map.empty []"
  by (simp add: MapArrayOk_def)

lemma Fields_UpdateViews [simp]:
  "Particles (UpdateViews s) = Particles s"
  "ActiveClusteredToIndex (UpdateViews s) = ActiveClusteredToIndex s"
  "ActiveClusteredArray (UpdateViews s) = ActiveClusteredArray s"
  "NonDisabledClusteredToIndex (UpdateViews s) = NonDisabledClusteredToIndex s"
  "NonDisabledClusteredArray (UpdateViews s) = NonDisabledClusteredArray s"
  "NextHandle (UpdateViews s) = NextHandle s"
  by (simp_all add: UpdateViews_def)

lemma Fields_MoveToSOA [simp]:
  "ActiveClusteredToIndex (MoveToSOA k h s) = ActiveClusteredToIndex s"
  "ActiveClusteredArray (MoveToSOA k h s) = ActiveClusteredArray s"
  "NonDisabledClusteredToIndex (MoveToSOA k h s) = NonDisabledClusteredToIndex s"
  "NonDisabledClusteredArray (MoveToSOA k h s) = NonDisabledClusteredArray s"
  "ParticleHandles (MoveToSOA k h s) = ParticleHandles s"
  "NextHandle (MoveToSOA k h s) = NextHandle s"
  by (simp_all add: MoveToSOA_def)

lemma Fields_WriteParticle [simp]:
  "Particles (WriteParticle h p s) = Particles s"
  "ParticleHandles (WriteParticle h p s) = ParticleHandles s"
  "NextHandle (WriteParticle h p s) = NextHandle s"
  by (simp_all add: WriteParticle_def)

lemma Live_simps [simp]:
  "LiveDynamic (UpdateViews s) = LiveDynamic s"
  "LiveClustered (UpdateViews s) = LiveClustered s"
  "LiveDynamic (MoveToSOA k h s) = LiveDynamic s"
  "LiveClustered (MoveToSOA k h s) = LiveClustered s"
  by (simp_all add: LiveDynamic_def LiveClustered_def fun_eq_iff)

lemma StoreOk_UpdateViews [simp]: "StoreOk (UpdateViews s) = StoreOk s"
  by (simp add: StoreOk_def IndexMapsOk_def HandlesOk_def PoolsOk_def ArraysTyped_def HandlesFresh_def)

lemma StoreOk_WriteParticle:
  assumes "StoreOk s" and "Memory s h = Some p" and "ParticleType p' = ParticleType p"
    and "HandleIdx p' = HandleIdx p"
  shows "StoreOk (WriteParticle h p' s)"
proof -
  let ?s' = "WriteParticle h p' s"
  have i: "IndexMapsOk ?s'"
    using assms(1) by (simp add: StoreOk_def IndexMapsOk_def)
  have m: "Memory ?s' x = (if x = h then Some p' else Memory s x)" for x
    by simp
  have ho: "HandlesOk s" using assms(1) by (simp add: StoreOk_def)
  have hh: "HandlesOk ?s'"
    unfolding HandlesOk_def
  proof (intro conjI allI impI ballI)
    show "distinct (ParticleHandles ?s')" using ho by (simp add: HandlesOk_def)
  next
    fix x q assume q: "Memory ?s' x = Some q"
    have "HandleIdx q < length (ParticleHandles s) \<and> ParticleHandles s ! HandleIdx q = x"
    proof (cases "x = h")
      case True
      then have "q = p'" using q by simp
      then show ?thesis using ho assms(2,4) True by (auto simp: HandlesOk_def)
    next
      case False
      then have "Memory s x = Some q" using q by simp
      then show ?thesis using ho by (auto simp: HandlesOk_def)
    qed
    then show "HandleIdx q < length (ParticleHandles ?s')" "ParticleHandles ?s' ! HandleIdx q = x"
      by simp_all
  next
    fix x assume "x \<in> set (ParticleHandles ?s')"
    then have "Memory s x \<noteq> None" using ho by (simp add: HandlesOk_def)
    then show "Memory ?s' x \<noteq> None" by simp
  qed
  have p: "PoolsOk ?s'"
    using assms(1) by (auto simp: StoreOk_def PoolsOk_def)
  have d: "AsDynamic p' = AsDynamic p" "AsClustered p' = AsClustered p"
    using assms(3) by (simp_all add: AsDynamic_def AsClustered_def)
  have l: "LiveDynamic ?s' x = LiveDynamic s x" "LiveClustered ?s' x = LiveClustered s x" for x
    using assms(2) d by (simp_all add: LiveDynamic_def LiveClustered_def)
  have a: "ArraysTyped ?s'"
    using assms(1) by (simp add: StoreOk_def ArraysTyped_def l)
  have f: "HandlesFresh ?s'"
    using assms(1,2) by (auto simp: StoreOk_def HandlesFresh_def)
  show ?thesis
    using i hh p a f by (simp add: StoreOk_def)
qed

lemma IndexOf_nth: "h \<in> set xs \<Longrightarrow> IndexOf h xs < length xs \<and> xs ! IndexOf h xs = h"
  by (induction xs) auto

lemma RemoveFromPool_distinct_set:
  assumes "distinct pool"
  shows "distinct (RemoveFromPool k h pool) \<and> set (RemoveFromPool k h pool) = set pool - {h}"
proof (cases "h \<in> set pool")
  case False
  then show ?thesis using assms by (simp add: RemoveFromPool_def)
next
  case True
  from IndexOf_nth [OF True] have i: "IndexOf h pool < length pool" "pool ! IndexOf h pool = h"
    by simp_all
  show ?thesis
  proof (cases "k = ClusteredParticles")
    case True
    then show ?thesis using assms \<open>h \<in> set pool\<close> by (simp add: RemoveFromPool_def)
  next
    case False
    then show ?thesis
      using assms True RemoveAtSwap_distinct_set [OF assms i(1)] i(2)
      by (simp add: RemoveFromPool_def)
  qed
qed

lemma Particles_MoveToSOA:
  "Particles (MoveToSOA ToSOA h s) k =
     (if h \<in> set (Particles s ToSOA) then Particles s k
      else if k = ToSOA then Particles s k @ [h] else RemoveFromPool k h (Particles s k))"
  by (simp add: MoveToSOA_def)

lemma PoolsOk_MoveToSOA:
  assumes "PoolsOk s" and "Memory s h \<noteq> None"
  shows "PoolsOk (MoveToSOA ToSOA h s)"
  unfolding PoolsOk_def
proof (intro allI conjI ballI)
  fix k
  have d: "distinct (Particles s k)" and l: "\<And>x. x \<in> set (Particles s k) \<Longrightarrow> Memory s x \<noteq> None"
    using assms(1) by (auto simp: PoolsOk_def)
  show "distinct (Particles (MoveToSOA ToSOA h s) k)"
    unfolding Particles_MoveToSOA using d RemoveFromPool_distinct_set [OF d] by auto
  fix x assume "x \<in> set (Particles (MoveToSOA ToSOA h s) k)"
  then have "x \<in> set (Particles s k) \<or> x = h"
    unfolding Particles_MoveToSOA using RemoveFromPool_distinct_set [OF d, of k h]
    by (auto split: if_splits)
  then show "Memory (MoveToSOA ToSOA h s) x \<noteq> None"
    using l assms(2) by auto
qed

lemma StoreOk_MoveToSOA:
  assumes "StoreOk s" and "Memory s h \<noteq> None"
  shows "StoreOk (MoveToSOA ToSOA h s)"
  using assms PoolsOk_MoveToSOA [of s h ToSOA]
  by (simp add: StoreOk_def IndexMapsOk_def HandlesOk_def ArraysTyped_def HandlesFresh_def)

lemma MapArrayOk_dom: "MapArrayOk m arr \<Longrightarrow> dom m = set arr"
  unfolding MapArrayOk_def by (auto simp: in_set_conv_nth dom_def)

lemma MapArrayOk_remove:
  assumes "MapArrayOk m arr"
  shows "\<exists>m' arr'. RemoveFromMapAndArray h (m, arr) = Inr (m', arr')
           \<and> MapArrayOk m' arr' \<and> set arr' = set arr - {h}
           \<and> (h \<notin> set arr \<longrightarrow> m' = m \<and> arr' = arr)"
proof (cases "m h")
  case None
  have "h \<notin> set arr"
    using MapArrayOk_dom [OF assms] None by auto
  then show ?thesis
    using None assms by (simp add: RemoveFromMapAndArray_def)
next
  case (Some i)
  from MapArrayOk_lookup [OF assms Some] have i: "i < length arr" "arr ! i = h"
    by simp_all
  have d: "distinct arr" and mm: "\<And>x j. m x = Some j \<longleftrightarrow> j < length arr \<and> arr ! j = x"
    using assms by (simp_all add: MapArrayOk_def)
  let ?a = "RemoveAtSwap i arr"
  let ?m = "(if i < length ?a then m(?a ! i \<mapsto> i) else m)(h := None)"
  have e: "RemoveFromMapAndArray h (m, arr) = Inr (?m, ?a)"
    using Some i by (simp add: RemoveFromMapAndArray_def Let_def)
  have da: "distinct ?a" and sa: "set ?a = set arr - {h}"
    using RemoveAtSwap_distinct [OF d i(1)] RemoveAtSwap_set [OF d i(1)] i(2) by simp_all
  have la: "length ?a = length arr - 1"
    using i(1) by (simp add: RemoveAtSwap_length)
  have na: "\<And>j. j < length ?a \<Longrightarrow> ?a ! j = (if j = i then last arr else arr ! j)"
    using i(1) la by (simp add: RemoveAtSwap_nth)
  have ne: "arr \<noteq> []" using i(1) by auto
  have lastn: "last arr = arr ! (length arr - 1)" using ne by (simp add: last_conv_nth)
  have hnot: "\<not> (j < length ?a \<and> ?a ! j = h)" for j
    using sa by (metis Diff_iff insertI1 nth_mem)
  have ok: "(?m x = Some j) = (j < length ?a \<and> ?a ! j = x)" for x j
  proof (cases "x = h")
    case True
    then show ?thesis using hnot [of j] by simp
  next
    case xh: False
    show ?thesis
    proof (cases "i < length ?a")
      case False
      then have il: "i = length arr - 1" using i(1) la by simp
      have "?m x = m x" using False xh by simp
      moreover have "(j < length arr \<and> arr ! j = x) = (j < length ?a \<and> ?a ! j = x)"
      proof
        assume j: "j < length arr \<and> arr ! j = x"
        then have ji: "j \<noteq> i" using xh i(2) by auto
        then have "j < length ?a" using j il la by auto
        then show "j < length ?a \<and> ?a ! j = x" using na j ji by auto
      next
        assume j: "j < length ?a \<and> ?a ! j = x"
        then have "j \<noteq> i" using False by auto
        then show "j < length arr \<and> arr ! j = x" using na j la by auto
      qed
      ultimately show ?thesis using mm by simp
    next
      case True
      then have ai: "?a ! i = last arr" using na by simp
      have lh: "last arr \<noteq> h"
        using True hnot [of i] ai by auto
      show ?thesis
      proof (cases "x = last arr")
        case xl: True
        then have "?m x = Some i" using True ai lh by simp
        moreover have "(j < length ?a \<and> ?a ! j = x) = (j = i)"
          using True ai xl da by (metis nth_eq_iff_index_eq)
        ultimately show ?thesis by auto
      next
        case xl: False
        then have "?m x = m x" using True ai xh by simp
        moreover have "(j < length arr \<and> arr ! j = x) = (j < length ?a \<and> ?a ! j = x)"
        proof
          assume j: "j < length arr \<and> arr ! j = x"
          then have ji: "j \<noteq> i" using xh i(2) by auto
          moreover have "j \<noteq> length arr - 1" using j xl lastn by auto
          ultimately show "j < length ?a \<and> ?a ! j = x" using na j la by auto
        next
          assume j: "j < length ?a \<and> ?a ! j = x"
          then have "j \<noteq> i" using ai xl by auto
          then show "j < length arr \<and> arr ! j = x" using na j la by auto
        qed
        ultimately show ?thesis using mm by simp
      qed
    qed
  qed
  have "MapArrayOk ?m ?a"
    unfolding MapArrayOk_def using da ok by blast
  moreover have "h \<in> set arr" using i by auto
  ultimately show ?thesis
    using e sa by (intro exI [of _ ?m] exI [of _ ?a]) simp
qed

lemma InsertToMapAndArray_ok:
  assumes "MapArrayOk m arr"
  shows "MapArrayOk (fst (InsertToMapAndArray h (m, arr))) (snd (InsertToMapAndArray h (m, arr)))
       \<and> set (snd (InsertToMapAndArray h (m, arr))) = insert h (set arr)"
proof (cases "m h")
  case None
  then have "h \<notin> set arr" using MapArrayOk_dom [OF assms] by auto
  then show ?thesis
    using None MapArrayOk_insert [OF assms] by (simp add: InsertToMapAndArray_def)
next
  case (Some i)
  then have "h \<in> set arr" using MapArrayOk_dom [OF assms] by auto
  then show ?thesis
    using Some assms by (auto simp: InsertToMapAndArray_def)
qed

lemma InsertManyToMapAndArray_ok:
  assumes "MapArrayOk m arr" and "distinct hs" and "set hs \<inter> set arr = {}"
  shows "MapArrayOk (fst (InsertManyToMapAndArray hs (m, arr))) (snd (InsertManyToMapAndArray hs (m, arr)))
       \<and> snd (InsertManyToMapAndArray hs (m, arr)) = arr @ hs"
  using MapArrayOk_AddAll [OF assms] by (simp add: InsertManyToMapAndArray_def)

lemma StoreOk_set_active:
  assumes "StoreOk s" and "MapArrayOk m a" and "\<forall>x \<in> set a. LiveDynamic s x"
  shows "StoreOk (s\<lparr>ActiveParticlesToIndex := m, ActiveParticlesArray := a\<rparr>)"
  using assms
  by (simp add: StoreOk_def IndexMapsOk_def HandlesOk_def PoolsOk_def ArraysTyped_def HandlesFresh_def
      LiveDynamic_def LiveClustered_def)

lemma StoreOk_set_active_clustered:
  assumes "StoreOk s" and "MapArrayOk m a" and "\<forall>x \<in> set a. LiveClustered s x"
  shows "StoreOk (s\<lparr>ActiveClusteredToIndex := m, ActiveClusteredArray := a\<rparr>)"
  using assms
  by (simp add: StoreOk_def IndexMapsOk_def HandlesOk_def PoolsOk_def ArraysTyped_def HandlesFresh_def
      LiveDynamic_def LiveClustered_def)

lemma StoreOk_set_non_disabled_clustered:
  assumes "StoreOk s" and "MapArrayOk m a" and "\<forall>x \<in> set a. LiveClustered s x"
  shows "StoreOk (s\<lparr>NonDisabledClusteredToIndex := m, NonDisabledClusteredArray := a\<rparr>)"
  using assms
  by (simp add: StoreOk_def IndexMapsOk_def HandlesOk_def PoolsOk_def ArraysTyped_def HandlesFresh_def
      LiveDynamic_def LiveClustered_def)

lemma StoreOk_maps:
  assumes "StoreOk s"
  shows "MapArrayOk (ActiveParticlesToIndex s) (ActiveParticlesArray s)"
    "MapArrayOk (ActiveClusteredToIndex s) (ActiveClusteredArray s)"
    "MapArrayOk (NonDisabledClusteredToIndex s) (NonDisabledClusteredArray s)"
    "\<And>x. x \<in> set (ActiveParticlesArray s) \<Longrightarrow> LiveDynamic s x"
    "\<And>x. x \<in> set (ActiveClusteredArray s) \<Longrightarrow> LiveClustered s x"
    "\<And>x. x \<in> set (NonDisabledClusteredArray s) \<Longrightarrow> LiveClustered s x"
  using assms by (simp_all add: StoreOk_def IndexMapsOk_def ArraysTyped_def)

lemma RemoveActive_StoreOk:
  assumes "StoreOk s"
  shows "\<exists>m a. RemoveActive h s = Inr (s\<lparr>ActiveParticlesToIndex := m, ActiveParticlesArray := a\<rparr>)
           \<and> StoreOk (s\<lparr>ActiveParticlesToIndex := m, ActiveParticlesArray := a\<rparr>)
           \<and> set a = set (ActiveParticlesArray s) - {h}
           \<and> (h \<notin> set (ActiveParticlesArray s) \<longrightarrow> m = ActiveParticlesToIndex s \<and> a = ActiveParticlesArray s)"
proof -
  from MapArrayOk_remove [OF StoreOk_maps(1) [OF assms], of h] obtain m a where
    r: "RemoveFromMapAndArray h (ActiveParticlesToIndex s, ActiveParticlesArray s) = Inr (m, a)"
    "MapArrayOk m a" "set a = set (ActiveParticlesArray s) - {h}"
    "h \<notin> set (ActiveParticlesArray s) \<longrightarrow> m = ActiveParticlesToIndex s \<and> a = ActiveParticlesArray s"
    by auto
  have "\<forall>x \<in> set a. LiveDynamic s x"
    using r(3) StoreOk_maps(4) [OF assms] by auto
  from StoreOk_set_active [OF assms r(2) this] r show ?thesis
    by (intro exI [of _ m] exI [of _ a]) (simp add: RemoveActive_def then_do_Inr)
qed

lemma RemoveActiveClustered_StoreOk:
  assumes "StoreOk s"
  shows "\<exists>m a. RemoveActiveClustered h s = Inr (s\<lparr>ActiveClusteredToIndex := m, ActiveClusteredArray := a\<rparr>)
           \<and> StoreOk (s\<lparr>ActiveClusteredToIndex := m, ActiveClusteredArray := a\<rparr>)
           \<and> set a = set (ActiveClusteredArray s) - {h}
           \<and> (h \<notin> set (ActiveClusteredArray s) \<longrightarrow> m = ActiveClusteredToIndex s \<and> a = ActiveClusteredArray s)"
proof -
  from MapArrayOk_remove [OF StoreOk_maps(2) [OF assms], of h] obtain m a where
    r: "RemoveFromMapAndArray h (ActiveClusteredToIndex s, ActiveClusteredArray s) = Inr (m, a)"
    "MapArrayOk m a" "set a = set (ActiveClusteredArray s) - {h}"
    "h \<notin> set (ActiveClusteredArray s) \<longrightarrow> m = ActiveClusteredToIndex s \<and> a = ActiveClusteredArray s"
    by auto
  have "\<forall>x \<in> set a. LiveClustered s x"
    using r(3) StoreOk_maps(5) [OF assms] by auto
  from StoreOk_set_active_clustered [OF assms r(2) this] r show ?thesis
    by (intro exI [of _ m] exI [of _ a]) (simp add: RemoveActiveClustered_def then_do_Inr)
qed

lemma RemoveNonDisabledClustered_StoreOk:
  assumes "StoreOk s"
  shows "\<exists>m a. RemoveNonDisabledClustered h s =
               Inr (s\<lparr>NonDisabledClusteredToIndex := m, NonDisabledClusteredArray := a\<rparr>)
           \<and> StoreOk (s\<lparr>NonDisabledClusteredToIndex := m, NonDisabledClusteredArray := a\<rparr>)
           \<and> set a = set (NonDisabledClusteredArray s) - {h}
           \<and> (h \<notin> set (NonDisabledClusteredArray s) \<longrightarrow>
                 m = NonDisabledClusteredToIndex s \<and> a = NonDisabledClusteredArray s)"
proof -
  from MapArrayOk_remove [OF StoreOk_maps(3) [OF assms], of h] obtain m a where
    r: "RemoveFromMapAndArray h (NonDisabledClusteredToIndex s, NonDisabledClusteredArray s) = Inr (m, a)"
    "MapArrayOk m a" "set a = set (NonDisabledClusteredArray s) - {h}"
    "h \<notin> set (NonDisabledClusteredArray s) \<longrightarrow>
       m = NonDisabledClusteredToIndex s \<and> a = NonDisabledClusteredArray s"
    by auto
  have "\<forall>x \<in> set a. LiveClustered s x"
    using r(3) StoreOk_maps(6) [OF assms] by auto
  from StoreOk_set_non_disabled_clustered [OF assms r(2) this] r show ?thesis
    by (intro exI [of _ m] exI [of _ a]) (simp add: RemoveNonDisabledClustered_def then_do_Inr)
qed

lemma StoreOk_InsertActive:
  assumes "StoreOk s" and "LiveDynamic s h"
  shows "StoreOk (InsertActive h s)"
proof -
  let ?ma = "InsertToMapAndArray h (ActiveParticlesToIndex s, ActiveParticlesArray s)"
  from InsertToMapAndArray_ok [OF StoreOk_maps(1) [OF assms(1)], of h]
  have ok: "MapArrayOk (fst ?ma) (snd ?ma)" "set (snd ?ma) = insert h (set (ActiveParticlesArray s))"
    by simp_all
  have "\<forall>x \<in> set (snd ?ma). LiveDynamic s x"
    using ok(2) assms(2) StoreOk_maps(4) [OF assms(1)] by auto
  from StoreOk_set_active [OF assms(1) ok(1) this] show ?thesis
    by (simp add: InsertActive_def Let_def)
qed

lemma StoreOk_InsertActiveClustered:
  assumes "StoreOk s" and "LiveClustered s h"
  shows "StoreOk (InsertActiveClustered h s)"
proof -
  let ?ma = "InsertToMapAndArray h (ActiveClusteredToIndex s, ActiveClusteredArray s)"
  from InsertToMapAndArray_ok [OF StoreOk_maps(2) [OF assms(1)], of h]
  have ok: "MapArrayOk (fst ?ma) (snd ?ma)" "set (snd ?ma) = insert h (set (ActiveClusteredArray s))"
    by simp_all
  have "\<forall>x \<in> set (snd ?ma). LiveClustered s x"
    using ok(2) assms(2) StoreOk_maps(5) [OF assms(1)] by auto
  from StoreOk_set_active_clustered [OF assms(1) ok(1) this] show ?thesis
    by (simp add: InsertActiveClustered_def Let_def)
qed

lemma StoreOk_InsertNonDisabledClustered:
  assumes "StoreOk s" and "LiveClustered s h"
  shows "StoreOk (InsertNonDisabledClustered h s)"
proof -
  let ?ma = "InsertToMapAndArray h (NonDisabledClusteredToIndex s, NonDisabledClusteredArray s)"
  from InsertToMapAndArray_ok [OF StoreOk_maps(3) [OF assms(1)], of h]
  have ok: "MapArrayOk (fst ?ma) (snd ?ma)" "set (snd ?ma) = insert h (set (NonDisabledClusteredArray s))"
    by simp_all
  have "\<forall>x \<in> set (snd ?ma). LiveClustered s x"
    using ok(2) assms(2) StoreOk_maps(6) [OF assms(1)] by auto
  from StoreOk_set_non_disabled_clustered [OF assms(1) ok(1) this] show ?thesis
    by (simp add: InsertNonDisabledClustered_def Let_def)
qed

lemma Live_Insert [simp]:
  "LiveDynamic (InsertActive h s) = LiveDynamic s"
  "LiveClustered (InsertActive h s) = LiveClustered s"
  "LiveDynamic (InsertActiveClustered h s) = LiveDynamic s"
  "LiveClustered (InsertActiveClustered h s) = LiveClustered s"
  "LiveDynamic (InsertNonDisabledClustered h s) = LiveDynamic s"
  "LiveClustered (InsertNonDisabledClustered h s) = LiveClustered s"
  by (simp_all add: LiveDynamic_def LiveClustered_def fun_eq_iff)

lemma StoreOk_live_less: "StoreOk s \<Longrightarrow> Memory s x \<noteq> None \<Longrightarrow> x < NextHandle s"
  by (simp add: StoreOk_def HandlesFresh_def)

lemma StoreOk_array_less:
  assumes "StoreOk s"
  shows "x \<in> set (ActiveParticlesArray s) \<Longrightarrow> x < NextHandle s"
    "x \<in> set (ActiveClusteredArray s) \<Longrightarrow> x < NextHandle s"
    "x \<in> set (NonDisabledClusteredArray s) \<Longrightarrow> x < NextHandle s"
    "x \<in> set (ParticleHandles s) \<Longrightarrow> x < NextHandle s"
    "x \<in> set (Particles s k) \<Longrightarrow> x < NextHandle s"
proof -
  show "x \<in> set (ActiveParticlesArray s) \<Longrightarrow> x < NextHandle s"
    using StoreOk_maps(4) [OF assms, of x] StoreOk_live_less [OF assms, of x]
    by (auto simp: LiveDynamic_def split: option.splits)
  show "x \<in> set (ActiveClusteredArray s) \<Longrightarrow> x < NextHandle s"
    using StoreOk_maps(5) [OF assms, of x] StoreOk_live_less [OF assms, of x]
    by (auto simp: LiveClustered_def split: option.splits)
  show "x \<in> set (NonDisabledClusteredArray s) \<Longrightarrow> x < NextHandle s"
    using StoreOk_maps(6) [OF assms, of x] StoreOk_live_less [OF assms, of x]
    by (auto simp: LiveClustered_def split: option.splits)
  show "x \<in> set (ParticleHandles s) \<Longrightarrow> x < NextHandle s"
    using assms StoreOk_live_less [OF assms, of x] by (auto simp: StoreOk_def HandlesOk_def)
  show "x \<in> set (Particles s k) \<Longrightarrow> x < NextHandle s"
    using assms StoreOk_live_less [OF assms, of x] by (auto simp: StoreOk_def PoolsOk_def)
qed

lemma Fields_CreateParticlesHelper [simp]:
  "fst (CreateParticlesHelper kind n pool Params s) = [NextHandle s ..< NextHandle s + n]"
  "Particles (snd (CreateParticlesHelper kind n pool Params s)) =
     (Particles s)(pool := Particles s pool @ [NextHandle s ..< NextHandle s + n])"
  "ParticleHandles (snd (CreateParticlesHelper kind n pool Params s)) =
     ParticleHandles s @ [NextHandle s ..< NextHandle s + n]"
  "NextHandle (snd (CreateParticlesHelper kind n pool Params s)) = NextHandle s + n"
  "ActiveParticlesToIndex (snd (CreateParticlesHelper kind n pool Params s)) = ActiveParticlesToIndex s"
  "ActiveParticlesArray (snd (CreateParticlesHelper kind n pool Params s)) = ActiveParticlesArray s"
  "ActiveClusteredToIndex (snd (CreateParticlesHelper kind n pool Params s)) = ActiveClusteredToIndex s"
  "ActiveClusteredArray (snd (CreateParticlesHelper kind n pool Params s)) = ActiveClusteredArray s"
  "NonDisabledClusteredToIndex (snd (CreateParticlesHelper kind n pool Params s)) = NonDisabledClusteredToIndex s"
  "NonDisabledClusteredArray (snd (CreateParticlesHelper kind n pool Params s)) = NonDisabledClusteredArray s"
  by (simp_all add: CreateParticlesHelper_def Let_def)

lemma StoreOk_CreateParticlesHelper:
  assumes "StoreOk s"
  shows "StoreOk (snd (CreateParticlesHelper kind n pool Params s))"
proof -
  let ?N = "NextHandle s"
  let ?hs = "[?N ..< ?N + n]"
  let ?s1 = "snd (CreateParticlesHelper kind n pool Params s)"
  let ?PH = "ParticleHandles s"
  have M: "Memory ?s1 x =
     (if ?N \<le> x \<and> x < ?N + n then Some (CreateParticleHandle kind (x - ?N + length ?PH))
      else Memory s x)" for x
    by (rule Memory_CreateParticlesHelper)
  have old: "Memory ?s1 x = Memory s x" if "Memory s x \<noteq> None" for x
    using StoreOk_live_less [OF assms that] by (simp add: M)
  have live: "Memory ?s1 x \<noteq> None" if "Memory s x \<noteq> None \<or> x \<in> set ?hs" for x
    using that by (auto simp: M)
  have ho: "HandlesOk s" and po: "PoolsOk s" using assms by (simp_all add: StoreOk_def)
  have i: "IndexMapsOk ?s1"
    using assms by (simp add: StoreOk_def IndexMapsOk_def)
  have h1: "distinct (ParticleHandles ?s1)"
  proof -
    have "set ?PH \<inter> set ?hs = {}"
      using StoreOk_array_less(4) [OF assms] by fastforce
    then show ?thesis
      using ho by (simp add: HandlesOk_def)
  qed
  have h2: "\<forall>x q. Memory ?s1 x = Some q \<longrightarrow>
      HandleIdx q < length (ParticleHandles ?s1) \<and> ParticleHandles ?s1 ! HandleIdx q = x"
  proof (intro allI impI)
    fix x q assume q: "Memory ?s1 x = Some q"
    show "HandleIdx q < length (ParticleHandles ?s1) \<and> ParticleHandles ?s1 ! HandleIdx q = x"
    proof (cases "?N \<le> x \<and> x < ?N + n")
      case True
      then obtain k where k: "x = ?N + k" "k < n"
        by (metis add_diff_inverse_nat add_less_cancel_left not_less)
      have "q = CreateParticleHandle kind (k + length ?PH)" using q k by (simp add: M)
      then have hq: "HandleIdx q = length ?PH + k" by (simp add: CreateParticleHandle_def)
      have "(?PH @ ?hs) ! (length ?PH + k) = ?hs ! k"
        by (rule nth_append_length_plus)
      also have "\<dots> = x" using k by simp
      finally show ?thesis using k(2) by (simp add: hq)
    next
      case False
      have "Memory s x = Some q" using q unfolding M by (simp only: False if_False)
      then have "HandleIdx q < length ?PH \<and> ?PH ! HandleIdx q = x"
        using ho by (simp add: HandlesOk_def)
      then show ?thesis by (simp add: nth_append)
    qed
  qed
  have h3: "\<forall>x \<in> set (ParticleHandles ?s1). Memory ?s1 x \<noteq> None"
  proof
    fix x assume "x \<in> set (ParticleHandles ?s1)"
    then have "Memory s x \<noteq> None \<or> x \<in> set ?hs"
      using ho by (auto simp: HandlesOk_def)
    then show "Memory ?s1 x \<noteq> None" by (rule live)
  qed
  have h: "HandlesOk ?s1"
    unfolding HandlesOk_def by (intro conjI h1 h2 h3)
  have p: "PoolsOk ?s1"
    unfolding PoolsOk_def
  proof (intro conjI allI ballI)
    fix k
    have "set (Particles s pool) \<inter> set ?hs = {}"
      using StoreOk_array_less(5) [OF assms] by fastforce
    then show "distinct (Particles ?s1 k)"
      using po by (simp add: PoolsOk_def)
    fix x assume "x \<in> set (Particles ?s1 k)"
    then have "Memory s x \<noteq> None \<or> x \<in> set ?hs"
      using po by (auto simp: PoolsOk_def split: if_splits)
    then show "Memory ?s1 x \<noteq> None" by (rule live)
  qed
  have l: "LiveDynamic s x \<Longrightarrow> LiveDynamic ?s1 x" "LiveClustered s x \<Longrightarrow> LiveClustered ?s1 x" for x
    using old [of x] by (auto simp: LiveDynamic_def LiveClustered_def split: option.splits)
  have a: "ArraysTyped ?s1"
    using assms l by (simp add: StoreOk_def ArraysTyped_def)
  have f: "HandlesFresh ?s1"
    unfolding HandlesFresh_def
  proof (intro allI impI)
    fix x assume "Memory ?s1 x \<noteq> None"
    then have "(?N \<le> x \<and> x < ?N + n) \<or> Memory s x \<noteq> None"
      by (auto simp: M split: if_splits)
    then show "x < NextHandle ?s1"
      using StoreOk_live_less [OF assms, of x] by auto
  qed
  show ?thesis
    using i h p a f by (simp add: StoreOk_def)
qed

lemma Created_live:
  assumes "x \<in> set (fst (CreateParticlesHelper kind n pool Params s))"
  shows "Memory (snd (CreateParticlesHelper kind n pool Params s)) x =
           Some (CreateParticleHandle kind (x - NextHandle s + length (ParticleHandles s)))"
  using assms by (simp add: Memory_CreateParticlesHelper)

lemma Created_type [simp]:
  "AsDynamic (CreateParticleHandle kind i) = (kind = Dynamic \<or> kind = Clustered)"
  "AsClustered (CreateParticleHandle kind i) = (kind = Clustered)"
  "AsKinematic (CreateParticleHandle kind i) = (kind \<noteq> Static)"
  "HandleIdx (CreateParticleHandle kind i) = i"
  "Disabled (CreateParticleHandle kind i) = False"
  "pV (CreateParticleHandle kind i) = ZeroVector"
  "pW (CreateParticleHandle kind i) = ZeroVector"
  by (simp_all add: CreateParticleHandle_def DefaultParticle_def AsDynamic_def AsClustered_def
      AsKinematic_def)

lemma Live_InsertMany [simp]:
  "LiveDynamic (InsertManyActive hs s) = LiveDynamic s"
  "LiveClustered (InsertManyActive hs s) = LiveClustered s"
  "LiveDynamic (InsertManyActiveClustered hs s) = LiveDynamic s"
  "LiveClustered (InsertManyActiveClustered hs s) = LiveClustered s"
  "LiveDynamic (InsertManyNonDisabledClustered hs s) = LiveDynamic s"
  "LiveClustered (InsertManyNonDisabledClustered hs s) = LiveClustered s"
  by (simp_all add: LiveDynamic_def LiveClustered_def fun_eq_iff)

lemma Fields_InsertMany [simp]:
  "NextHandle (InsertManyActive hs s) = NextHandle s"
  "NextHandle (InsertManyActiveClustered hs s) = NextHandle s"
  "NextHandle (InsertManyNonDisabledClustered hs s) = NextHandle s"
  "ActiveParticlesArray (InsertManyActive hs s) = ActiveParticlesArray s @ hs"
  "ActiveParticlesArray (InsertManyActiveClustered hs s) = ActiveParticlesArray s"
  "ActiveParticlesArray (InsertManyNonDisabledClustered hs s) = ActiveParticlesArray s"
  "ActiveClusteredArray (InsertManyActive hs s) = ActiveClusteredArray s"
  "ActiveClusteredArray (InsertManyActiveClustered hs s) = ActiveClusteredArray s @ hs"
  "ActiveClusteredArray (InsertManyNonDisabledClustered hs s) = ActiveClusteredArray s"
  "NonDisabledClusteredArray (InsertManyActive hs s) = NonDisabledClusteredArray s"
  "NonDisabledClusteredArray (InsertManyActiveClustered hs s) = NonDisabledClusteredArray s"
  "NonDisabledClusteredArray (InsertManyNonDisabledClustered hs s) = NonDisabledClusteredArray s @ hs"
  by (simp_all add: InsertManyActive_def InsertManyActiveClustered_def
      InsertManyNonDisabledClustered_def InsertManyToMapAndArray_def Let_def)

lemma StoreOk_InsertManyActive:
  assumes "StoreOk s" and "distinct hs" and "\<forall>x \<in> set hs. LiveDynamic s x \<and> x \<notin> set (ActiveParticlesArray s)"
  shows "StoreOk (InsertManyActive hs s)"
proof -
  let ?ma = "InsertManyToMapAndArray hs (ActiveParticlesToIndex s, ActiveParticlesArray s)"
  have "set hs \<inter> set (ActiveParticlesArray s) = {}" using assms(3) by auto
  from InsertManyToMapAndArray_ok [OF StoreOk_maps(1) [OF assms(1)] assms(2) this]
  have ok: "MapArrayOk (fst ?ma) (snd ?ma)" "snd ?ma = ActiveParticlesArray s @ hs"
    by blast+
  have "\<forall>x \<in> set (snd ?ma). LiveDynamic s x"
    using ok(2) assms(3) StoreOk_maps(4) [OF assms(1)] by auto
  from StoreOk_set_active [OF assms(1) ok(1) this] show ?thesis
    by (simp add: InsertManyActive_def Let_def)
qed

lemma StoreOk_InsertManyActiveClustered:
  assumes "StoreOk s" and "distinct hs" and "\<forall>x \<in> set hs. LiveClustered s x \<and> x \<notin> set (ActiveClusteredArray s)"
  shows "StoreOk (InsertManyActiveClustered hs s)"
proof -
  let ?ma = "InsertManyToMapAndArray hs (ActiveClusteredToIndex s, ActiveClusteredArray s)"
  have "set hs \<inter> set (ActiveClusteredArray s) = {}" using assms(3) by auto
  from InsertManyToMapAndArray_ok [OF StoreOk_maps(2) [OF assms(1)] assms(2) this]
  have ok: "MapArrayOk (fst ?ma) (snd ?ma)" "snd ?ma = ActiveClusteredArray s @ hs"
    by blast+
  have "\<forall>x \<in> set (snd ?ma). LiveClustered s x"
    using ok(2) assms(3) StoreOk_maps(5) [OF assms(1)] by auto
  from StoreOk_set_active_clustered [OF assms(1) ok(1) this] show ?thesis
    by (simp add: InsertManyActiveClustered_def Let_def)
qed

lemma StoreOk_InsertManyNonDisabledClustered:
  assumes "StoreOk s" and "distinct hs"
    and "\<forall>x \<in> set hs. LiveClustered s x \<and> x \<notin> set (NonDisabledClusteredArray s)"
  shows "StoreOk (InsertManyNonDisabledClustered hs s)"
proof -
  let ?ma = "InsertManyToMapAndArray hs (NonDisabledClusteredToIndex s, NonDisabledClusteredArray s)"
  have "set hs \<inter> set (NonDisabledClusteredArray s) = {}" using assms(3) by auto
  from InsertManyToMapAndArray_ok [OF StoreOk_maps(3) [OF assms(1)] assms(2) this]
  have ok: "MapArrayOk (fst ?ma) (snd ?ma)" "snd ?ma = NonDisabledClusteredArray s @ hs"
    by blast+
  have "\<forall>x \<in> set (snd ?ma). LiveClustered s x"
    using ok(2) assms(3) StoreOk_maps(6) [OF assms(1)] by auto
  from StoreOk_set_non_disabled_clustered [OF assms(1) ok(1) this] show ?thesis
    by (simp add: InsertManyNonDisabledClustered_def Let_def)
qed

lemma Created_fresh:
  assumes "StoreOk s" and "x \<in> set (fst (CreateParticlesHelper kind n pool Params s))"
  shows "x \<notin> set (ActiveParticlesArray s)" "x \<notin> set (ActiveClusteredArray s)"
    "x \<notin> set (NonDisabledClusteredArray s)"
  using assms(2) StoreOk_array_less(1-3) [OF assms(1), of x] by auto

lemma StoreOk_Create:
  assumes "StoreOk s"
  shows "StoreOk (snd (CreateStaticParticles n Params s))"
    "StoreOk (snd (CreateKinematicParticles n Params s))"
    "StoreOk (snd (CreateDynamicParticles n Params s))"
    "StoreOk (snd (CreateClusteredParticles n Params s))"
proof -
  show "StoreOk (snd (CreateStaticParticles n Params s))"
    using StoreOk_CreateParticlesHelper [OF assms] by (simp add: CreateStaticParticles_def Let_def)
  show "StoreOk (snd (CreateKinematicParticles n Params s))"
    using StoreOk_CreateParticlesHelper [OF assms] by (simp add: CreateKinematicParticles_def Let_def)
  show "StoreOk (snd (CreateDynamicParticles n Params s))"
  proof -
    let ?pool = "if bDisabled Params then DynamicDisabledParticles else DynamicParticles"
    let ?c = "CreateParticlesHelper Dynamic n ?pool Params s"
    have ok: "StoreOk (snd ?c)" by (rule StoreOk_CreateParticlesHelper [OF assms])
    have "\<forall>x \<in> set (fst ?c). LiveDynamic (snd ?c) x \<and> x \<notin> set (ActiveParticlesArray (snd ?c))"
    proof
      fix x assume x: "x \<in> set (fst ?c)"
      from Created_live [OF x] Created_fresh(1) [OF assms x]
      show "LiveDynamic (snd ?c) x \<and> x \<notin> set (ActiveParticlesArray (snd ?c))"
        by (simp add: LiveDynamic_def)
    qed
    then have "StoreOk (InsertManyActive (fst ?c) (snd ?c))"
      by (intro StoreOk_InsertManyActive ok) simp_all
    then show ?thesis
      using ok by (simp add: CreateDynamicParticles_def Let_def)
  qed
  show "StoreOk (snd (CreateClusteredParticles n Params s))"
  proof -
    let ?c = "CreateParticlesHelper Clustered n ClusteredParticles Params s"
    let ?s1 = "if \<not> bDisabled Params then InsertManyNonDisabledClustered (fst ?c) (snd ?c) else snd ?c"
    let ?s2 = "if \<not> bStartSleeping Params
               then InsertManyActiveClustered (fst ?c) (InsertManyActive (fst ?c) ?s1) else ?s1"
    have ok: "StoreOk (snd ?c)" by (rule StoreOk_CreateParticlesHelper [OF assms])
    have new: "LiveClustered (snd ?c) x \<and> LiveDynamic (snd ?c) x
        \<and> x \<notin> set (ActiveParticlesArray (snd ?c)) \<and> x \<notin> set (ActiveClusteredArray (snd ?c))
        \<and> x \<notin> set (NonDisabledClusteredArray (snd ?c))" if x: "x \<in> set (fst ?c)" for x
      using Created_live [OF x] Created_fresh [OF assms x]
      by (simp add: LiveDynamic_def LiveClustered_def)
    have d: "distinct (fst ?c)" by simp
    have ok1: "StoreOk ?s1"
    proof (cases "bDisabled Params")
      case True
      then show ?thesis using ok by simp
    next
      case False
      have "StoreOk (InsertManyNonDisabledClustered (fst ?c) (snd ?c))"
        using new by (intro StoreOk_InsertManyNonDisabledClustered ok d) blast
      then show ?thesis using False by simp
    qed
    have new1: "LiveClustered ?s1 x \<and> LiveDynamic ?s1 x
        \<and> x \<notin> set (ActiveParticlesArray ?s1) \<and> x \<notin> set (ActiveClusteredArray ?s1)"
      if x: "x \<in> set (fst ?c)" for x
      using new [OF x] by (cases "bDisabled Params") simp_all
    have ok2: "StoreOk ?s2"
    proof (cases "bStartSleeping Params")
      case True
      then show ?thesis using ok1 by simp
    next
      case False
      have a: "StoreOk (InsertManyActive (fst ?c) ?s1)"
        using new1 by (intro StoreOk_InsertManyActive ok1 d) blast
      have "StoreOk (InsertManyActiveClustered (fst ?c) (InsertManyActive (fst ?c) ?s1))"
      proof (intro StoreOk_InsertManyActiveClustered a d ballI)
        fix x assume "x \<in> set (fst ?c)"
        from new1 [OF this]
        show "LiveClustered (InsertManyActive (fst ?c) ?s1) x
            \<and> x \<notin> set (ActiveClusteredArray (InsertManyActive (fst ?c) ?s1))"
          by simp
      qed
      then show ?thesis using False by simp
    qed
    have "snd (CreateClusteredParticles n Params s) = UpdateViews ?s2"
      by (simp add: CreateClusteredParticles_def Let_def)
    then show ?thesis using ok2 by simp
  qed
qed

lemma Live_Memory:
  "Memory s' = Memory s \<Longrightarrow> LiveDynamic s' h = LiveDynamic s h"
  "Memory s' = Memory s \<Longrightarrow> LiveClustered s' h = LiveClustered s h"
  by (simp_all add: LiveDynamic_def LiveClustered_def)

lemma StoreOk_Remove:
  assumes "StoreOk s"
  shows "RemoveActive h s = Inr s' \<Longrightarrow> StoreOk s'"
    "RemoveActiveClustered h s = Inr s' \<Longrightarrow> StoreOk s'"
    "RemoveNonDisabledClustered h s = Inr s' \<Longrightarrow> StoreOk s'"
proof -
  from RemoveActive_StoreOk [OF assms, of h] obtain m a where
    "RemoveActive h s = Inr (s\<lparr>ActiveParticlesToIndex := m, ActiveParticlesArray := a\<rparr>)"
    "StoreOk (s\<lparr>ActiveParticlesToIndex := m, ActiveParticlesArray := a\<rparr>)"
    by blast
  then show "RemoveActive h s = Inr s' \<Longrightarrow> StoreOk s'" by simp
  from RemoveActiveClustered_StoreOk [OF assms, of h] obtain m a where
    "RemoveActiveClustered h s = Inr (s\<lparr>ActiveClusteredToIndex := m, ActiveClusteredArray := a\<rparr>)"
    "StoreOk (s\<lparr>ActiveClusteredToIndex := m, ActiveClusteredArray := a\<rparr>)"
    by blast
  then show "RemoveActiveClustered h s = Inr s' \<Longrightarrow> StoreOk s'" by simp
  from RemoveNonDisabledClustered_StoreOk [OF assms, of h] obtain m a where
    "RemoveNonDisabledClustered h s = Inr (s\<lparr>NonDisabledClusteredToIndex := m, NonDisabledClusteredArray := a\<rparr>)"
    "StoreOk (s\<lparr>NonDisabledClusteredToIndex := m, NonDisabledClusteredArray := a\<rparr>)"
    by blast
  then show "RemoveNonDisabledClustered h s = Inr s' \<Longrightarrow> StoreOk s'" by simp
qed

lemma StoreOk_SetDynamicParticleSOA:
  assumes "StoreOk s" and "SetDynamicParticleSOA h s = Inr s'"
  shows "StoreOk s'"
proof -
  obtain p where p: "Memory s h = Some p"
    using assms(2) by (cases "Memory s h") (simp_all add: SetDynamicParticleSOA_def)
  have d: "AsDynamic p"
    using assms(2) p by (cases "AsDynamic p") (simp_all add: SetDynamicParticleSOA_def)
  have "s' = UpdateViews
                 (case ObjectState p of
                    StateKinematic \<Rightarrow> MoveToSOA DynamicKinematicParticles h s
                  | StateDynamic \<Rightarrow> MoveToSOA DynamicParticles h s
                  | _ \<Rightarrow> MoveToSOA DynamicParticles h s)"
    using assms(2) p d by (simp add: SetDynamicParticleSOA_def)
  then show ?thesis
    using StoreOk_MoveToSOA [OF assms(1), of h] p by (cases "ObjectState p") simp_all
qed

lemma StoreOk_DisableParticle:
  assumes "StoreOk s" and "DisableParticle h s = Inr s'"
  shows "StoreOk s'"
proof -
  obtain p where p: "Memory s h = Some p"
    using assms(2) by (cases "Memory s h") (simp_all add: DisableParticle_def)
  have live: "Memory s h \<noteq> None" using p by simp
  show ?thesis
  proof (cases "AsDynamic p")
    case False
    then have "s' = UpdateViews (MoveToSOA KinematicDisabledParticles h s)
        \<or> s' = UpdateViews (MoveToSOA StaticDisabledParticles h s)"
      using assms(2) p by (cases "AsKinematic p") (auto simp: DisableParticle_def)
    then show ?thesis
      using StoreOk_MoveToSOA [OF assms(1) live] by auto
  next
    case True
    let ?s1 = "WriteParticle h (p\<lparr>Disabled := True, pV := ZeroVector, pW := ZeroVector\<rparr>) s"
    have ok1: "StoreOk ?s1"
      by (rule StoreOk_WriteParticle [OF assms(1) p]) simp_all
    have e: "DisableParticle h s =
        then_do
          (if AsClustered p
           then then_do (RemoveNonDisabledClustered h ?s1) (RemoveActiveClustered h)
           else Inr (MoveToSOA DynamicDisabledParticles h ?s1))
          (\<lambda>s2. then_do (RemoveActive h s2) (\<lambda>s3. Inr (UpdateViews s3)))"
      using p True by (simp add: DisableParticle_def)
    from assms(2) [unfolded e then_do_eq_Inr] obtain s2 s3 where
      s2: "(if AsClustered p
            then then_do (RemoveNonDisabledClustered h ?s1) (RemoveActiveClustered h)
            else Inr (MoveToSOA DynamicDisabledParticles h ?s1)) = Inr s2"
      and s3: "RemoveActive h s2 = Inr s3" and s': "UpdateViews s3 = s'"
      by auto
    have ok2: "StoreOk s2"
    proof (cases "AsClustered p")
      case True
      then obtain sa where sa: "RemoveNonDisabledClustered h ?s1 = Inr sa"
        "RemoveActiveClustered h sa = Inr s2"
        using s2 by (auto simp: then_do_eq_Inr)
      from StoreOk_Remove(3) [OF ok1 sa(1)] have "StoreOk sa" .
      from StoreOk_Remove(2) [OF this sa(2)] show ?thesis .
    next
      case False
      then have "s2 = MoveToSOA DynamicDisabledParticles h ?s1" using s2 by simp
      then show ?thesis using StoreOk_MoveToSOA [OF ok1, of h] by simp
    qed
    from StoreOk_Remove(1) [OF ok2 s3] s' show ?thesis by auto
  qed
qed

lemma StoreOk_EnableParticle:
  assumes "StoreOk s" and "EnableParticle h s = Inr s'"
  shows "StoreOk s'"
proof -
  obtain p where p: "Memory s h = Some p"
    using assms(2) by (cases "Memory s h") (simp_all add: EnableParticle_def)
  have live: "Memory s h \<noteq> None" using p by simp
  show ?thesis
  proof (cases "AsDynamic p")
    case False
    then have "s' = UpdateViews (MoveToSOA KinematicParticles h s)
        \<or> s' = UpdateViews (MoveToSOA StaticParticles h s)"
      using assms(2) p by (cases "AsKinematic p") (auto simp: EnableParticle_def)
    then show ?thesis
      using StoreOk_MoveToSOA [OF assms(1) live] by auto
  next
    case True
    have e: "EnableParticle h s =
        then_do
          (if AsClustered p
           then Inr (if \<not> Sleeping p then InsertActiveClustered h (InsertNonDisabledClustered h s)
                     else InsertNonDisabledClustered h s)
           else SetDynamicParticleSOA h s)
          (\<lambda>s2. Inr (UpdateViews (WriteParticle h (p\<lparr>Disabled := False\<rparr>)
                        (if \<not> Sleeping p then InsertActive h s2 else s2))))"
      using p True by (simp add: EnableParticle_def)
    from assms(2) [unfolded e then_do_eq_Inr] obtain s2 where
      s2: "(if AsClustered p
           then Inr (if \<not> Sleeping p then InsertActiveClustered h (InsertNonDisabledClustered h s)
                     else InsertNonDisabledClustered h s)
           else SetDynamicParticleSOA h s) = Inr s2"
      and r: "UpdateViews (WriteParticle h (p\<lparr>Disabled := False\<rparr>)
                        (if \<not> Sleeping p then InsertActive h s2 else s2)) = s'"
      by auto
    have ld: "LiveDynamic s h" using p True by (simp add: LiveDynamic_def)
    have ok2: "StoreOk s2 \<and> Memory s2 = Memory s"
    proof (cases "AsClustered p")
      case True
      then have lc: "LiveClustered s h" using p by (simp add: LiveClustered_def)
      have a: "StoreOk (InsertNonDisabledClustered h s)"
        by (rule StoreOk_InsertNonDisabledClustered [OF assms(1) lc])
      have b: "StoreOk (InsertActiveClustered h (InsertNonDisabledClustered h s))"
        by (rule StoreOk_InsertActiveClustered [OF a]) (simp add: lc)
      show ?thesis
      proof (cases "Sleeping p")
        case sl: True
        have "s2 = InsertNonDisabledClustered h s" using s2 True sl by simp
        then show ?thesis using a by simp
      next
        case sl: False
        have "s2 = InsertActiveClustered h (InsertNonDisabledClustered h s)" using s2 True sl by simp
        then show ?thesis using b by simp
      qed
    next
      case False
      then have sd: "SetDynamicParticleSOA h s = Inr s2" using s2 by simp
      from StoreOk_SetDynamicParticleSOA [OF assms(1) sd] Memory_SetDynamicParticleSOA [OF sd]
      show ?thesis by simp
    qed
    let ?s3 = "if \<not> Sleeping p then InsertActive h s2 else s2"
    have ld2: "LiveDynamic s2 h"
      using ld Live_Memory(1) [OF conjunct2 [OF ok2], of h] by simp
    have ok3: "StoreOk ?s3"
    proof (cases "Sleeping p")
      case True
      then show ?thesis using ok2 by simp
    next
      case False
      have "StoreOk (InsertActive h s2)"
        by (rule StoreOk_InsertActive [OF conjunct1 [OF ok2] ld2])
      then show ?thesis using False by simp
    qed
    have m3: "Memory ?s3 h = Some p"
      using ok2 p by (cases "Sleeping p") simp_all
    have "StoreOk (WriteParticle h (p\<lparr>Disabled := False\<rparr>) ?s3)"
      by (rule StoreOk_WriteParticle [OF ok3 m3]) simp_all
    then have "StoreOk (UpdateViews (WriteParticle h (p\<lparr>Disabled := False\<rparr>) ?s3))"
      by (simp only: StoreOk_UpdateViews)
    then show ?thesis unfolding r .
  qed
qed

lemma StoreOk_ActivateParticle:
  assumes "StoreOk s" and "ActivateParticle h s = Inr s'"
  shows "StoreOk s'"
proof -
  obtain p where p: "Memory s h = Some p"
    using assms(2) by (cases "Memory s h") (simp_all add: ActivateParticle_def)
  show ?thesis
  proof (cases "AsDynamic p")
    case False
    then have "s' = UpdateViews s" using assms(2) p by (auto simp: ActivateParticle_def)
    then show ?thesis using assms(1) by simp
  next
    case True
    then have nd: "\<not> Disabled p"
      using assms(2) p by (cases "Disabled p") (simp_all add: ActivateParticle_def)
    let ?s1 = "if AsClustered p then InsertActiveClustered h s else s"
    have s': "s' = UpdateViews (InsertActive h ?s1)"
      using assms(2) p True nd by (simp add: ActivateParticle_def)
    have ok1: "StoreOk ?s1"
      using assms(1) StoreOk_InsertActiveClustered [OF assms(1), of h] p
      by (simp add: LiveClustered_def)
    have "LiveDynamic ?s1 h" using p True by (simp add: LiveDynamic_def)
    from StoreOk_InsertActive [OF ok1 this] show ?thesis by (simp add: s')
  qed
qed

lemma StoreOk_DeactivateParticle:
  assumes "StoreOk s" and "DeactivateParticle h s = Inr s'"
  shows "StoreOk s'"
proof -
  obtain p where p: "Memory s h = Some p"
    using assms(2) by (cases "Memory s h") (simp_all add: DeactivateParticle_def)
  show ?thesis
  proof (cases "AsDynamic p")
    case False
    then have "s' = UpdateViews s" using assms(2) p by (auto simp: DeactivateParticle_def)
    then show ?thesis using assms(1) by simp
  next
    case True
    then obtain s1 s2 where s1: "(if AsClustered p then RemoveActiveClustered h s else Inr s) = Inr s1"
      and s2: "RemoveActive h s1 = Inr s2" and s': "s' = UpdateViews s2"
      using assms(2) p by (cases "Disabled p") (auto simp: DeactivateParticle_def then_do_eq_Inr)
    have "StoreOk s1"
      using s1 assms(1) StoreOk_Remove(2) [OF assms(1), of h s1] by (cases "AsClustered p") auto
    from StoreOk_Remove(1) [OF this s2] show ?thesis by (simp add: s')
  qed
qed

lemma StoreOk_DeactivateParticles:
  "StoreOk s \<Longrightarrow> DeactivateParticles hs s = Inr s' \<Longrightarrow> StoreOk s'"
proof (induction hs arbitrary: s)
  case Nil
  then show ?case by simp
next
  case (Cons h hs)
  then obtain s1 where "DeactivateParticle h s = Inr s1" "DeactivateParticles hs s1 = Inr s'"
    by (auto simp: then_do_eq_Inr)
  then show ?case using Cons.IH Cons.prems(1) StoreOk_DeactivateParticle by blast
qed

lemma DestroyHandleSwap_effect:
  assumes "HandlesOk s" and "Memory s h = Some p"
  shows "\<exists>s'. DestroyHandleSwap h s = Inr s'
     \<and> ParticleHandles s' = RemoveAtSwap (HandleIdx p) (ParticleHandles s)
     \<and> set (ParticleHandles s') = set (ParticleHandles s) - {h}
     \<and> Memory s' h = None
     \<and> (\<forall>x. x \<noteq> h \<longrightarrow> rel_option (\<lambda>q' q. \<exists>i. q' = q\<lparr>HandleIdx := i\<rparr>) (Memory s' x) (Memory s x))
     \<and> HandlesOk s'
     \<and> Particles s' = (\<lambda>k. RemoveFromPool k h (Particles s k))
     \<and> ActiveParticlesToIndex s' = ActiveParticlesToIndex s
     \<and> ActiveParticlesArray s' = ActiveParticlesArray s
     \<and> ActiveClusteredToIndex s' = ActiveClusteredToIndex s
     \<and> ActiveClusteredArray s' = ActiveClusteredArray s
     \<and> NonDisabledClusteredToIndex s' = NonDisabledClusteredToIndex s
     \<and> NonDisabledClusteredArray s' = NonDisabledClusteredArray s
     \<and> NextHandle s' = NextHandle s"
proof -
  let ?PH = "ParticleHandles s"
  let ?i = "HandleIdx p"
  have d: "distinct ?PH"
    and idx: "\<And>x q. Memory s x = Some q \<Longrightarrow> HandleIdx q < length ?PH \<and> ?PH ! HandleIdx q = x"
    and live: "\<And>x. x \<in> set ?PH \<Longrightarrow> Memory s x \<noteq> None"
    using assms(1) by (auto simp: HandlesOk_def)
  have i: "?i < length ?PH" "?PH ! ?i = h"
    using idx [OF assms(2)] by simp_all
  let ?H = "RemoveAtSwap ?i ?PH"
  let ?F = "(Memory s)(h := None)"
  let ?R = "if ?i < length ?H
       then (case ?F (?H ! ?i) of None \<Rightarrow> ?F
             | Some Moved \<Rightarrow> ?F(?H ! ?i \<mapsto> Moved\<lparr>HandleIdx := ?i\<rparr>))
       else ?F"
  let ?s' = "s\<lparr>ParticleHandles := ?H, Memory := ?R,
          Particles := (\<lambda>k. RemoveFromPool k h (Particles s k))\<rparr>"
  have e: "DestroyHandleSwap h s = Inr ?s'"
    using assms(2) i(1) by (simp add: DestroyHandleSwap_def Let_def)
  have dH: "distinct ?H" and sH: "set ?H = set ?PH - {h}"
    using RemoveAtSwap_distinct [OF d i(1)] RemoveAtSwap_set [OF d i(1)] i(2) by simp_all
  have lH: "length ?H = length ?PH - 1"
    using i(1) by (simp add: RemoveAtSwap_length)
  have nH: "\<And>j. j < length ?H \<Longrightarrow> ?H ! j = (if j = ?i then last ?PH else ?PH ! j)"
    using i(1) lH by (simp add: RemoveAtSwap_nth)
  have hnot: "h \<notin> set ?H" using sH by simp
  have Rh: "?R h = None"
    by (auto split: option.splits)
  have Rx: "?R x = (if ?i < length ?H \<and> x = ?H ! ?i
                    then map_option (\<lambda>q. q\<lparr>HandleIdx := ?i\<rparr>) (Memory s x)
                    else if x = h then None else Memory s x)" for x
  proof (cases "?i < length ?H")
    case False
    then show ?thesis by simp
  next
    case True
    then have "?H ! ?i \<in> set ?H" by simp
    then have ne: "?H ! ?i \<noteq> h" using hnot by auto
    then have "?F (?H ! ?i) = Memory s (?H ! ?i)" by simp
    moreover have "Memory s (?H ! ?i) \<noteq> None"
      using live sH \<open>?H ! ?i \<in> set ?H\<close> by auto
    ultimately show ?thesis using True ne by (auto split: option.splits)
  qed
  have p1: "distinct (ParticleHandles ?s')" using dH by simp
  have p2: "\<forall>x q. Memory ?s' x = Some q \<longrightarrow>
      HandleIdx q < length (ParticleHandles ?s') \<and> ParticleHandles ?s' ! HandleIdx q = x"
  proof (intro allI impI)
    fix x q assume "Memory ?s' x = Some q"
    then have q: "?R x = Some q" by simp
    show "HandleIdx q < length (ParticleHandles ?s') \<and> ParticleHandles ?s' ! HandleIdx q = x"
    proof (cases "?i < length ?H \<and> x = ?H ! ?i")
      case True
      then obtain q0 where "Memory s x = Some q0" "q = q0\<lparr>HandleIdx := ?i\<rparr>"
        using q unfolding Rx by auto
      then show ?thesis using True by simp
    next
      case False
      then have xh: "x \<noteq> h" and m: "Memory s x = Some q"
        using q unfolding Rx by (auto split: if_splits)
      from idx [OF m] have j: "HandleIdx q < length ?PH" "?PH ! HandleIdx q = x" by simp_all
      have ji: "HandleIdx q \<noteq> ?i" using j(2) i(2) xh by auto
      have jl: "HandleIdx q \<noteq> length ?PH - 1"
      proof
        assume l: "HandleIdx q = length ?PH - 1"
        then have il: "?i < length ?H" using ji i(1) lH by simp
        have "?PH \<noteq> []" using i(1) by auto
        then have "last ?PH = x"
          using j(2) l by (simp add: last_conv_nth)
        then have "?H ! ?i = x" using nH il by simp
        with il show False using False by simp
      qed
      then have "HandleIdx q < length ?H" using j(1) lH by simp
      then show ?thesis using nH ji j(2) by simp
    qed
  qed
  have p3: "\<forall>x \<in> set (ParticleHandles ?s'). Memory ?s' x \<noteq> None"
  proof
    fix x assume "x \<in> set (ParticleHandles ?s')"
    then have x: "x \<in> set ?PH" "x \<noteq> h" using sH by auto
    then have "Memory s x \<noteq> None" using live by simp
    then show "Memory ?s' x \<noteq> None"
      using x(2) by (auto simp: Rx simp del: fun_upd_apply)
  qed
  have ok: "HandlesOk ?s'"
    unfolding HandlesOk_def by (intro conjI p1 p2 p3)
  have mh: "Memory ?s' h = None" using Rh by simp
  have rel: "\<forall>x. x \<noteq> h \<longrightarrow>
      rel_option (\<lambda>q' q. \<exists>i. q' = q\<lparr>HandleIdx := i\<rparr>) (Memory ?s' x) (Memory s x)"
  proof (intro allI impI)
    fix x assume xh: "x \<noteq> h"
    have m: "Memory ?s' x = ?R x" by simp
    show "rel_option (\<lambda>q' q. \<exists>i. q' = q\<lparr>HandleIdx := i\<rparr>) (Memory ?s' x) (Memory s x)"
    proof (cases "Memory s x")
      case None
      then show ?thesis unfolding m Rx using xh by auto
    next
      case (Some q)
      have "\<exists>i. q = q\<lparr>HandleIdx := i\<rparr>"
        by (rule exI [of _ "HandleIdx q"]) simp
      then show ?thesis unfolding m Rx using xh Some by (auto simp del: fun_upd_apply)
    qed
  qed
  have ph: "ParticleHandles ?s' = ?H" "set (ParticleHandles ?s') = set ?PH - {h}"
    using sH by simp_all
  show ?thesis
    using e ph mh rel ok
    by (intro exI [of _ ?s'] conjI) simp_all
qed

lemma ViewsCurrent_UpdateViews: "ViewsCurrent (UpdateViews s)"
  by (simp add: ViewsCurrent_def UpdateViews_def GetNonDisabledView_def GetNonDisabledDynamicView_def
      GetActiveParticlesView_def GetAllParticlesView_def GetActiveKinematicParticlesView_def)

lemma not_InSomeView:
  assumes "ViewsCurrent s" and "\<forall>k. h \<notin> set (Particles s k)"
    and "h \<notin> set (ActiveParticlesArray s)" and "h \<notin> set (NonDisabledClusteredArray s)"
  shows "\<not> InSomeView h s"
  using assms by (simp add: ViewsCurrent_def InSomeView_def)

lemma StoreOk_not_live:
  assumes "StoreOk s"
  shows "\<not> LiveDynamic s h \<Longrightarrow> h \<notin> set (ActiveParticlesArray s)"
    "\<not> LiveClustered s h \<Longrightarrow> h \<notin> set (ActiveClusteredArray s)"
    "\<not> LiveClustered s h \<Longrightarrow> h \<notin> set (NonDisabledClusteredArray s)"
  using StoreOk_maps(4-6) [OF assms, of h] by auto

lemma DestroyHandleSwap_StoreOk:
  assumes "StoreOk s" and "Memory s h = Some p" and "DestroyHandleSwap h s = Inr s'"
    and "h \<notin> set (ActiveParticlesArray s)" and "h \<notin> set (ActiveClusteredArray s)"
    and "h \<notin> set (NonDisabledClusteredArray s)"
  shows "StoreOk s'"
proof -
  have ho: "HandlesOk s" and po: "PoolsOk s" using assms(1) by (simp_all add: StoreOk_def)
  from DestroyHandleSwap_effect [OF ho assms(2)] assms(3) have
    mh: "Memory s' h = None"
    and rel: "\<And>x. x \<noteq> h \<Longrightarrow> rel_option (\<lambda>q' q. \<exists>i. q' = q\<lparr>HandleIdx := i\<rparr>) (Memory s' x) (Memory s x)"
    and hok: "HandlesOk s'"
    and ps: "Particles s' = (\<lambda>k. RemoveFromPool k h (Particles s k))"
    and fr: "ActiveParticlesToIndex s' = ActiveParticlesToIndex s"
      "ActiveParticlesArray s' = ActiveParticlesArray s"
      "ActiveClusteredToIndex s' = ActiveClusteredToIndex s"
      "ActiveClusteredArray s' = ActiveClusteredArray s"
      "NonDisabledClusteredToIndex s' = NonDisabledClusteredToIndex s"
      "NonDisabledClusteredArray s' = NonDisabledClusteredArray s"
      "NextHandle s' = NextHandle s"
    by auto
  have none: "Memory s' x = None \<longleftrightarrow> Memory s x = None" if "x \<noteq> h" for x
    using rel [OF that] by (cases "Memory s x"; cases "Memory s' x") simp_all
  have ld: "LiveDynamic s' x = LiveDynamic s x" "LiveClustered s' x = LiveClustered s x"
    if "x \<noteq> h" for x
    using rel [OF that]
    by (cases "Memory s x"; cases "Memory s' x";
        auto simp: LiveDynamic_def LiveClustered_def AsDynamic_def AsClustered_def)+
  have i: "IndexMapsOk s'"
    using assms(1) by (simp add: StoreOk_def IndexMapsOk_def fr)
  have p: "PoolsOk s'"
    unfolding PoolsOk_def
  proof (intro allI conjI ballI)
    fix k
    have d: "distinct (Particles s k)" and l: "\<And>x. x \<in> set (Particles s k) \<Longrightarrow> Memory s x \<noteq> None"
      using po by (auto simp: PoolsOk_def)
    from RemoveFromPool_distinct_set [OF d, of k h]
    show "distinct (Particles s' k)" by (simp add: ps)
    fix x assume "x \<in> set (Particles s' k)"
    then have "x \<in> set (Particles s k)" "x \<noteq> h"
      using RemoveFromPool_distinct_set [OF d, of k h] by (auto simp: ps)
    then show "Memory s' x \<noteq> None" using l none by simp
  qed
  have a: "ArraysTyped s'"
    unfolding ArraysTyped_def fr
  proof (intro conjI ballI)
    fix x assume x: "x \<in> set (ActiveParticlesArray s)"
    then have "x \<noteq> h" using assms(4) by auto
    then show "LiveDynamic s' x" using ld StoreOk_maps(4) [OF assms(1) x] by simp
  next
    fix x assume x: "x \<in> set (ActiveClusteredArray s)"
    then have "x \<noteq> h" using assms(5) by auto
    then show "LiveClustered s' x" using ld StoreOk_maps(5) [OF assms(1) x] by simp
  next
    fix x assume x: "x \<in> set (NonDisabledClusteredArray s)"
    then have "x \<noteq> h" using assms(6) by auto
    then show "LiveClustered s' x" using ld StoreOk_maps(6) [OF assms(1) x] by simp
  qed
  have f: "HandlesFresh s'"
    unfolding HandlesFresh_def
  proof (intro allI impI)
    fix x assume x: "Memory s' x \<noteq> None"
    then have "x \<noteq> h" using mh by auto
    then have "Memory s x \<noteq> None" using none x by simp
    then show "x < NextHandle s'" using StoreOk_live_less [OF assms(1)] by (simp add: fr)
  qed
  show ?thesis
    using i hok p a f by (simp add: StoreOk_def)
qed

lemma DestroyParticle_destroys:
  assumes "StoreOk s" and "Memory s h = Some p" and "\<not> AsClustered p"
  shows "\<exists>s'. DestroyParticle h s = Inr s' \<and> StoreOk s' \<and> ViewsCurrent s'
     \<and> set (ActiveParticlesArray s') = set (ActiveParticlesArray s) - {h}
     \<and> (\<not> AsDynamic p \<longrightarrow> ActiveParticlesArray s' = ActiveParticlesArray s
            \<and> ActiveParticlesToIndex s' = ActiveParticlesToIndex s)
     \<and> ActiveClusteredToIndex s' = ActiveClusteredToIndex s
     \<and> ActiveClusteredArray s' = ActiveClusteredArray s
     \<and> NonDisabledClusteredToIndex s' = NonDisabledClusteredToIndex s
     \<and> NonDisabledClusteredArray s' = NonDisabledClusteredArray s
     \<and> ParticleHandles s' = RemoveAtSwap (HandleIdx p) (ParticleHandles s)
     \<and> set (ParticleHandles s') = set (ParticleHandles s) - {h}
     \<and> Memory s' h = None
     \<and> (\<forall>x. x \<noteq> h \<longrightarrow> rel_option (\<lambda>q' q. \<exists>i. q' = q\<lparr>HandleIdx := i\<rparr>) (Memory s' x) (Memory s x))
     \<and> (\<forall>k. set (Particles s' k) = set (Particles s k) - {h})
     \<and> Particles s' = (\<lambda>k. RemoveFromPool k h (Particles s k))
     \<and> \<not> InSomeView h s'"
proof -
  have e: "DestroyParticle h s =
      then_do (if AsDynamic p then RemoveActive h s else Inr s)
        (\<lambda>s1. then_do (DestroyHandleSwap h s1) (\<lambda>s2. Inr (UpdateViews s2)))"
    using assms(2,3) by (simp add: DestroyParticle_def)
  have nc: "\<not> LiveClustered s h" using assms(2,3) by (simp add: LiveClustered_def)
  have "\<exists>m a. (if AsDynamic p then RemoveActive h s else Inr s) =
          Inr (s\<lparr>ActiveParticlesToIndex := m, ActiveParticlesArray := a\<rparr>)
      \<and> StoreOk (s\<lparr>ActiveParticlesToIndex := m, ActiveParticlesArray := a\<rparr>)
      \<and> set a = set (ActiveParticlesArray s) - {h}
      \<and> (\<not> AsDynamic p \<longrightarrow> a = ActiveParticlesArray s \<and> m = ActiveParticlesToIndex s)"
  proof (cases "AsDynamic p")
    case True
    then show ?thesis using RemoveActive_StoreOk [OF assms(1), of h] by auto
  next
    case False
    then have "\<not> LiveDynamic s h" using assms(2) by (simp add: LiveDynamic_def)
    then have "h \<notin> set (ActiveParticlesArray s)" by (rule StoreOk_not_live(1) [OF assms(1)])
    then show ?thesis
      using False assms(1)
      by (intro exI [of _ "ActiveParticlesToIndex s"] exI [of _ "ActiveParticlesArray s"]) simp
  qed
  then obtain m a where
    s1: "(if AsDynamic p then RemoveActive h s else Inr s) =
          Inr (s\<lparr>ActiveParticlesToIndex := m, ActiveParticlesArray := a\<rparr>)"
    and ok1: "StoreOk (s\<lparr>ActiveParticlesToIndex := m, ActiveParticlesArray := a\<rparr>)"
    and sa: "set a = set (ActiveParticlesArray s) - {h}"
    and nd: "\<not> AsDynamic p \<longrightarrow> a = ActiveParticlesArray s \<and> m = ActiveParticlesToIndex s"
    by blast
  let ?s1 = "s\<lparr>ActiveParticlesToIndex := m, ActiveParticlesArray := a\<rparr>"
  have m1: "Memory ?s1 h = Some p" using assms(2) by simp
  have ho1: "HandlesOk ?s1" using ok1 by (simp add: StoreOk_def)
  from DestroyHandleSwap_effect [OF ho1 m1] obtain s2 where
    s2: "DestroyHandleSwap h ?s1 = Inr s2"
    and ph: "ParticleHandles s2 = RemoveAtSwap (HandleIdx p) (ParticleHandles ?s1)"
      "set (ParticleHandles s2) = set (ParticleHandles ?s1) - {h}"
    and mh: "Memory s2 h = None"
    and rel: "\<forall>x. x \<noteq> h \<longrightarrow> rel_option (\<lambda>q' q. \<exists>i. q' = q\<lparr>HandleIdx := i\<rparr>) (Memory s2 x) (Memory ?s1 x)"
    and ps: "Particles s2 = (\<lambda>k. RemoveFromPool k h (Particles ?s1 k))"
    and fr: "ActiveParticlesToIndex s2 = ActiveParticlesToIndex ?s1"
      "ActiveParticlesArray s2 = ActiveParticlesArray ?s1"
      "ActiveClusteredToIndex s2 = ActiveClusteredToIndex ?s1"
      "ActiveClusteredArray s2 = ActiveClusteredArray ?s1"
      "NonDisabledClusteredToIndex s2 = NonDisabledClusteredToIndex ?s1"
      "NonDisabledClusteredArray s2 = NonDisabledClusteredArray ?s1"
    by blast
  have h1: "h \<notin> set (ActiveParticlesArray ?s1)" using sa by simp
  have h2: "h \<notin> set (ActiveClusteredArray ?s1)" "h \<notin> set (NonDisabledClusteredArray ?s1)"
    using StoreOk_not_live(2,3) [OF assms(1) nc] by simp_all
  have ok2: "StoreOk s2"
    by (rule DestroyHandleSwap_StoreOk [OF ok1 m1 s2 h1 h2])
  have d: "DestroyParticle h s = Inr (UpdateViews s2)"
    by (simp add: e s1 s2 then_do_Inr)
  have po: "PoolsOk s" using assms(1) by (simp add: StoreOk_def)
  have pset: "set (Particles s2 k) = set (Particles s k) - {h}" for k
  proof -
    have "distinct (Particles s k)" using po by (simp add: PoolsOk_def)
    from RemoveFromPool_distinct_set [OF this, of k h] show ?thesis by (simp add: ps)
  qed
  let ?s' = "UpdateViews s2"
  have v: "ViewsCurrent ?s'" by (rule ViewsCurrent_UpdateViews)
  have "\<not> InSomeView h ?s'"
    by (rule not_InSomeView [OF v]) (use pset fr h1 h2 in simp_all)
  then show ?thesis
    using d ok2 v sa nd ph mh rel pset ps fr
    by (intro exI [of _ ?s'] conjI) simp_all
qed

lemma StoreOk_DestroyParticle:
  assumes "StoreOk s" and "DestroyParticle h s = Inr s'"
  shows "StoreOk s'"
proof -
  obtain p where p: "Memory s h = Some p"
    using assms(2) by (cases "Memory s h") (simp_all add: DestroyParticle_def)
  have "\<not> AsClustered p"
    using assms(2) p by (cases "AsClustered p") (simp_all add: DestroyParticle_def)
  from DestroyParticle_destroys [OF assms(1) p this] assms(2) show ?thesis
    by auto
qed

lemma StoreOk_ApplyOp:
  assumes "StoreOk s" and "ApplyOp op s = Inr s'"
  shows "StoreOk s'"
proof (cases op)
  case (OpCreateStatic n Params)
  then show ?thesis using assms StoreOk_Create(1) by auto
next
  case (OpCreateKinematic n Params)
  then show ?thesis using assms StoreOk_Create(2) by auto
next
  case (OpCreateDynamic n Params)
  then show ?thesis using assms StoreOk_Create(3) by auto
next
  case (OpCreateClustered n Params)
  then show ?thesis using assms StoreOk_Create(4) by auto
next
  case (OpDestroy h)
  then show ?thesis using assms StoreOk_DestroyParticle by auto
next
  case (OpDisable h)
  then show ?thesis using assms StoreOk_DisableParticle by auto
next
  case (OpEnable h)
  then show ?thesis using assms StoreOk_EnableParticle by auto
next
  case (OpActivate h)
  then show ?thesis using assms StoreOk_ActivateParticle by auto
next
  case (OpDeactivate h)
  then show ?thesis using assms StoreOk_DeactivateParticle by auto
next
  case (OpDeactivateMany hs)
  then show ?thesis using assms StoreOk_DeactivateParticles by auto
next
  case (OpSetDynamicSOA h)
  then show ?thesis using assms StoreOk_SetDynamicParticleSOA by auto
next
  case OpReset
  then show ?thesis using assms by (simp add: Reset_def)
qed

lemma StoreOk_RunOps:
  "StoreOk s \<Longrightarrow> RunOps ops s = Inr s' \<Longrightarrow> StoreOk s'"
proof (induction ops arbitrary: s)
  case Nil
  then show ?case by simp
next
  case (Cons op ops)
  then obtain s1 where "ApplyOp op s = Inr s1" "RunOps ops s1 = Inr s'"
    by (auto simp: then_do_eq_Inr)
  then show ?case using Cons.IH Cons.prems(1) StoreOk_ApplyOp by blast
qed

lemma StoreOk_NewStore: "StoreOk NewStore"
  by (simp add: StoreOk_def IndexMapsOk_def MapArrayOk_def HandlesOk_def PoolsOk_def ArraysTyped_def
      HandlesFresh_def NewStore_def UpdateViews_def)

lemma RemoveActive_maps:
  assumes "MapArrayOk (ActiveParticlesToIndex s) (ActiveParticlesArray s)"
  shows "\<exists>m a. RemoveActive h s = Inr (s\<lparr>ActiveParticlesToIndex := m, ActiveParticlesArray := a\<rparr>)
           \<and> MapArrayOk m a \<and> set a = set (ActiveParticlesArray s) - {h}"
proof -
  from MapArrayOk_remove [OF assms, of h] obtain m a where
    r: "RemoveFromMapAndArray h (ActiveParticlesToIndex s, ActiveParticlesArray s) = Inr (m, a)"
    "MapArrayOk m a" "set a = set (ActiveParticlesArray s) - {h}"
    by auto
  then show ?thesis
    by (intro exI [of _ m] exI [of _ a]) (simp add: RemoveActive_def then_do_Inr)
qed

lemma RemoveActiveClustered_maps:
  assumes "MapArrayOk (ActiveClusteredToIndex s) (ActiveClusteredArray s)"
  shows "\<exists>m a. RemoveActiveClustered h s = Inr (s\<lparr>ActiveClusteredToIndex := m, ActiveClusteredArray := a\<rparr>)
           \<and> MapArrayOk m a \<and> set a = set (ActiveClusteredArray s) - {h}"
proof -
  from MapArrayOk_remove [OF assms, of h] obtain m a where
    r: "RemoveFromMapAndArray h (ActiveClusteredToIndex s, ActiveClusteredArray s) = Inr (m, a)"
    "MapArrayOk m a" "set a = set (ActiveClusteredArray s) - {h}"
    by auto
  then show ?thesis
    by (intro exI [of _ m] exI [of _ a]) (simp add: RemoveActiveClustered_def then_do_Inr)
qed

lemma RemoveNonDisabledClustered_maps:
  assumes "MapArrayOk (NonDisabledClusteredToIndex s) (NonDisabledClusteredArray s)"
  shows "\<exists>m a. RemoveNonDisabledClustered h s =
               Inr (s\<lparr>NonDisabledClusteredToIndex := m, NonDisabledClusteredArray := a\<rparr>)
           \<and> MapArrayOk m a \<and> set a = set (NonDisabledClusteredArray s) - {h}"
proof -
  from MapArrayOk_remove [OF assms, of h] obtain m a where
    r: "RemoveFromMapAndArray h (NonDisabledClusteredToIndex s, NonDisabledClusteredArray s) = Inr (m, a)"
    "MapArrayOk m a" "set a = set (NonDisabledClusteredArray s) - {h}"
    by auto
  then show ?thesis
    by (intro exI [of _ m] exI [of _ a]) (simp add: RemoveNonDisabledClustered_def then_do_Inr)
qed

lemma in_MoveToSOA: "h \<in> set (Particles (MoveToSOA k h s) k)"
  by (simp add: Particles_MoveToSOA)

lemma DisableParticle_disables:
  assumes "IndexMapsOk s" and "Memory s h = Some p" and "AsDynamic p"
  shows "\<exists>s'. DisableParticle h s = Inr s'
     \<and> Memory s' = (Memory s)(h \<mapsto> p\<lparr>Disabled := True, pV := ZeroVector, pW := ZeroVector\<rparr>)
     \<and> set (ActiveParticlesArray s') = set (ActiveParticlesArray s) - {h}
     \<and> (AsClustered p \<longrightarrow>
           set (ActiveClusteredArray s') = set (ActiveClusteredArray s) - {h}
         \<and> set (NonDisabledClusteredArray s') = set (NonDisabledClusteredArray s) - {h}
         \<and> Particles s' = Particles s)
     \<and> (\<not> AsClustered p \<longrightarrow>
           ActiveClusteredArray s' = ActiveClusteredArray s
         \<and> ActiveClusteredToIndex s' = ActiveClusteredToIndex s
         \<and> NonDisabledClusteredArray s' = NonDisabledClusteredArray s
         \<and> NonDisabledClusteredToIndex s' = NonDisabledClusteredToIndex s
         \<and> h \<in> set (Particles s' DynamicDisabledParticles))
     \<and> ParticleHandles s' = ParticleHandles s
     \<and> IndexMapsOk s' \<and> ViewsCurrent s'"
proof -
  let ?p' = "p\<lparr>Disabled := True, pV := ZeroVector, pW := ZeroVector\<rparr>"
  let ?s1 = "WriteParticle h ?p' s"
  have e: "DisableParticle h s =
      then_do
        (if AsClustered p
         then then_do (RemoveNonDisabledClustered h ?s1) (RemoveActiveClustered h)
         else Inr (MoveToSOA DynamicDisabledParticles h ?s1))
        (\<lambda>s2. then_do (RemoveActive h s2) (\<lambda>s3. Inr (UpdateViews s3)))"
    using assms(2,3) by (simp add: DisableParticle_def)
  have ok: "MapArrayOk (ActiveParticlesToIndex s) (ActiveParticlesArray s)"
    "MapArrayOk (ActiveClusteredToIndex s) (ActiveClusteredArray s)"
    "MapArrayOk (NonDisabledClusteredToIndex s) (NonDisabledClusteredArray s)"
    using assms(1) by (simp_all add: IndexMapsOk_def)
  have "\<exists>s2. (if AsClustered p
         then then_do (RemoveNonDisabledClustered h ?s1) (RemoveActiveClustered h)
         else Inr (MoveToSOA DynamicDisabledParticles h ?s1)) = Inr s2
      \<and> Memory s2 = Memory ?s1
      \<and> ActiveParticlesToIndex s2 = ActiveParticlesToIndex s
      \<and> ActiveParticlesArray s2 = ActiveParticlesArray s
      \<and> ParticleHandles s2 = ParticleHandles s
      \<and> MapArrayOk (ActiveClusteredToIndex s2) (ActiveClusteredArray s2)
      \<and> MapArrayOk (NonDisabledClusteredToIndex s2) (NonDisabledClusteredArray s2)
      \<and> (AsClustered p \<longrightarrow>
            set (ActiveClusteredArray s2) = set (ActiveClusteredArray s) - {h}
          \<and> set (NonDisabledClusteredArray s2) = set (NonDisabledClusteredArray s) - {h}
          \<and> Particles s2 = Particles s)
      \<and> (\<not> AsClustered p \<longrightarrow>
            ActiveClusteredArray s2 = ActiveClusteredArray s
          \<and> ActiveClusteredToIndex s2 = ActiveClusteredToIndex s
          \<and> NonDisabledClusteredArray s2 = NonDisabledClusteredArray s
          \<and> NonDisabledClusteredToIndex s2 = NonDisabledClusteredToIndex s
          \<and> h \<in> set (Particles s2 DynamicDisabledParticles))"
  proof (cases "AsClustered p")
    case False
    then show ?thesis using ok(2,3) in_MoveToSOA [of h DynamicDisabledParticles ?s1] by simp
  next
    case True
    have "MapArrayOk (NonDisabledClusteredToIndex ?s1) (NonDisabledClusteredArray ?s1)"
      using ok(3) by simp
    from RemoveNonDisabledClustered_maps [OF this, of h] obtain m a where
      a: "RemoveNonDisabledClustered h ?s1 =
          Inr (?s1\<lparr>NonDisabledClusteredToIndex := m, NonDisabledClusteredArray := a\<rparr>)"
      "MapArrayOk m a" "set a = set (NonDisabledClusteredArray s) - {h}"
      by auto
    let ?sa = "?s1\<lparr>NonDisabledClusteredToIndex := m, NonDisabledClusteredArray := a\<rparr>"
    have "MapArrayOk (ActiveClusteredToIndex ?sa) (ActiveClusteredArray ?sa)"
      using ok(2) by simp
    from RemoveActiveClustered_maps [OF this, of h] obtain m' a' where
      b: "RemoveActiveClustered h ?sa = Inr (?sa\<lparr>ActiveClusteredToIndex := m', ActiveClusteredArray := a'\<rparr>)"
      "MapArrayOk m' a'" "set a' = set (ActiveClusteredArray s) - {h}"
      by auto
    let ?sb = "?sa\<lparr>ActiveClusteredToIndex := m', ActiveClusteredArray := a'\<rparr>"
    have "(if AsClustered p
         then then_do (RemoveNonDisabledClustered h ?s1) (RemoveActiveClustered h)
         else Inr (MoveToSOA DynamicDisabledParticles h ?s1)) = Inr ?sb"
      using True a(1) b(1) by (simp add: then_do_Inr)
    then show ?thesis
      using True a(2,3) b(2,3) by (intro exI [of _ ?sb]) simp
  qed
  then obtain s2 where s2: "(if AsClustered p
         then then_do (RemoveNonDisabledClustered h ?s1) (RemoveActiveClustered h)
         else Inr (MoveToSOA DynamicDisabledParticles h ?s1)) = Inr s2"
    and f2: "Memory s2 = Memory ?s1"
      "ActiveParticlesToIndex s2 = ActiveParticlesToIndex s"
      "ActiveParticlesArray s2 = ActiveParticlesArray s"
      "ParticleHandles s2 = ParticleHandles s"
    and m2: "MapArrayOk (ActiveClusteredToIndex s2) (ActiveClusteredArray s2)"
      "MapArrayOk (NonDisabledClusteredToIndex s2) (NonDisabledClusteredArray s2)"
    and c2: "AsClustered p \<longrightarrow>
            set (ActiveClusteredArray s2) = set (ActiveClusteredArray s) - {h}
          \<and> set (NonDisabledClusteredArray s2) = set (NonDisabledClusteredArray s) - {h}
          \<and> Particles s2 = Particles s"
    and n2: "\<not> AsClustered p \<longrightarrow>
            ActiveClusteredArray s2 = ActiveClusteredArray s
          \<and> ActiveClusteredToIndex s2 = ActiveClusteredToIndex s
          \<and> NonDisabledClusteredArray s2 = NonDisabledClusteredArray s
          \<and> NonDisabledClusteredToIndex s2 = NonDisabledClusteredToIndex s
          \<and> h \<in> set (Particles s2 DynamicDisabledParticles)"
    by blast
  have "MapArrayOk (ActiveParticlesToIndex s2) (ActiveParticlesArray s2)"
    using ok(1) f2(2,3) by simp
  from RemoveActive_maps [OF this, of h] obtain m a where
    r: "RemoveActive h s2 = Inr (s2\<lparr>ActiveParticlesToIndex := m, ActiveParticlesArray := a\<rparr>)"
    "MapArrayOk m a" "set a = set (ActiveParticlesArray s) - {h}"
    using f2(3) by auto
  let ?s' = "UpdateViews (s2\<lparr>ActiveParticlesToIndex := m, ActiveParticlesArray := a\<rparr>)"
  have d: "DisableParticle h s = Inr ?s'"
    by (simp add: e s2 r(1) then_do_Inr)
  have mem: "Memory ?s' = (Memory s)(h \<mapsto> ?p')"
    using f2(1) by simp
  have im: "IndexMapsOk ?s'"
    using r(2) m2 by (simp add: IndexMapsOk_def)
  have v: "ViewsCurrent ?s'" by (rule ViewsCurrent_UpdateViews)
  show ?thesis
    using d mem r(3) c2 n2 f2(4) im v
    by (intro exI [of _ ?s'] conjI) simp_all
qed

lemma distinct_singleton:
  assumes "distinct xs" and "set xs = {a}"
  shows "xs = [a]"
proof (cases xs)
  case Nil
  then show ?thesis using assms(2) by simp
next
  case (Cons x ys)
  then have x: "x = a" and "set ys \<subseteq> {a}" and "a \<notin> set ys"
    using assms by auto
  then have "ys = []" by (cases ys) auto
  then show ?thesis using Cons x by simp
qed

lemma TwoDynamic_run: "RunOps [OpCreateDynamic 2 DefaultParameters] NewStore = Inr TwoDynamic"
  by (simp add: TwoDynamic_def then_do_Inr)

lemma TwoDynamic_StoreOk: "StoreOk TwoDynamic"
  by (rule StoreOk_RunOps [OF StoreOk_NewStore TwoDynamic_run])

lemma TwoDynamic_Memory:
  "Memory TwoDynamic h = (if h < 2 then Some (CreateParticleHandle Dynamic h) else None)"
  by (simp add: TwoDynamic_def Memory_CreateDynamicParticles Memory_CreateParticlesHelper
      NewStore_def UpdateViews_def)

lemma TwoDynamic_arrays:
  "ParticleHandles TwoDynamic = [0, 1]"
  "ActiveParticlesArray TwoDynamic = [0, 1]"
  "ActiveParticlesToIndex TwoDynamic = [0 \<mapsto> 0, 1 \<mapsto> 1]"
  "GetActiveParticlesView TwoDynamic = [0, 1]"
  "GetAllParticlesView TwoDynamic = [0, 1]"
  "Particles TwoDynamic k = (if k = DynamicParticles then [0, 1] else [])"
  by (simp_all add: TwoDynamic_def CreateDynamicParticles_def CreateParticlesHelper_def
      NewStore_def UpdateViews_def DefaultParameters_def InsertManyActive_def
      InsertManyToMapAndArray_def GetActiveParticlesView_def GetAllParticlesView_def Let_def)

text \<open>
  C10. \<open>DestroyParticle\<close> supports only non-clustered particles: on a clustered particle its
  assertion fails and nothing is destroyed. On a live particle that is not clustered, in a
  store that satisfies the invariant \<open>StoreOk\<close>, it succeeds; every store reached from a new
  store by the operations of the store satisfies \<open>StoreOk\<close>. The particle leaves the
  active-particle index, map and array, and the other particles of the index stay; the
  handle is removed from the array of handles by swap-with-last compaction, the handle is
  no longer live, and every other handle is as before up to the index it records; the
  particle leaves its pool. The five views are those built from the pools and arrays of
  the resulting store, none of them contains the particle, and the invariant holds again.
\<close>

theorem DestroyParticle_non_clustered_only:
  assumes "Memory s h = Some p"
  shows "(AsClustered p \<longrightarrow> DestroyParticle h s = Inl CheckFailed)
       \<and> (\<not> AsClustered p \<and> StoreOk s \<longrightarrow>
            (\<exists>s'. DestroyParticle h s = Inr s'
               \<and> set (ActiveParticlesArray s') = set (ActiveParticlesArray s) - {h}
               \<and> dom (ActiveParticlesToIndex s') = dom (ActiveParticlesToIndex s) - {h}
               \<and> MapArrayOk (ActiveParticlesToIndex s') (ActiveParticlesArray s')
               \<and> (\<not> AsDynamic p \<longrightarrow> ActiveParticlesArray s' = ActiveParticlesArray s
                      \<and> ActiveParticlesToIndex s' = ActiveParticlesToIndex s)
               \<and> ParticleHandles s' = RemoveAtSwap (HandleIdx p) (ParticleHandles s)
               \<and> set (ParticleHandles s') = set (ParticleHandles s) - {h}
               \<and> Memory s' h = None
               \<and> (\<forall>x. x \<noteq> h \<longrightarrow>
                     rel_option (\<lambda>q' q. \<exists>i. q' = q\<lparr>HandleIdx := i\<rparr>) (Memory s' x) (Memory s x))
               \<and> HandlesOk s'
               \<and> (\<forall>k. set (Particles s' k) = set (Particles s k) - {h})
               \<and> ViewsCurrent s' \<and> \<not> InSomeView h s'
               \<and> StoreOk s'))
       \<and> (RunOps ops NewStore = Inr s \<longrightarrow> StoreOk s)"
proof (intro conjI impI)
  assume "AsClustered p"
  then show "DestroyParticle h s = Inl CheckFailed"
    using assms by (simp add: DestroyParticle_def)
next
  assume "RunOps ops NewStore = Inr s"
  then show "StoreOk s" by (rule StoreOk_RunOps [OF StoreOk_NewStore])
next
  assume a: "\<not> AsClustered p \<and> StoreOk s"
  from DestroyParticle_destroys [OF conjunct2 [OF a] assms conjunct1 [OF a]] obtain s' where
    d: "DestroyParticle h s = Inr s'" and ok: "StoreOk s'" and v: "ViewsCurrent s'"
    and sa: "set (ActiveParticlesArray s') = set (ActiveParticlesArray s) - {h}"
    and nd: "\<not> AsDynamic p \<longrightarrow> ActiveParticlesArray s' = ActiveParticlesArray s
            \<and> ActiveParticlesToIndex s' = ActiveParticlesToIndex s"
    and ph: "ParticleHandles s' = RemoveAtSwap (HandleIdx p) (ParticleHandles s)"
      "set (ParticleHandles s') = set (ParticleHandles s) - {h}"
    and mh: "Memory s' h = None"
    and rel: "\<forall>x. x \<noteq> h \<longrightarrow>
        rel_option (\<lambda>q' q. \<exists>i. q' = q\<lparr>HandleIdx := i\<rparr>) (Memory s' x) (Memory s x)"
    and ps: "\<forall>k. set (Particles s' k) = set (Particles s k) - {h}"
    and nv: "\<not> InSomeView h s'"
    by blast
  have m: "MapArrayOk (ActiveParticlesToIndex s') (ActiveParticlesArray s')"
    "MapArrayOk (ActiveParticlesToIndex s) (ActiveParticlesArray s)"
    using StoreOk_maps(1) ok a by simp_all
  have dm: "dom (ActiveParticlesToIndex s') = dom (ActiveParticlesToIndex s) - {h}"
    using MapArrayOk_dom [OF m(1)] MapArrayOk_dom [OF m(2)] sa by simp
  have ho: "HandlesOk s'" using ok by (simp add: StoreOk_def)
  show "\<exists>s'. DestroyParticle h s = Inr s'
               \<and> set (ActiveParticlesArray s') = set (ActiveParticlesArray s) - {h}
               \<and> dom (ActiveParticlesToIndex s') = dom (ActiveParticlesToIndex s) - {h}
               \<and> MapArrayOk (ActiveParticlesToIndex s') (ActiveParticlesArray s')
               \<and> (\<not> AsDynamic p \<longrightarrow> ActiveParticlesArray s' = ActiveParticlesArray s
                      \<and> ActiveParticlesToIndex s' = ActiveParticlesToIndex s)
               \<and> ParticleHandles s' = RemoveAtSwap (HandleIdx p) (ParticleHandles s)
               \<and> set (ParticleHandles s') = set (ParticleHandles s) - {h}
               \<and> Memory s' h = None
               \<and> (\<forall>x. x \<noteq> h \<longrightarrow>
                     rel_option (\<lambda>q' q. \<exists>i. q' = q\<lparr>HandleIdx := i\<rparr>) (Memory s' x) (Memory s x))
               \<and> HandlesOk s'
               \<and> (\<forall>k. set (Particles s' k) = set (Particles s k) - {h})
               \<and> ViewsCurrent s' \<and> \<not> InSomeView h s'
               \<and> StoreOk s'"
    by (intro exI [of _ s'] conjI d sa dm m(1) nd ph mh rel ho ps v nv ok)
qed

theorem DestroyParticle_non_clustered_only_witness:
  "RunOps [OpCreateDynamic 2 DefaultParameters] NewStore = Inr TwoDynamic
   \<and> StoreOk TwoDynamic
   \<and> Memory TwoDynamic 0 = Some (CreateParticleHandle Dynamic 0)
   \<and> ParticleHandles TwoDynamic = [0, 1]
   \<and> GetActiveParticlesView TwoDynamic = [0, 1]
   \<and> GetAllParticlesView TwoDynamic = [0, 1]
   \<and> (\<exists>s'. DestroyParticle 0 TwoDynamic = Inr s' \<and> ParticleHandles s' = [1]
        \<and> Memory s' 0 = None \<and> Memory s' 1 = Some (CreateParticleHandle Dynamic 0)
        \<and> GetActiveParticlesView s' = [1] \<and> ActiveParticlesToIndex s' = [1 \<mapsto> 0]
        \<and> GetAllParticlesView s' = [1]
        \<and> \<not> InSomeView 0 s' \<and> StoreOk s')
   \<and> Memory OneClustered 0 = Some (CreateParticleHandle Clustered 0)
   \<and> DestroyParticle 0 OneClustered = Inl CheckFailed"
proof -
  let ?p = "CreateParticleHandle Dynamic 0"
  let ?c = "CreateParticleHandle Clustered 0"
  have m: "Memory TwoDynamic 0 = Some ?p"
    by (simp add: TwoDynamic_Memory)
  have p: "\<not> AsClustered ?p" "HandleIdx ?p = 0"
    by simp_all
  have c: "Memory OneClustered 0 = Some ?c"
    by (simp add: OneClustered_def Memory_CreateClusteredParticles Memory_CreateParticlesHelper
        NewStore_def UpdateViews_def)
  have ok0: "StoreOk TwoDynamic"
    using DestroyParticle_non_clustered_only [OF m, of "[OpCreateDynamic 2 DefaultParameters]"]
      TwoDynamic_run by simp
  from DestroyParticle_non_clustered_only [OF m, THEN conjunct2, THEN conjunct1, THEN mp,
      OF conjI [OF p(1) ok0]]
  obtain s' where
    d: "DestroyParticle 0 TwoDynamic = Inr s'"
    and sa: "set (ActiveParticlesArray s') = set (ActiveParticlesArray TwoDynamic) - {0}"
    and ma: "MapArrayOk (ActiveParticlesToIndex s') (ActiveParticlesArray s')"
    and ph: "ParticleHandles s' = RemoveAtSwap (HandleIdx ?p) (ParticleHandles TwoDynamic)"
    and mh: "Memory s' 0 = None"
    and rel: "\<forall>x. x \<noteq> 0 \<longrightarrow>
        rel_option (\<lambda>q' q. \<exists>i. q' = q\<lparr>HandleIdx := i\<rparr>) (Memory s' x) (Memory TwoDynamic x)"
    and ho: "HandlesOk s'"
    and ps: "\<forall>k. set (Particles s' k) = set (Particles TwoDynamic k) - {0}"
    and v: "ViewsCurrent s'" and nv: "\<not> InSomeView 0 s'" and ok: "StoreOk s'"
    by (elim exE conjE) (rule that, assumption+)
  have ph1: "ParticleHandles s' = [1]"
    using ph by (simp add: TwoDynamic_arrays RemoveAtSwap_def)
  have arr: "ActiveParticlesArray s' = [1]"
    using ma sa by (intro distinct_singleton) (auto simp: MapArrayOk_def TwoDynamic_arrays)
  have idx: "ActiveParticlesToIndex s' = [1 \<mapsto> 0]"
  proof
    fix x
    have "ActiveParticlesToIndex s' x = Some i \<longleftrightarrow> i = 0 \<and> x = 1" for i
      using ma by (auto simp: MapArrayOk_def arr)
    then show "ActiveParticlesToIndex s' x = [1 \<mapsto> 0] x"
      by (cases "ActiveParticlesToIndex s' x") auto
  qed
  obtain q where q: "Memory s' 1 = Some q" "\<exists>i. q = (CreateParticleHandle Dynamic 1)\<lparr>HandleIdx := i\<rparr>"
    using rel [rule_format, of 1]
    by (cases "Memory s' 1") (simp_all add: TwoDynamic_Memory)
  have "HandleIdx q < length (ParticleHandles s')"
    using ho q(1) by (simp add: HandlesOk_def)
  then have "HandleIdx q = 0" by (simp add: ph1)
  then have m1: "Memory s' 1 = Some ?p"
    using q by (auto simp: CreateParticleHandle_def)
  have pools: "Particles s' k = (if k = DynamicParticles then [1] else [])" for k
  proof (cases "k = DynamicParticles")
    case True
    have "distinct (Particles s' k)" using ok by (simp add: StoreOk_def PoolsOk_def)
    moreover have "set (Particles s' k) = {1}"
      using ps [rule_format, of k] True by (auto simp: TwoDynamic_arrays)
    ultimately show ?thesis using True by (simp add: distinct_singleton)
  next
    case False
    have "set (Particles s' k) = {}"
      using ps [rule_format, of k] False by (simp add: TwoDynamic_arrays)
    then show ?thesis using False by simp
  qed
  have views: "GetActiveParticlesView s' = [1]" "GetAllParticlesView s' = [1]"
    using v by (simp_all add: ViewsCurrent_def arr pools)
  have e: "\<exists>s'. DestroyParticle 0 TwoDynamic = Inr s' \<and> ParticleHandles s' = [1]
        \<and> Memory s' 0 = None \<and> Memory s' 1 = Some ?p
        \<and> GetActiveParticlesView s' = [1] \<and> ActiveParticlesToIndex s' = [1 \<mapsto> 0]
        \<and> GetAllParticlesView s' = [1]
        \<and> \<not> InSomeView 0 s' \<and> StoreOk s'"
    by (intro exI [of _ s'] conjI d ph1 mh m1 views idx nv ok)
  have f: "DestroyParticle 0 OneClustered = Inl CheckFailed"
    using DestroyParticle_non_clustered_only [OF c] by simp
  show ?thesis
    by (intro conjI TwoDynamic_run ok0 m TwoDynamic_arrays(1,4,5) e c f)
qed

lemma MovingPair_facts:
  "Memory MovingPair 0 = Some MovingParticle"
  "Memory MovingPair 1 = Some (CreateParticleHandle Dynamic 1)"
  "ActiveParticlesArray MovingPair = [0, 1]"
  "GetActiveParticlesView MovingPair = [0, 1]"
  "IndexMapsOk MovingPair"
  "AsDynamic MovingParticle"
  "pV MovingParticle = FVec3 1 2 3"
  "pW MovingParticle = FVec3 0 0 1"
  "Disabled MovingParticle = False"
proof -
  show "Memory MovingPair 0 = Some MovingParticle"
    "Memory MovingPair 1 = Some (CreateParticleHandle Dynamic 1)"
    by (simp_all add: MovingPair_def TwoDynamic_Memory)
  show "ActiveParticlesArray MovingPair = [0, 1]"
    by (simp add: MovingPair_def TwoDynamic_arrays)
  show "GetActiveParticlesView MovingPair = [0, 1]"
    using TwoDynamic_arrays(4) by (simp add: MovingPair_def GetActiveParticlesView_def WriteParticle_def)
  show "IndexMapsOk MovingPair"
    using TwoDynamic_StoreOk by (simp add: MovingPair_def StoreOk_def IndexMapsOk_def)
  show "AsDynamic MovingParticle" "pV MovingParticle = FVec3 1 2 3" "pW MovingParticle = FVec3 0 0 1"
    "Disabled MovingParticle = False"
    by (simp_all add: MovingParticle_def CreateParticleHandle_def DefaultParticle_def AsDynamic_def)
qed

lemma MovingPair_DisabledAtRest: "DisabledAtRest MovingPair"
  by (auto simp: DisabledAtRest_def MovingPair_def TwoDynamic_Memory MovingParticle_def
      CreateParticleHandle_def DefaultParticle_def split: if_splits)

text \<open>
  C8. Every operation of the particle store that succeeds preserves the invariant that every
  disabled dynamic particle has zero linear and zero angular velocity; the invariant
  holds after every sequence of operations on a new store, and the index maps of such a
  store are consistent. In particular \<open>DisableParticle\<close> on a live dynamic particle, in a
  store whose index maps are consistent, sets its disabled flag and zeroes its \<open>V\<close> and
  \<open>W\<close>, and leaves every other particle as it is. It removes the particle, and no other,
  from the active-particle array and map, which stay consistent, and the active-particles
  view is the array. A clustered particle leaves the two clustered arrays as well; another
  dynamic particle moves to the pool of the disabled dynamic particles.
\<close>

theorem disabled_particles_at_rest:
  "(DisabledAtRest s \<and> ApplyOp op s = Inr s' \<longrightarrow> DisabledAtRest s')
   \<and> (RunOps ops NewStore = Inr s'' \<longrightarrow> DisabledAtRest s'' \<and> IndexMapsOk s'')
   \<and> (IndexMapsOk s \<and> Memory s h = Some p \<and> AsDynamic p \<longrightarrow>
        (\<exists>t. DisableParticle h s = Inr t
           \<and> Memory t = (Memory s)(h \<mapsto> p\<lparr>Disabled := True, pV := ZeroVector, pW := ZeroVector\<rparr>)
           \<and> set (ActiveParticlesArray t) = set (ActiveParticlesArray s) - {h}
           \<and> dom (ActiveParticlesToIndex t) = dom (ActiveParticlesToIndex s) - {h}
           \<and> IndexMapsOk t
           \<and> GetActiveParticlesView t = ActiveParticlesArray t
           \<and> (AsClustered p \<longrightarrow>
                 set (ActiveClusteredArray t) = set (ActiveClusteredArray s) - {h}
               \<and> set (NonDisabledClusteredArray t) = set (NonDisabledClusteredArray s) - {h})
           \<and> (\<not> AsClustered p \<longrightarrow>
                 ActiveClusteredArray t = ActiveClusteredArray s
               \<and> NonDisabledClusteredArray t = NonDisabledClusteredArray s
               \<and> h \<in> set (Particles t DynamicDisabledParticles))))"
proof (intro conjI impI)
  assume "DisabledAtRest s \<and> ApplyOp op s = Inr s'"
  then show "DisabledAtRest s'" using DisabledAtRest_ApplyOp by blast
next
  assume r: "RunOps ops NewStore = Inr s''"
  then show "DisabledAtRest s''" using DisabledAtRest_RunOps [OF DisabledAtRest_NewStore] by blast
  from StoreOk_RunOps [OF StoreOk_NewStore r] show "IndexMapsOk s''"
    by (simp add: StoreOk_def)
next
  assume a: "IndexMapsOk s \<and> Memory s h = Some p \<and> AsDynamic p"
  then have a1: "IndexMapsOk s" and a2: "Memory s h = Some p" and a3: "AsDynamic p"
    by simp_all
  from DisableParticle_disables [OF a1 a2 a3] obtain t where
    d: "DisableParticle h s = Inr t"
    and m: "Memory t = (Memory s)(h \<mapsto> p\<lparr>Disabled := True, pV := ZeroVector, pW := ZeroVector\<rparr>)"
    and sa: "set (ActiveParticlesArray t) = set (ActiveParticlesArray s) - {h}"
    and c: "AsClustered p \<longrightarrow>
           set (ActiveClusteredArray t) = set (ActiveClusteredArray s) - {h}
         \<and> set (NonDisabledClusteredArray t) = set (NonDisabledClusteredArray s) - {h}
         \<and> Particles t = Particles s"
    and n: "\<not> AsClustered p \<longrightarrow>
           ActiveClusteredArray t = ActiveClusteredArray s
         \<and> ActiveClusteredToIndex t = ActiveClusteredToIndex s
         \<and> NonDisabledClusteredArray t = NonDisabledClusteredArray s
         \<and> NonDisabledClusteredToIndex t = NonDisabledClusteredToIndex s
         \<and> h \<in> set (Particles t DynamicDisabledParticles)"
    and im: "IndexMapsOk t" and v: "ViewsCurrent t"
    by (elim exE conjE) (rule that, assumption+)
  have dm: "dom (ActiveParticlesToIndex t) = dom (ActiveParticlesToIndex s) - {h}"
    using MapArrayOk_dom [of "ActiveParticlesToIndex t" "ActiveParticlesArray t"]
      MapArrayOk_dom [of "ActiveParticlesToIndex s" "ActiveParticlesArray s"] im a1 sa
    by (simp add: IndexMapsOk_def)
  have av: "GetActiveParticlesView t = ActiveParticlesArray t"
    using v by (simp add: ViewsCurrent_def)
  have c': "AsClustered p \<longrightarrow>
                 set (ActiveClusteredArray t) = set (ActiveClusteredArray s) - {h}
               \<and> set (NonDisabledClusteredArray t) = set (NonDisabledClusteredArray s) - {h}"
    using c by simp
  have n': "\<not> AsClustered p \<longrightarrow>
                 ActiveClusteredArray t = ActiveClusteredArray s
               \<and> NonDisabledClusteredArray t = NonDisabledClusteredArray s
               \<and> h \<in> set (Particles t DynamicDisabledParticles)"
    using n by simp
  show "\<exists>t. DisableParticle h s = Inr t
           \<and> Memory t = (Memory s)(h \<mapsto> p\<lparr>Disabled := True, pV := ZeroVector, pW := ZeroVector\<rparr>)
           \<and> set (ActiveParticlesArray t) = set (ActiveParticlesArray s) - {h}
           \<and> dom (ActiveParticlesToIndex t) = dom (ActiveParticlesToIndex s) - {h}
           \<and> IndexMapsOk t
           \<and> GetActiveParticlesView t = ActiveParticlesArray t
           \<and> (AsClustered p \<longrightarrow>
                 set (ActiveClusteredArray t) = set (ActiveClusteredArray s) - {h}
               \<and> set (NonDisabledClusteredArray t) = set (NonDisabledClusteredArray s) - {h})
           \<and> (\<not> AsClustered p \<longrightarrow>
                 ActiveClusteredArray t = ActiveClusteredArray s
               \<and> NonDisabledClusteredArray t = NonDisabledClusteredArray s
               \<and> h \<in> set (Particles t DynamicDisabledParticles))"
    by (intro exI [of _ t] conjI d m sa dm im av c' n')
qed

theorem disabled_particles_at_rest_witness:
  "RunOps [OpCreateDynamic 2 DefaultParameters] NewStore = Inr TwoDynamic
   \<and> DisabledAtRest TwoDynamic
   \<and> DisabledAtRest MovingPair \<and> IndexMapsOk MovingPair
   \<and> Memory MovingPair 0 = Some MovingParticle \<and> AsDynamic MovingParticle
   \<and> pV MovingParticle = FVec3 1 2 3 \<and> pW MovingParticle = FVec3 0 0 1
   \<and> Disabled MovingParticle = False
   \<and> GetActiveParticlesView MovingPair = [0, 1]
   \<and> (\<exists>t. ApplyOp (OpDisable 0) MovingPair = Inr t \<and> DisabledAtRest t
        \<and> Memory t 0 = Some (MovingParticle\<lparr>Disabled := True, pV := ZeroVector, pW := ZeroVector\<rparr>)
        \<and> Memory t 1 = Memory MovingPair 1
        \<and> GetActiveParticlesView t = [1]
        \<and> 0 \<in> set (Particles t DynamicDisabledParticles))"
proof -
  have a: "DisabledAtRest TwoDynamic"
    using disabled_particles_at_rest [of NewStore OpReset NewStore "[OpCreateDynamic 2 DefaultParameters]"
        TwoDynamic 0 MovingParticle] TwoDynamic_run
    by simp
  have nc: "\<not> AsClustered MovingParticle"
    by (simp add: MovingParticle_def CreateParticleHandle_def DefaultParticle_def AsClustered_def)
  from disabled_particles_at_rest [of MovingPair "OpDisable 0" _ "[]" NewStore 0 MovingParticle,
      THEN conjunct2, THEN conjunct2, THEN mp,
      OF conjI [OF MovingPair_facts(5) conjI [OF MovingPair_facts(1) MovingPair_facts(6)]]]
  obtain t where
    d: "DisableParticle 0 MovingPair = Inr t"
    and m: "Memory t = (Memory MovingPair)(0 \<mapsto> MovingParticle\<lparr>Disabled := True, pV := ZeroVector, pW := ZeroVector\<rparr>)"
    and sa: "set (ActiveParticlesArray t) = set (ActiveParticlesArray MovingPair) - {0}"
    and im: "IndexMapsOk t"
    and av: "GetActiveParticlesView t = ActiveParticlesArray t"
    and n: "\<not> AsClustered MovingParticle \<longrightarrow>
                 ActiveClusteredArray t = ActiveClusteredArray MovingPair
               \<and> NonDisabledClusteredArray t = NonDisabledClusteredArray MovingPair
               \<and> 0 \<in> set (Particles t DynamicDisabledParticles)"
    by (elim exE conjE) (rule that, assumption+)
  have r: "DisabledAtRest t"
    using disabled_particles_at_rest [of MovingPair "OpDisable 0" t "[]" NewStore 0 MovingParticle]
      MovingPair_DisabledAtRest d
    by simp
  have "distinct (ActiveParticlesArray t)"
    using im by (simp add: IndexMapsOk_def MapArrayOk_def)
  moreover have "set (ActiveParticlesArray t) = {1}"
    using sa by (auto simp: MovingPair_facts(3))
  ultimately have arr: "ActiveParticlesArray t = [1]"
    by (rule distinct_singleton)
  have e: "\<exists>t. ApplyOp (OpDisable 0) MovingPair = Inr t \<and> DisabledAtRest t
        \<and> Memory t 0 = Some (MovingParticle\<lparr>Disabled := True, pV := ZeroVector, pW := ZeroVector\<rparr>)
        \<and> Memory t 1 = Memory MovingPair 1
        \<and> GetActiveParticlesView t = [1]
        \<and> 0 \<in> set (Particles t DynamicDisabledParticles)"
    using d r m av arr n nc by (intro exI [of _ t]) simp
  show ?thesis
    by (intro conjI TwoDynamic_run a MovingPair_DisabledAtRest MovingPair_facts(5,1,6,7,8,9,4) e)
qed

text \<open>
  C2. \<open>CreateDynamicParticles\<close> with the parameters "disabled, not sleeping", on a new store,
  returns the handle 0 and files the particle in the pool of the disabled dynamic
  particles, not in the pool of the dynamic particles. The views of the particles that are
  not disabled do not contain it, the view of all particles does, and yet the
  active-particles view contains it. The same pools, reached by creating the particle with
  the default parameters and calling \<open>DisableParticle\<close>, come with an empty active-particles
  view.
\<close>

theorem CreateDynamicParticles_disabled_in_active_view:
  "RunOps [OpCreateDynamic 1 DisabledAwake] NewStore = Inr DisabledAtCreation
   \<and> fst (CreateDynamicParticles 1 DisabledAwake NewStore) = [0]
   \<and> Particles DisabledAtCreation DynamicDisabledParticles = [0]
   \<and> Particles DisabledAtCreation DynamicParticles = []
   \<and> GetAllParticlesView DisabledAtCreation = [0]
   \<and> GetNonDisabledView DisabledAtCreation = []
   \<and> GetNonDisabledDynamicView DisabledAtCreation = []
   \<and> GetActiveParticlesView DisabledAtCreation = [0]
   \<and> (\<exists>t. RunOps [OpCreateDynamic 1 DefaultParameters, OpDisable 0] NewStore = Inr t
        \<and> Particles t DynamicDisabledParticles = [0]
        \<and> Particles t DynamicParticles = []
        \<and> GetAllParticlesView t = [0]
        \<and> GetNonDisabledView t = []
        \<and> GetNonDisabledDynamicView t = []
        \<and> GetActiveParticlesView t = [])"
proof -
  have c: "RunOps [OpCreateDynamic 1 DisabledAwake] NewStore = Inr DisabledAtCreation"
    by (simp add: DisabledAtCreation_def then_do_Inr)
  have f: "fst (CreateDynamicParticles 1 DisabledAwake NewStore) = [0]"
    by (simp add: CreateDynamicParticles_def CreateParticlesHelper_def NewStore_def UpdateViews_def Let_def)
  have v: "Particles DisabledAtCreation DynamicDisabledParticles = [0]"
    "Particles DisabledAtCreation DynamicParticles = []"
    "GetAllParticlesView DisabledAtCreation = [0]"
    "GetNonDisabledView DisabledAtCreation = []"
    "GetNonDisabledDynamicView DisabledAtCreation = []"
    "GetActiveParticlesView DisabledAtCreation = [0]"
    by (simp_all add: DisabledAtCreation_def CreateDynamicParticles_def CreateParticlesHelper_def
        NewStore_def UpdateViews_def DisabledAwake_def InsertManyToMapAndArray_def InsertManyActive_def
        GetActiveParticlesView_def GetAllParticlesView_def GetNonDisabledView_def
        GetNonDisabledDynamicView_def Let_def)
  have o: "Memory OneDynamic 0 = Some (CreateParticleHandle Dynamic 0)"
    "Particles OneDynamic = (\<lambda>k. if k = DynamicParticles then [0] else [])"
    "ActiveParticlesArray OneDynamic = [0]" "ActiveParticlesToIndex OneDynamic = [0 \<mapsto> 0]"
    "NonDisabledClusteredArray OneDynamic = []"
    by (simp_all add: OneDynamic_def CreateDynamicParticles_def CreateParticlesHelper_def
        NewStore_def UpdateViews_def DefaultParameters_def InsertManyToMapAndArray_def
        InsertManyActive_def Let_def fun_eq_iff)
  let ?q = "(CreateParticleHandle Dynamic 0)\<lparr>Disabled := True, pV := ZeroVector, pW := ZeroVector\<rparr>"
  let ?s1 = "MoveToSOA DynamicDisabledParticles 0 (WriteParticle 0 ?q OneDynamic)"
  have p1: "Particles ?s1 = (\<lambda>k. if k = DynamicDisabledParticles then [0] else [])"
    by (auto simp: MoveToSOA_def o(2) RemoveFromPool_def RemoveAtSwap_def fun_eq_iff)
  have r1: "RemoveActive 0 ?s1 = Inr (?s1\<lparr>ActiveParticlesToIndex := Map.empty, ActiveParticlesArray := []\<rparr>)"
    by (simp add: RemoveActive_def RemoveFromMapAndArray_def o(3,4) RemoveAtSwap_def then_do_Inr Let_def)
  let ?t = "UpdateViews (?s1\<lparr>ActiveParticlesToIndex := Map.empty, ActiveParticlesArray := []\<rparr>)"
  have d: "DisableParticle 0 OneDynamic = Inr ?t"
    by (simp add: DisableParticle_def o(1) r1 then_do_Inr)
  have run: "RunOps [OpCreateDynamic 1 DefaultParameters, OpDisable 0] NewStore = Inr ?t"
    using d by (simp add: then_do_Inr OneDynamic_def)
  have pt: "Particles ?t DynamicDisabledParticles = [0]" "Particles ?t DynamicParticles = []"
    using p1 by simp_all
  have vt: "GetAllParticlesView ?t = [0]" "GetNonDisabledView ?t = []"
    "GetNonDisabledDynamicView ?t = []" "GetActiveParticlesView ?t = []"
    using p1 o(5)
    by (simp_all add: UpdateViews_def GetAllParticlesView_def GetNonDisabledView_def
        GetNonDisabledDynamicView_def GetActiveParticlesView_def)
  have e: "\<exists>t. RunOps [OpCreateDynamic 1 DefaultParameters, OpDisable 0] NewStore = Inr t
        \<and> Particles t DynamicDisabledParticles = [0]
        \<and> Particles t DynamicParticles = []
        \<and> GetAllParticlesView t = [0]
        \<and> GetNonDisabledView t = []
        \<and> GetNonDisabledDynamicView t = []
        \<and> GetActiveParticlesView t = []"
    by (intro exI [of _ ?t] conjI run pt vt)
  show ?thesis
    by (intro conjI c f v e)
qed

end
